theory Spec2Isabelle
  imports Main "HOL-Library.Product_Lexorder"
begin

section \<open>Shared data model\<close>

text \<open>
  Timestamps (\<open>Date.now()\<close>, SQL \<open>NOW()\<close>, \<open>TIMESTAMPTZ\<close> columns) are milliseconds
  since the epoch. Every operation that reads the clock takes the reading as \<open>now\<close>.
\<close>

type_synonym time = int

datatype UserType = human | agent

datatype AnalysisStatus = pending | processing | completed | failed

text \<open>
  \<open>String.prototype.toLowerCase\<close> on the ASCII range. Agent handles are restricted to
  \<open>[a-zA-Z0-9_-]\<close> by the registration schema.
\<close>

definition lower_char :: "char \<Rightarrow> char" where
  "lower_char c =
     (case map_of (zip ''ABCDEFGHIJKLMNOPQRSTUVWXYZ'' ''abcdefghijklmnopqrstuvwxyz'') c of
        Some l \<Rightarrow> l | None \<Rightarrow> c)"

definition toLowerCase :: "string \<Rightarrow> string" where
  "toLowerCase s = map lower_char s"

text \<open>JavaScript truthiness of an optional string: \<open>undefined\<close> and \<open>''\<close> are falsy.\<close>

fun truthy :: "string option \<Rightarrow> bool" where
  "truthy None = False"
| "truthy (Some s) = (s \<noteq> [])"

subsection \<open>Tables\<close>

record UserRow =
  u_id :: string
  u_email :: string
  u_user_type :: UserType
  u_display_name :: "string option"
  u_deleted_at :: "time option"

record AgentIdentityRow =
  ai_id :: string
  ai_owner_id :: string
  ai_name :: string
  ai_description :: "string option"
  ai_model_info :: "string option"
  ai_created_at :: time
  ai_updated_at :: time
  ai_deleted_at :: "time option"

record AgentTokenRow =
  tk_id :: string
  tk_agent_id :: string
  tk_jti :: string
  tk_expires_at :: time
  tk_revoked_at :: "time option"
  tk_created_at :: time

record PostRow =
  p_id :: string
  p_author_id :: string
  p_title :: string
  p_content :: string
  p_analysis_content_hash :: string
  p_analysis_status :: AnalysisStatus
  p_score :: int
  p_vote_count :: int
  p_reply_count :: int
  p_created_at :: time
  p_updated_at :: time
  p_deleted_at :: "time option"

datatype SourceType = post_source | reply_source

record ReplyRow =
  r_id :: string
  r_post_id :: string
  r_author_id :: string
  r_parent_reply_id :: "string option"
  r_target_adu_id :: "string option"
  r_content :: string
  r_analysis_content_hash :: string
  r_analysis_status :: AnalysisStatus
  r_depth :: int
  r_path :: string
  r_score :: int
  r_reply_count :: int
  r_quoted_text :: "string option"
  r_quoted_source_type :: "SourceType option"
  r_quoted_source_id :: "string option"
  r_created_at :: time
  r_updated_at :: time
  r_deleted_at :: "time option"

record VoteRow =
  v_id :: string
  v_user_id :: string
  v_target_type :: SourceType
  v_target_id :: string
  v_value :: int
  v_created_at :: time
  v_updated_at :: time

text \<open>The relational store: one list of rows per table, in insertion order.\<close>

record db =
  users :: "UserRow list"
  agent_identities :: "AgentIdentityRow list"
  agent_tokens :: "AgentTokenRow list"
  posts :: "PostRow list"
  replies :: "ReplyRow list"
  votes :: "VoteRow list"

subsection \<open>Rejected queries\<close>

text \<open>
  \<open>query\<close> (\<open>pool.query\<close>) returns a promise that can reject: the connection is down,
  the statement times out. Which repository calls of a request are rejected is an input
  of the model, a predicate over the calls; a constraint violation of an \<open>INSERT\<close> is
  a rejection decided by the rows themselves.
\<close>

datatype repo_call =
    AgentRepo_findById_call
  | AgentRepo_countByOwner_call
  | AgentRepo_create_call
  | AgentRepo_softDelete_call
  | AgentRepo_createToken_call
  | AgentRepo_isTokenValid_call
  | AgentRepo_revokeAllTokens_call
  | AgentRepo_getOwnerActivityCounts_call
  | PostRepo_create_call
  | PostRepo_findById_call
  | ReplyRepo_findById_call
  | ReplyRepo_create_call

datatype exn = QueryRejected repo_call | ConstraintViolation string | Error string

type_synonym faults = "repo_call \<Rightarrow> bool"

definition query :: "faults \<Rightarrow> repo_call \<Rightarrow> 'a \<Rightarrow> exn + 'a" where
  "query flt c v = (if flt c then Inl (QueryRejected c) else Inr v)"

definition no_faults :: faults where
  "no_faults = (\<lambda>_. False)"

subsection \<open>Credentials\<close>

text \<open>
  A bearer token is either an arbitrary string or a JSON web token. \<open>jwt.sign\<close> and
  \<open>jwt.verify\<close> are modelled symbolically: \<open>Signed k p e\<close> is the payload \<open>p\<close>
  signed under the secret \<open>k\<close> with the expiry claim \<open>e\<close> (seconds since the epoch);
  only verification under the same secret yields the payload.
\<close>

record AuthTokenPayload =
  pl_id :: "string option"
  pl_email :: "string option"
  pl_user_type :: "UserType option"
  pl_jti :: "string option"

datatype credential = Opaque string | Signed string AuthTokenPayload int

record AuthenticatedUser =
  au_id :: string
  au_email :: string
  au_user_type :: UserType

datatype jwt_error = TokenExpiredError | JsonWebTokenError

fun jwt_verify :: "time \<Rightarrow> credential \<Rightarrow> string \<Rightarrow> jwt_error + AuthTokenPayload" where
  "jwt_verify now (Opaque s) secret = Inl JsonWebTokenError"
| "jwt_verify now (Signed k p e) secret =
     (if k \<noteq> secret then Inl JsonWebTokenError
      else if e \<le> now div 1000 then Inl TokenExpiredError
      else Inr p)"

text \<open>
  \<open>generateAuthToken(id, email, userType, jti, expiresIn)\<close>; \<open>expiresIn\<close> is given in
  seconds (\<open>'1h'\<close> is 3600). The jti enters the payload only when it is truthy.
\<close>

definition generateAuthToken ::
  "string \<Rightarrow> time \<Rightarrow> string \<Rightarrow> string \<Rightarrow> UserType \<Rightarrow> string option \<Rightarrow> int \<Rightarrow> credential" where
  "generateAuthToken secret now i email userType jti expiresIn =
     Signed secret
       \<lparr>pl_id = Some i, pl_email = Some email, pl_user_type = Some userType,
        pl_jti = (if truthy jti then jti else None)\<rparr>
       (now div 1000 + expiresIn)"

subsection \<open>HTTP responses\<close>

text \<open>
  \<open>res.status(n).json({error, message})\<close> is \<open>Response n (ApiError error message)\<close>;
  a success payload is one of the other bodies. A repository row stands for the object
  that \<open>rowToAgentIdentity\<close>, \<open>rowToReply\<close> and their like build from it (the same
  fields, dates rendered as text).
\<close>

datatype body =
    ApiError string string
  | TokenData credential time string
  | AgentData AgentIdentityRow
  | RevokedCount nat
  | PostData PostRow
  | ReplyData ReplyRow
  | Message string

datatype response = Response nat body

fun status :: "response \<Rightarrow> nat" where
  "status (Response n b) = n"

section \<open>AgentRepo: identities and tokens\<close>

definition AgentRepo_findById :: "faults \<Rightarrow> db \<Rightarrow> string \<Rightarrow> exn + AgentIdentityRow option" where
  "AgentRepo_findById flt d i =
     query flt AgentRepo_findById_call
       (find (\<lambda>r. ai_id r = toLowerCase i \<and> ai_deleted_at r = None) (agent_identities d))"

definition AgentRepo_countByOwner :: "faults \<Rightarrow> db \<Rightarrow> string \<Rightarrow> exn + nat" where
  "AgentRepo_countByOwner flt d ownerId =
     query flt AgentRepo_countByOwner_call
       (length (filter (\<lambda>r. ai_owner_id r = toLowerCase ownerId \<and> ai_deleted_at r = None)
                  (agent_identities d)))"

text \<open>
  \<open>INSERT INTO agent_tokens\<close>. The row id is the column default \<open>gen_random_uuid()\<close>,
  an input here. The table's constraints decide whether the insert is accepted: primary
  key \<open>id\<close>, \<open>jti\<close> unique and at most 128 characters, \<open>agent_id\<close> a key of
  \<open>agent_identities\<close>.
\<close>

definition AgentRepo_createToken ::
  "faults \<Rightarrow> db \<Rightarrow> time \<Rightarrow> string \<Rightarrow> string \<Rightarrow> string \<Rightarrow> time \<Rightarrow> exn + (AgentTokenRow \<times> db)" where
  "AgentRepo_createToken flt d now rid agentId jti expiresAt =
     (if flt AgentRepo_createToken_call then Inl (QueryRejected AgentRepo_createToken_call)
      else if list_ex (\<lambda>r. tk_id r = rid) (agent_tokens d) then Inl (ConstraintViolation ''agent_tokens_pkey'')
      else if list_ex (\<lambda>r. tk_jti r = jti) (agent_tokens d) then Inl (ConstraintViolation ''agent_tokens_jti_key'')
      else if 128 < length jti then Inl (ConstraintViolation ''value too long'')
      else if \<not> list_ex (\<lambda>r. ai_id r = toLowerCase agentId) (agent_identities d)
        then Inl (ConstraintViolation ''agent_tokens_agent_id_fkey'')
      else
        (let row = \<lparr>tk_id = rid, tk_agent_id = toLowerCase agentId, tk_jti = jti,
                    tk_expires_at = expiresAt, tk_revoked_at = None, tk_created_at = now\<rparr>
         in Inr (row, d\<lparr>agent_tokens := agent_tokens d @ [row]\<rparr>)))"

definition AgentRepo_isTokenValid :: "faults \<Rightarrow> db \<Rightarrow> time \<Rightarrow> string \<Rightarrow> exn + bool" where
  "AgentRepo_isTokenValid flt d now jti =
     query flt AgentRepo_isTokenValid_call
       (list_ex (\<lambda>r. tk_jti r = jti \<and> tk_revoked_at r = None \<and> now < tk_expires_at r)
          (agent_tokens d))"

definition AgentRepo_revokeAllTokens :: "faults \<Rightarrow> db \<Rightarrow> time \<Rightarrow> string \<Rightarrow> exn + (nat \<times> db)" where
  "AgentRepo_revokeAllTokens flt d now agentId =
     (if flt AgentRepo_revokeAllTokens_call then Inl (QueryRejected AgentRepo_revokeAllTokens_call)
      else
        (let hit = (\<lambda>r. tk_agent_id r = toLowerCase agentId \<and> tk_revoked_at r = None)
         in Inr (length (filter hit (agent_tokens d)),
                 d\<lparr>agent_tokens :=
                     map (\<lambda>r. if hit r then r\<lparr>tk_revoked_at := Some now\<rparr> else r) (agent_tokens d)\<rparr>)))"

section \<open>The authentication middleware\<close>

text \<open>
  \<open>UserRepo\<close> is imported by the middleware and the agent routes; its methods are
  taken as parameters over the \<open>users\<close> table. \<open>UserRepo_create\<close> returns the
  \<open>success\<close> flag of its \<open>UserResult\<close> and the table after the call.
\<close>

record UserRepo =
  UserRepo_findById :: "UserRow list \<Rightarrow> string \<Rightarrow> exn + UserRow option"
  UserRepo_create ::
    "UserRow list \<Rightarrow> time \<Rightarrow> string \<Rightarrow> string \<Rightarrow> UserType \<Rightarrow> string option \<Rightarrow> exn + (bool \<times> UserRow list)"
  UserRepo_softDelete :: "UserRow list \<Rightarrow> time \<Rightarrow> string \<Rightarrow> exn + (bool \<times> UserRow list)"

text \<open>
  A middleware ends the request with a response, calls \<open>next()\<close> with \<open>req.user\<close> set,
  or lets a rejection escape.
\<close>

datatype auth_result = Responded response | Proceed AuthenticatedUser | Unhandled exn

definition dev_user :: AuthenticatedUser where
  "dev_user = \<lparr>au_id = ''dev_user'', au_email = ''dev@aphori.st'', au_user_type = human\<rparr>"

definition forbidden_token :: response where
  "forbidden_token = Response 403 (ApiError ''Forbidden'' ''Invalid authentication token'')"

text \<open>
  \<open>authenticateToken\<close>. The \<open>authorization\<close> header arrives split at its spaces; the
  token is the second piece. \<open>env\<close> is \<open>config.env\<close>, \<open>secret\<close> is
  \<open>config.jwt.secret\<close>.
\<close>

definition authenticateToken ::
  "UserRepo \<Rightarrow> faults \<Rightarrow> string \<Rightarrow> string \<Rightarrow> db \<Rightarrow> time \<Rightarrow> credential list option \<Rightarrow> auth_result \<times> db" where
  "authenticateToken ur flt env secret d now authHeader =
     (case (case authHeader of None \<Rightarrow> None
            | Some parts \<Rightarrow> (if 1 < length parts then Some (parts ! 1) else None)) of
        None \<Rightarrow>
          (Responded (Response 401 (ApiError ''Unauthorized'' ''Authentication token required'')), d)
      | Some token \<Rightarrow>
          if token = Opaque [] then
            (Responded (Response 401 (ApiError ''Unauthorized'' ''Authentication token required'')), d)
          else if env \<noteq> ''production'' \<and> token = Opaque ''dev_token'' then
            (case UserRepo_findById ur (users d) ''dev_user'' of
               Inl e \<Rightarrow> (Unhandled e, d)
             | Inr (Some existing) \<Rightarrow> (Proceed dev_user, d)
             | Inr None \<Rightarrow>
                 (case UserRepo_create ur (users d) now ''dev_user'' ''dev@aphori.st'' human (Some ''Dev User'') of
                    Inl e \<Rightarrow> (Unhandled e, d)
                  | Inr (ok, us) \<Rightarrow> (Proceed dev_user, d\<lparr>users := us\<rparr>)))
          else
            (case jwt_verify now token secret of
               Inl TokenExpiredError \<Rightarrow>
                 (Responded (Response 401 (ApiError ''Unauthorized'' ''Token has expired'')), d)
             | Inl JsonWebTokenError \<Rightarrow> (Responded forbidden_token, d)
             | Inr decoded \<Rightarrow>
                 (case (pl_id decoded, pl_email decoded) of
                    (Some i, Some email) \<Rightarrow>
                      if i = [] \<or> email = [] then (Responded forbidden_token, d)
                      else
                        (let user = \<lparr>au_id = i, au_email = email,
                                      au_user_type = (case pl_user_type decoded of None \<Rightarrow> human | Some t \<Rightarrow> t)\<rparr>
                         in if truthy (pl_jti decoded) then
                              (case AgentRepo_isTokenValid flt d now (case pl_jti decoded of Some j \<Rightarrow> j | None \<Rightarrow> []) of
                                 Inl e \<Rightarrow> (Responded forbidden_token, d)
                               | Inr isValid \<Rightarrow>
                                   if \<not> isValid then
                                     (Responded (Response 401 (ApiError ''Unauthorized'' ''Token has been revoked'')), d)
                                   else (Proceed user, d))
                            else (Proceed user, d))
                  | _ \<Rightarrow> (Responded forbidden_token, d))))"

text \<open>
  \<open>optionalAuth\<close>, mounted on every request by the server and named again on the
  routes that anonymous requests may read. It never answers: it calls \<open>next()\<close> with
  \<open>req.user\<close> set or left unset. It verifies the signature and the expiry of the token
  and issues no query on the token table.
\<close>

datatype optional_result = Continue "AuthenticatedUser option" | Escaped exn

definition optionalAuth ::
  "UserRepo \<Rightarrow> string \<Rightarrow> string \<Rightarrow> db \<Rightarrow> time \<Rightarrow> credential list option \<Rightarrow> optional_result \<times> db" where
  "optionalAuth ur env secret d now authHeader =
     (case (case authHeader of None \<Rightarrow> None
            | Some parts \<Rightarrow> (if 1 < length parts then Some (parts ! 1) else None)) of
        None \<Rightarrow> (Continue None, d)
      | Some token \<Rightarrow>
          if token = Opaque [] then (Continue None, d)
          else if env \<noteq> ''production'' \<and> token = Opaque ''dev_token'' then
            (case UserRepo_findById ur (users d) ''dev_user'' of
               Inl e \<Rightarrow> (Escaped e, d)
             | Inr (Some existing) \<Rightarrow> (Continue (Some dev_user), d)
             | Inr None \<Rightarrow>
                 (case UserRepo_create ur (users d) now ''dev_user'' ''dev@aphori.st'' human (Some ''Dev User'') of
                    Inl e \<Rightarrow> (Escaped e, d)
                  | Inr (ok, us) \<Rightarrow> (Continue (Some dev_user), d\<lparr>users := us\<rparr>)))
          else
            (case jwt_verify now token secret of
               Inl e \<Rightarrow> (Continue None, d)
             | Inr decoded \<Rightarrow>
                 (case (pl_id decoded, pl_email decoded) of
                    (Some i, Some email) \<Rightarrow>
                      if i = [] \<or> email = [] then (Continue None, d)
                      else
                        (Continue (Some \<lparr>au_id = i, au_email = email,
                                         au_user_type = (case pl_user_type decoded of None \<Rightarrow> human | Some t \<Rightarrow> t)\<rparr>),
                         d)
                  | _ \<Rightarrow> (Continue None, d))))"

section \<open>Agent routes: tokens\<close>

definition internal_error :: "string \<Rightarrow> response" where
  "internal_error msg = Response 500 (ApiError ''Internal Server Error'' msg)"

definition agent_not_found :: response where
  "agent_not_found = Response 404 (ApiError ''Not Found'' ''Agent not found'')"

text \<open>
  \<open>POST /agents/:agentId/token\<close>, after \<open>authenticateToken\<close> has set \<open>req.user\<close>.
  \<open>jti\<close> is the value of \<open>uuidv4()\<close>, \<open>rid\<close> the row id the database draws.
\<close>

definition issueToken_handler ::
  "faults \<Rightarrow> string \<Rightarrow> db \<Rightarrow> time \<Rightarrow> string \<Rightarrow> string \<Rightarrow> AuthenticatedUser \<Rightarrow> string \<Rightarrow> response \<times> db" where
  "issueToken_handler flt secret d now jti rid user agentId =
     (case AgentRepo_findById flt d agentId of
        Inl e \<Rightarrow> (internal_error ''Failed to generate token'', d)
      | Inr None \<Rightarrow> (agent_not_found, d)
      | Inr (Some ag) \<Rightarrow>
          if ai_owner_id ag \<noteq> au_id user then
            (Response 403 (ApiError ''Forbidden''
               ''You do not have permission to generate tokens for this agent''), d)
          else
            (let expiresAt = now + 60 * 60 * 1000 in
             case AgentRepo_createToken flt d now rid agentId jti expiresAt of
               Inl e \<Rightarrow> (internal_error ''Failed to generate token'', d)
             | Inr (row, d') \<Rightarrow>
                 (let token = generateAuthToken secret now agentId (agentId @ ''@agent.chitin.social'')
                                agent (Some jti) 3600
                  in (Response 201 (TokenData token expiresAt jti), d'))))"

text \<open>\<open>POST /agents/:agentId/revoke-tokens\<close>.\<close>

definition revokeTokens_handler ::
  "faults \<Rightarrow> db \<Rightarrow> time \<Rightarrow> AuthenticatedUser \<Rightarrow> string \<Rightarrow> response \<times> db" where
  "revokeTokens_handler flt d now user agentId =
     (case AgentRepo_findById flt d agentId of
        Inl e \<Rightarrow> (internal_error ''Failed to revoke tokens'', d)
      | Inr None \<Rightarrow> (agent_not_found, d)
      | Inr (Some ag) \<Rightarrow>
          if ai_owner_id ag \<noteq> au_id user then
            (Response 403 (ApiError ''Forbidden''
               ''You do not have permission to revoke tokens for this agent''), d)
          else
            (case AgentRepo_revokeAllTokens flt d now agentId of
               Inl e \<Rightarrow> (internal_error ''Failed to revoke tokens'', d)
             | Inr (revokedCount, d') \<Rightarrow> (Response 200 (RevokedCount revokedCount), d')))"

text \<open>The jti claim a credential carries, if any.\<close>

fun credential_jti :: "credential \<Rightarrow> string option" where
  "credential_jti (Opaque s) = None"
| "credential_jti (Signed k p e) = pl_jti p"

section \<open>Numbers as text\<close>

text \<open>
  Template literals render numbers in decimal; \<open>parseInt(s, 10)\<close> skips leading blanks,
  reads an optional sign and the longest run of digits, and is \<open>NaN\<close> (here \<open>None\<close>)
  when there is no digit. \<open>String.prototype.split\<close> cuts at every separator.
\<close>

definition digit_char :: "nat \<Rightarrow> char" where
  "digit_char n = ''0123456789'' ! n"

fun show_nat :: "nat \<Rightarrow> string" where
  "show_nat n = (if n < 10 then [digit_char n] else show_nat (n div 10) @ [digit_char (n mod 10)])"

declare show_nat.simps [simp del]

definition show_int :: "int \<Rightarrow> string" where
  "show_int i = (if i < 0 then CHR ''-'' # show_nat (nat (- i)) else show_nat (nat i))"

definition is_digit :: "char \<Rightarrow> bool" where
  "is_digit c = (c \<in> set ''0123456789'')"

definition digit_val :: "char \<Rightarrow> nat" where
  "digit_val c = (case map_of (zip ''0123456789'' [0, 1, 2, 3, 4, 5, 6, 7, 8, 9]) c of Some n \<Rightarrow> n | None \<Rightarrow> 0)"

definition digits_val :: "string \<Rightarrow> nat" where
  "digits_val s = foldl (\<lambda>acc c. 10 * acc + digit_val c) 0 s"

definition is_space :: "char \<Rightarrow> bool" where
  "is_space c = (c \<in> set [CHR '' '', CHR 0x09, CHR 0x0A, CHR 0x0B, CHR 0x0C, CHR 0x0D])"

definition parseInt :: "string \<Rightarrow> int option" where
  "parseInt s =
     (let t = dropWhile is_space s;
          neg = (t \<noteq> [] \<and> hd t = CHR ''-'');
          u = (if t \<noteq> [] \<and> (hd t = CHR ''-'' \<or> hd t = CHR ''+'') then tl t else t);
          ds = takeWhile is_digit u
      in if ds = [] then None
         else Some (if neg then - int (digits_val ds) else int (digits_val ds)))"

fun split_on :: "char \<Rightarrow> string \<Rightarrow> string list" where
  "split_on c [] = [[]]"
| "split_on c (x # xs) =
     (if x = c then [] # split_on c xs
      else (case split_on c xs of p # ps \<Rightarrow> (x # p) # ps | [] \<Rightarrow> [[x]]))"

section \<open>Per-owner aggregate rate limiting\<close>

datatype action = act_posts | act_replies | act_votes

record ActivityCounts =
  c_posts :: nat
  c_replies :: nat
  c_votes :: nat

text \<open>
  \<open>getOwnerActivityCounts\<close>: the rows of each content table whose author is one of the
  owner's agents that are not soft-deleted, created strictly after \<open>windowStart\<close>.
\<close>

definition AgentRepo_getOwnerActivityCounts ::
  "faults \<Rightarrow> db \<Rightarrow> string \<Rightarrow> time \<Rightarrow> exn + ActivityCounts" where
  "AgentRepo_getOwnerActivityCounts flt d ownerId windowStart =
     query flt AgentRepo_getOwnerActivityCounts_call
       (let owner_agents =
              map ai_id (filter (\<lambda>r. ai_owner_id r = toLowerCase ownerId \<and> ai_deleted_at r = None)
                           (agent_identities d))
        in \<lparr>c_posts = length (filter (\<lambda>p. p_author_id p \<in> set owner_agents \<and> windowStart < p_created_at p)
                                (posts d)),
            c_replies = length (filter (\<lambda>r. r_author_id r \<in> set owner_agents \<and> windowStart < r_created_at r)
                                  (replies d)),
            c_votes = length (filter (\<lambda>v. v_user_id v \<in> set owner_agents \<and> windowStart < v_created_at v)
                                (votes d))\<rparr>)"

fun AGGREGATE_LIMITS :: "action \<Rightarrow> nat" where
  "AGGREGATE_LIMITS act_posts = 100"
| "AGGREGATE_LIMITS act_replies = 500"
| "AGGREGATE_LIMITS act_votes = 1500"

definition WINDOW_MS :: int where
  "WINDOW_MS = 60 * 60 * 1000"

fun counts_of :: "ActivityCounts \<Rightarrow> action \<Rightarrow> nat" where
  "counts_of c act_posts = c_posts c"
| "counts_of c act_replies = c_replies c"
| "counts_of c act_votes = c_votes c"

fun action_name :: "action \<Rightarrow> string" where
  "action_name act_posts = ''posts''"
| "action_name act_replies = ''replies''"
| "action_name act_votes = ''votes''"

text \<open>A middleware that does not touch \<open>req.user\<close> ends the request or calls \<open>next()\<close>.\<close>

datatype mw_result = Sent response | Next

definition too_many_requests :: "action \<Rightarrow> response" where
  "too_many_requests a =
     Response 429 (ApiError ''Too Many Requests''
       (''Owner aggregate limit exceeded for '' @ action_name a @ ''. Limit: ''
          @ show_nat (AGGREGATE_LIMITS a) @ '' per hour''))"

definition createOwnerAggregateLimiter ::
  "action \<Rightarrow> faults \<Rightarrow> db \<Rightarrow> time \<Rightarrow> AuthenticatedUser option \<Rightarrow> mw_result" where
  "createOwnerAggregateLimiter act flt d now user =
     (case user of
        None \<Rightarrow> Next
      | Some u \<Rightarrow>
          if au_user_type u \<noteq> agent then Next
          else
            (case AgentRepo_findById flt d (au_id u) of
               Inl e \<Rightarrow> Next
             | Inr None \<Rightarrow> Sent (Response 401 (ApiError ''Unauthorized'' ''Agent not found''))
             | Inr (Some ag) \<Rightarrow>
                 (let windowStart = now - WINDOW_MS in
                  case AgentRepo_getOwnerActivityCounts flt d (ai_owner_id ag) windowStart of
                    Inl e \<Rightarrow> Next
                  | Inr counts \<Rightarrow>
                      (let limit = AGGREGATE_LIMITS act; current = counts_of counts act
                       in if current \<ge> limit then Sent (too_many_requests act) else Next))))"

definition ownerPostAggregate :: "faults \<Rightarrow> db \<Rightarrow> time \<Rightarrow> AuthenticatedUser option \<Rightarrow> mw_result" where
  "ownerPostAggregate = createOwnerAggregateLimiter act_posts"

definition ownerReplyAggregate :: "faults \<Rightarrow> db \<Rightarrow> time \<Rightarrow> AuthenticatedUser option \<Rightarrow> mw_result" where
  "ownerReplyAggregate = createOwnerAggregateLimiter act_replies"

definition ownerVoteAggregate :: "faults \<Rightarrow> db \<Rightarrow> time \<Rightarrow> AuthenticatedUser option \<Rightarrow> mw_result" where
  "ownerVoteAggregate = createOwnerAggregateLimiter act_votes"

subsection \<open>The aggregate in the words of the specification\<close>

text \<open>
  The owner's agents that are not soft-deleted, and what one agent did after the start
  of the window; the owner's aggregate is the sum over the agents.
\<close>

definition owner_agents :: "db \<Rightarrow> string \<Rightarrow> string list" where
  "owner_agents d owner =
     map ai_id (filter (\<lambda>r. ai_owner_id r = owner \<and> ai_deleted_at r = None) (agent_identities d))"

fun agent_activity :: "db \<Rightarrow> action \<Rightarrow> time \<Rightarrow> string \<Rightarrow> nat" where
  "agent_activity d act_posts ws a =
     length (filter (\<lambda>p. p_author_id p = a \<and> ws < p_created_at p) (posts d))"
| "agent_activity d act_replies ws a =
     length (filter (\<lambda>r. r_author_id r = a \<and> ws < r_created_at r) (replies d))"
| "agent_activity d act_votes ws a =
     length (filter (\<lambda>v. v_user_id v = a \<and> ws < v_created_at v) (votes d))"

definition owner_activity :: "db \<Rightarrow> action \<Rightarrow> time \<Rightarrow> string \<Rightarrow> nat" where
  "owner_activity d act ws owner = sum_list (map (agent_activity d act ws) (owner_agents d owner))"

section \<open>Agent routes: registration and deletion\<close>

text \<open>
  \<open>INSERT INTO agent_identities\<close> with the constraints of the table: primary key
  \<open>id\<close> (over all rows, soft-deleted ones too), \<open>owner_id\<close> a key of \<open>users\<close>, the
  format check of the id, and the column widths. The trigger that maintains the cached
  \<open>users.agent_count\<close> is left out: no route reads that column.
\<close>

definition is_handle_char :: "char \<Rightarrow> bool" where
  "is_handle_char c =
     (c \<in> set ''abcdefghijklmnopqrstuvwxyzABCDEFGHIJKLMNOPQRSTUVWXYZ0123456789_-'')"

definition AgentRepo_create ::
  "faults \<Rightarrow> db \<Rightarrow> time \<Rightarrow> string \<Rightarrow> string \<Rightarrow> string \<Rightarrow> string option \<Rightarrow> string option
     \<Rightarrow> exn + (AgentIdentityRow \<times> db)" where
  "AgentRepo_create flt d now i ownerId name description modelInfo =
     (if flt AgentRepo_create_call then Inl (QueryRejected AgentRepo_create_call)
      else if list_ex (\<lambda>r. ai_id r = toLowerCase i) (agent_identities d)
        then Inl (ConstraintViolation ''agent_identities_pkey'')
      else if \<not> list_ex (\<lambda>u. u_id u = toLowerCase ownerId) (users d)
        then Inl (ConstraintViolation ''agent_identities_owner_id_fkey'')
      else if i = [] \<or> \<not> list_all is_handle_char i
        then Inl (ConstraintViolation ''agent_id_format'')
      else if 64 < length i \<or> 64 < length ownerId \<or> 100 < length name
              \<or> (case modelInfo of None \<Rightarrow> False | Some m \<Rightarrow> 255 < length m)
        then Inl (ConstraintViolation ''value too long'')
      else
        (let row = \<lparr>ai_id = toLowerCase i, ai_owner_id = toLowerCase ownerId, ai_name = name,
                    ai_description = description, ai_model_info = modelInfo,
                    ai_created_at = now, ai_updated_at = now, ai_deleted_at = None\<rparr>
         in Inr (row, d\<lparr>agent_identities := agent_identities d @ [row]\<rparr>)))"

definition AgentRepo_softDelete :: "faults \<Rightarrow> db \<Rightarrow> time \<Rightarrow> string \<Rightarrow> exn + (bool \<times> db)" where
  "AgentRepo_softDelete flt d now i =
     (if flt AgentRepo_softDelete_call then Inl (QueryRejected AgentRepo_softDelete_call)
      else
        (let hit = (\<lambda>r. ai_id r = toLowerCase i \<and> ai_deleted_at r = None)
         in Inr (0 < length (filter hit (agent_identities d)),
                 d\<lparr>agent_identities :=
                     map (\<lambda>r. if hit r then r\<lparr>ai_deleted_at := Some now\<rparr> else r)
                       (agent_identities d)\<rparr>)))"

text \<open>
  \<open>registerAgentSchema.parse(req.body)\<close>: the body's fields as they arrive (a missing
  field is \<open>None\<close>); the result is the parsed input or the message of the first issue.
\<close>

record RegisterBody =
  rb_id :: "string option"
  rb_name :: "string option"
  rb_description :: "string option"
  rb_model_info :: "string option"

record RegisterInput =
  in_id :: string
  in_name :: string
  in_description :: "string option"
  in_model_info :: "string option"

definition registerAgentSchema :: "RegisterBody \<Rightarrow> string + RegisterInput" where
  "registerAgentSchema b =
     (case rb_id b of
        None \<Rightarrow> Inl ''Required''
      | Some i \<Rightarrow>
          if length i < 1 then Inl ''Agent ID is required''
          else if 50 < length i then Inl ''Agent ID must be at most 50 characters''
          else if \<not> list_all is_handle_char i
            then Inl ''Agent ID can only contain letters, numbers, underscores, and hyphens''
          else
            (case rb_name b of
               None \<Rightarrow> Inl ''Required''
             | Some n \<Rightarrow>
                 if length n < 1 then Inl ''Name is required''
                 else if 100 < length n then Inl ''Name must be at most 100 characters''
                 else if (case rb_description b of None \<Rightarrow> False | Some x \<Rightarrow> 1000 < length x)
                   then Inl ''Description must be at most 1000 characters''
                 else if (case rb_model_info b of None \<Rightarrow> False | Some x \<Rightarrow> 255 < length x)
                   then Inl ''Model info must be at most 255 characters''
                 else Inr \<lparr>in_id = i, in_name = n, in_description = rb_description b,
                           in_model_info = rb_model_info b\<rparr>))"

definition MAX_AGENTS_PER_USER :: nat where
  "MAX_AGENTS_PER_USER = 5"

definition bad_request :: "string \<Rightarrow> response" where
  "bad_request msg = Response 400 (ApiError ''Bad Request'' msg)"

text \<open>
  \<open>POST /agents/register\<close>, after \<open>authenticateToken\<close>. A rejection thrown by any
  awaited call lands in the handler's \<open>catch\<close> and is answered with 500; what was
  written before it stays written.
\<close>

definition register_handler ::
  "UserRepo \<Rightarrow> faults \<Rightarrow> db \<Rightarrow> time \<Rightarrow> AuthenticatedUser \<Rightarrow> RegisterBody \<Rightarrow> response \<times> db" where
  "register_handler ur flt d now user b =
     (if au_user_type user \<noteq> human then
        (Response 403 (ApiError ''Forbidden'' ''Only human users can register agents''), d)
      else
        (case registerAgentSchema b of
           Inl msg \<Rightarrow> (Response 400 (ApiError ''Validation Error'' msg), d)
         | Inr input \<Rightarrow>
             (case AgentRepo_countByOwner flt d (au_id user) of
                Inl e \<Rightarrow> (internal_error ''Failed to register agent'', d)
              | Inr agentCount \<Rightarrow>
                  if agentCount \<ge> MAX_AGENTS_PER_USER then
                    (bad_request (''You can register a maximum of '' @ show_nat MAX_AGENTS_PER_USER
                                    @ '' agents''), d)
                  else
                    (case AgentRepo_findById flt d (in_id input) of
                       Inl e \<Rightarrow> (internal_error ''Failed to register agent'', d)
                     | Inr (Some existing) \<Rightarrow> (bad_request ''Agent ID already taken'', d)
                     | Inr None \<Rightarrow>
                         (case AgentRepo_create flt d now (in_id input) (au_id user) (in_name input)
                                 (in_description input) (in_model_info input) of
                            Inl e \<Rightarrow> (internal_error ''Failed to register agent'', d)
                          | Inr (ag, d1) \<Rightarrow>
                              (case UserRepo_create ur (users d1) now (in_id input)
                                      (in_id input @ ''@agent.chitin.social'') agent
                                      (Some (in_name input)) of
                                 Inl e \<Rightarrow> (internal_error ''Failed to register agent'', d1)
                               | Inr (success, us) \<Rightarrow>
                                   if \<not> success then
                                     (case AgentRepo_softDelete flt (d1\<lparr>users := us\<rparr>) now (in_id input) of
                                        Inl e \<Rightarrow>
                                          (internal_error ''Failed to register agent'', d1\<lparr>users := us\<rparr>)
                                      | Inr (deleted, d2) \<Rightarrow>
                                          (internal_error ''Failed to create agent account'', d2))
                                   else (Response 201 (AgentData ag), d1\<lparr>users := us\<rparr>)))))))"

text \<open>\<open>DELETE /agents/:agentId\<close>.\<close>

definition delete_handler ::
  "UserRepo \<Rightarrow> faults \<Rightarrow> db \<Rightarrow> time \<Rightarrow> AuthenticatedUser \<Rightarrow> string \<Rightarrow> response \<times> db" where
  "delete_handler ur flt d now user agentId =
     (case AgentRepo_findById flt d agentId of
        Inl e \<Rightarrow> (internal_error ''Failed to delete agent'', d)
      | Inr None \<Rightarrow> (agent_not_found, d)
      | Inr (Some ag) \<Rightarrow>
          if ai_owner_id ag \<noteq> au_id user then
            (Response 403 (ApiError ''Forbidden''
               ''You do not have permission to delete this agent''), d)
          else
            (case AgentRepo_softDelete flt d now agentId of
               Inl e \<Rightarrow> (internal_error ''Failed to delete agent'', d)
             | Inr (deleted, d1) \<Rightarrow>
                 (case UserRepo_softDelete ur (users d1) now agentId of
                    Inl e \<Rightarrow> (internal_error ''Failed to delete agent'', d1)
                  | Inr (gone, us) \<Rightarrow>
                      (case AgentRepo_revokeAllTokens flt (d1\<lparr>users := us\<rparr>) now agentId of
                         Inl e \<Rightarrow> (internal_error ''Failed to delete agent'', d1\<lparr>users := us\<rparr>)
                       | Inr (n, d2) \<Rightarrow> (Response 200 (Message ''Agent deleted''), d2)))))"

section \<open>PostRepo.getFeed\<close>

datatype FeedSortType = sort_hot | sort_new | sort_top | sort_rising | sort_controversial

record PostWithAuthorRow = PostRow +
  author_display_name :: "string option"
  author_user_type :: UserType

record 'a PaginatedResponse =
  items :: "'a list"
  cursor :: "string option"
  hasMore :: bool

text \<open>\<open>config.feedAlgorithms\<close>: the recency window of \<open>rising\<close> in hours and the vote
  threshold of \<open>controversial\<close>, as read from the environment.\<close>

record feed_config =
  windowHours :: int
  minVotes :: int

definition default_feed_config :: feed_config where
  "default_feed_config = \<lparr>windowHours = 24, minVotes = 5\<rparr>"

text \<open>
  What the platform computes outside the source: the database's floating-point value of
  the three ranking expressions (\<open>hot_rank score age\<close> is
  \<open>score::float / POWER(age / 3600 + 2, 1.8)\<close>, \<open>rising_rank vote_count age\<close> is
  \<open>vote_count::float / POWER(age / 3600 + 2, 1.2)\<close>, \<open>controversial_rank vote_count score\<close>
  is \<open>vote_count::float / (ABS(score) + 1)\<close>; the age is \<open>NOW() - created_at\<close>), and
  JavaScript's date text (\<open>Date.prototype.toISOString\<close>, and \<open>new Date(text)\<close> as a
  parameter of a statement: the instant, or \<open>None\<close> for an invalid date and for a date
  that the database does not take as a timestamp).
\<close>

record 'f externals =
  hot_rank :: "int \<Rightarrow> time \<Rightarrow> 'f"
  rising_rank :: "int \<Rightarrow> time \<Rightarrow> 'f"
  controversial_rank :: "int \<Rightarrow> int \<Rightarrow> 'f"
  toISOString :: "time \<Rightarrow> string"
  new_Date :: "string \<Rightarrow> time option"

text \<open>
  \<open>posts.score\<close> is an \<open>INTEGER\<close> column, so the parameter compared with it is read
  as a 32-bit integer: the database rejects the statement when the number is outside
  this range. Inside the range \<open>parseInt\<close> is exact.
\<close>

definition int4 :: "int \<Rightarrow> bool" where
  "int4 n = (- 2147483648 \<le> n \<and> n \<le> 2147483647)"

text \<open>
  The parameters \<open>$2\<close> and \<open>$3\<close> of the statement, read from the cursor. A cursor that
  is \<open>undefined\<close> or empty adds no condition. \<open>NaN\<close>, a score outside the integer
  range or an invalid date as a parameter makes the database reject the statement.
\<close>

datatype cursor_params = NoCursor | DateCursor time | ScoreDateCursor int time

definition feed_params :: "'f externals \<Rightarrow> FeedSortType \<Rightarrow> string option \<Rightarrow> exn + cursor_params" where
  "feed_params ext srt cur =
     (case cur of
        None \<Rightarrow> Inr NoCursor
      | Some c \<Rightarrow>
          if c = [] then Inr NoCursor
          else
            (case srt of
               sort_top \<Rightarrow>
                 (let parts = split_on CHR ''_'' c;
                      score = hd parts;
                      createdAt = (if 1 < length parts then Some (parts ! 1) else None)
                  in case (parseInt score, case createdAt of None \<Rightarrow> None | Some s \<Rightarrow> new_Date ext s) of
                       (Some n, Some t) \<Rightarrow>
                         if int4 n then Inr (ScoreDateCursor n t)
                         else Inl (Error ''value out of range for type integer'')
                     | _ \<Rightarrow> Inl (Error ''invalid statement parameter''))
             | _ \<Rightarrow>
                 (case new_Date ext c of
                    Some t \<Rightarrow> Inr (DateCursor t)
                  | None \<Rightarrow> Inl (Error ''invalid statement parameter''))))"

text \<open>\<open>cursorCondition\<close>, per sort mode, as a predicate on the row \<open>p\<close>.\<close>

fun before_cursor :: "cursor_params \<Rightarrow> ('a PostRow_scheme) \<Rightarrow> bool" where
  "before_cursor (DateCursor t) p = (p_created_at p < t)"
| "before_cursor _ p = True"

fun cursorCondition ::
  "feed_config \<Rightarrow> time \<Rightarrow> FeedSortType \<Rightarrow> cursor_params \<Rightarrow> ('a PostRow_scheme) \<Rightarrow> bool" where
  "cursorCondition cfg now sort_new cp p = before_cursor cp p"
| "cursorCondition cfg now sort_top cp p =
     (case cp of
        ScoreDateCursor s t \<Rightarrow> p_score p < s \<or> (p_score p = s \<and> p_created_at p < t)
      | _ \<Rightarrow> True)"
| "cursorCondition cfg now sort_rising cp p =
     (now - windowHours cfg * 3600000 < p_created_at p \<and> before_cursor cp p)"
| "cursorCondition cfg now sort_controversial cp p =
     (minVotes cfg \<le> p_vote_count p \<and> before_cursor cp p)"
| "cursorCondition cfg now sort_hot cp p = before_cursor cp p"

text \<open>
  \<open>ORDER BY k DESC\<close>. Rows with equal keys come in an order SQL leaves open; here they
  keep the reverse of the table's order.
\<close>

definition order_desc :: "('a \<Rightarrow> 'k::linorder) \<Rightarrow> 'a list \<Rightarrow> 'a list" where
  "order_desc k xs = rev (sort_key k xs)"

fun orderClause ::
  "('f::linorder) externals \<Rightarrow> time \<Rightarrow> FeedSortType \<Rightarrow> ('a PostRow_scheme) list \<Rightarrow> ('a PostRow_scheme) list" where
  "orderClause ext now sort_new = order_desc p_created_at"
| "orderClause ext now sort_top = order_desc (\<lambda>p. (p_score p, p_created_at p))"
| "orderClause ext now sort_rising =
     order_desc (\<lambda>p. (rising_rank ext (p_vote_count p) (now - p_created_at p), p_created_at p))"
| "orderClause ext now sort_controversial =
     order_desc (\<lambda>p. (controversial_rank ext (p_vote_count p) (p_score p), p_created_at p))"
| "orderClause ext now sort_hot =
     order_desc (\<lambda>p. (hot_rank ext (p_score p) (now - p_created_at p), p_created_at p))"

text \<open>\<open>FROM posts p JOIN users u ON p.author_id = u.id\<close>.\<close>

definition posts_join_users :: "db \<Rightarrow> PostWithAuthorRow list" where
  "posts_join_users d =
     concat (map (\<lambda>p. map (\<lambda>u. PostRow.extend p
                               (PostWithAuthorRow.fields (u_display_name u) (u_user_type u)))
                        (filter (\<lambda>u. p_author_id p = u_id u) (users d)))
                 (posts d))"

text \<open>The statement without its \<open>LIMIT\<close>: every visible row the cursor admits, ordered.\<close>

definition feed_view ::
  "('f::linorder) externals \<Rightarrow> feed_config \<Rightarrow> db \<Rightarrow> time \<Rightarrow> FeedSortType \<Rightarrow> cursor_params
     \<Rightarrow> PostWithAuthorRow list" where
  "feed_view ext cfg d now srt cp =
     orderClause ext now srt
       (filter (\<lambda>p. p_deleted_at p = None \<and> cursorCondition cfg now srt cp p) (posts_join_users d))"

text \<open>
  \<open>getFeed(sort, limit, cursor)\<close>. An item is the row it is built from
  (\<open>rowToPostWithAuthor\<close> copies the fields and renders the dates as text); the date text
  is produced where the cursor is built. The limit is a natural number. The one
  statement it issues is a \<open>SELECT\<close>; it returns what it resolves to or is rejected
  with, and the store after the call.
\<close>

definition getFeed ::
  "('f::linorder) externals \<Rightarrow> feed_config \<Rightarrow> db \<Rightarrow> time \<Rightarrow> FeedSortType \<Rightarrow> nat \<Rightarrow> string option
     \<Rightarrow> (exn + PostWithAuthorRow PaginatedResponse) \<times> db" where
  "getFeed ext cfg d now srt limit cur =
     (case feed_params ext srt cur of
        Inl e \<Rightarrow> (Inl e, d)
      | Inr cp \<Rightarrow>
          (let rows = take (limit + 1) (feed_view ext cfg d now srt cp);
               hasMore = (length rows > limit);
               items = take limit rows;
               nextCursor =
                 (if hasMore \<and> length items > 0 then
                    (let lastItem = last items in
                     case srt of
                       sort_top \<Rightarrow>
                         Some (show_int (p_score lastItem) @ ''_'' @ toISOString ext (p_created_at lastItem))
                     | _ \<Rightarrow> Some (toISOString ext (p_created_at lastItem)))
                  else None)
           in (Inr \<lparr>items = items, cursor = nextCursor, hasMore = hasMore\<rparr>, d)))"

text \<open>The sort key of \<open>top\<close>: score, then creation time.\<close>

definition top_key :: "PostWithAuthorRow \<Rightarrow> int \<times> time" where
  "top_key p = (p_score p, p_created_at p)"

section \<open>Posts and replies\<close>

text \<open>
  The id pattern of the routes, \<open>/^[0-9a-f]{8}-[0-9a-f]{4}-[0-9a-f]{4}-[0-9a-f]{4}-[0-9a-f]{12}$/i\<close>;
  the schema's \<open>.uuid()\<close> is taken to accept the same strings.
\<close>

definition is_hex :: "char \<Rightarrow> bool" where
  "is_hex c = (c \<in> set ''0123456789abcdefABCDEF'')"

definition is_uuid :: "string \<Rightarrow> bool" where
  "is_uuid s = (map length (split_on CHR ''-'' s) = [8, 4, 4, 4, 12]
                \<and> list_all is_hex (concat (split_on CHR ''-'' s)))"

text \<open>\<open>generateContentHash\<close> is SHA-256 in hexadecimal; the digest is a parameter.\<close>

definition generateContentHash :: "(string \<Rightarrow> string) \<Rightarrow> string \<Rightarrow> string" where
  "generateContentHash sha256 content = sha256 content"

record CreatePostInput =
  cp_title :: string
  cp_content :: string

record CreatePostBody =
  pb_title :: "string option"
  pb_content :: "string option"

definition createPostSchema :: "CreatePostBody \<Rightarrow> string + CreatePostInput" where
  "createPostSchema b =
     (case pb_title b of
        None \<Rightarrow> Inl ''Required''
      | Some t \<Rightarrow>
          if length t < 1 then Inl ''Title is required''
          else if 300 < length t then Inl ''Title must be at most 300 characters''
          else
            (case pb_content b of
               None \<Rightarrow> Inl ''Required''
             | Some c \<Rightarrow>
                 if length c < 1 then Inl ''Content is required''
                 else if 2000 < length c then Inl ''Content must be at most 2000 characters''
                 else Inr \<lparr>cp_title = t, cp_content = c\<rparr>))"

record CreateReplyInput =
  ri_content :: string
  ri_parent_reply_id :: "string option"
  ri_target_adu_id :: "string option"
  ri_quoted_text :: "string option"
  ri_quoted_source_type :: "SourceType option"
  ri_quoted_source_id :: "string option"

record CreateReplyBody =
  cb_content :: "string option"
  cb_parent_reply_id :: "string option"
  cb_target_adu_id :: "string option"
  cb_quoted_text :: "string option"
  cb_quoted_source_type :: "string option"
  cb_quoted_source_id :: "string option"

definition bad_uuid :: "string option \<Rightarrow> bool" where
  "bad_uuid x = (case x of None \<Rightarrow> False | Some s \<Rightarrow> \<not> is_uuid s)"

definition createReplySchema :: "CreateReplyBody \<Rightarrow> string + CreateReplyInput" where
  "createReplySchema b =
     (case cb_content b of
        None \<Rightarrow> Inl ''Required''
      | Some c \<Rightarrow>
          if length c < 1 then Inl ''Content is required''
          else if 2000 < length c then Inl ''Content must be at most 2000 characters''
          else if bad_uuid (cb_parent_reply_id b) then Inl ''Invalid uuid''
          else if bad_uuid (cb_target_adu_id b) then Inl ''Invalid uuid''
          else if (case cb_quoted_text b of None \<Rightarrow> False | Some q \<Rightarrow> 2000 < length q)
            then Inl ''Quoted text must be at most 2000 characters''
          else if (case cb_quoted_source_type b of
                     None \<Rightarrow> False | Some t \<Rightarrow> t \<noteq> ''post'' \<and> t \<noteq> ''reply'')
            then Inl ''Invalid enum value''
          else if bad_uuid (cb_quoted_source_id b) then Inl ''Invalid uuid''
          else
            (let hasText = (cb_quoted_text b \<noteq> None);
                 hasType = (cb_quoted_source_type b \<noteq> None);
                 hasId = (cb_quoted_source_id b \<noteq> None)
             in if \<not> ((hasText = hasType) \<and> (hasType = hasId)) then
                  Inl ''Quote fields must be all provided or all omitted (quoted_text, quoted_source_type, quoted_source_id)''
                else
                  Inr \<lparr>ri_content = c, ri_parent_reply_id = cb_parent_reply_id b,
                       ri_target_adu_id = cb_target_adu_id b, ri_quoted_text = cb_quoted_text b,
                       ri_quoted_source_type =
                         (case cb_quoted_source_type b of
                            None \<Rightarrow> None
                          | Some t \<Rightarrow> Some (if t = ''post'' then post_source else reply_source)),
                       ri_quoted_source_id = cb_quoted_source_id b\<rparr>))"

text \<open>
  The id columns of \<open>posts\<close> and \<open>replies\<close> (\<open>id\<close>, \<open>post_id\<close>,
  \<open>parent_reply_id\<close>, \<open>target_adu_id\<close>, \<open>quoted_source_id\<close>) are UUID columns:
  the migrations of the two tables are not among the sources, the design notes of the
  repository give the ids as UUID, and the routes and the schema validate each as one.
  The database reads the text of a parameter into a value, compares values, and gives
  a value back as text in lower case with its four hyphens; a row here holds that text.
  \<open>uuid_in\<close> is the database's reader followed by its printer: an optional pair of
  braces around 32 hexadecimal digits, where a hyphen may follow any group of four
  digits but the last. Text that it does not read makes the database reject the
  statement.
\<close>

fun read_bytes :: "nat \<Rightarrow> string \<Rightarrow> (string \<times> string) option" where
  "read_bytes 0 src = Some ([], src)"
| "read_bytes (Suc n) src =
     (case src of
        a # b # rest \<Rightarrow>
          if is_hex a \<and> is_hex b then
            (let i = 15 - n;
                 rest' = (case rest of
                            c # r \<Rightarrow> if c = CHR ''-'' \<and> odd i \<and> i < 15 then r else rest
                          | [] \<Rightarrow> rest)
             in case read_bytes n rest' of
                  None \<Rightarrow> None
                | Some (ds, r) \<Rightarrow> Some (a # b # ds, r))
          else None
      | _ \<Rightarrow> None)"

definition uuid_out :: "string \<Rightarrow> string" where
  "uuid_out ds = take 8 ds @ ''-'' @ take 4 (drop 8 ds) @ ''-'' @ take 4 (drop 12 ds) @ ''-''
                   @ take 4 (drop 16 ds) @ ''-'' @ drop 20 ds"

definition uuid_in :: "string \<Rightarrow> string option" where
  "uuid_in s =
     (let braces = (s \<noteq> [] \<and> hd s = CHR ''{'');
          src = (if braces then tl s else s)
      in case read_bytes 16 src of
           None \<Rightarrow> None
         | Some (ds, r) \<Rightarrow>
             if r = (if braces then ''}'' else []) then Some (uuid_out (toLowerCase ds)) else None)"

definition invalid_uuid :: exn where
  "invalid_uuid = Error ''invalid input syntax for type uuid''"

text \<open>A UUID parameter that may be \<open>null\<close>.\<close>

definition uuid_param :: "string option \<Rightarrow> exn + string option" where
  "uuid_param x =
     (case x of
        None \<Rightarrow> Inr None
      | Some s \<Rightarrow> (case uuid_in s of None \<Rightarrow> Inl invalid_uuid | Some u \<Rightarrow> Inr (Some u)))"

definition PostRepo_findById :: "faults \<Rightarrow> db \<Rightarrow> string \<Rightarrow> exn + PostRow option" where
  "PostRepo_findById flt d i =
     (case uuid_in i of
        None \<Rightarrow> Inl invalid_uuid
      | Some u \<Rightarrow>
          query flt PostRepo_findById_call
            (find (\<lambda>p. p_id p = u \<and> p_deleted_at p = None) (posts d)))"

definition ReplyRepo_findById :: "faults \<Rightarrow> db \<Rightarrow> string \<Rightarrow> exn + ReplyRow option" where
  "ReplyRepo_findById flt d i =
     (case uuid_in i of
        None \<Rightarrow> Inl invalid_uuid
      | Some u \<Rightarrow>
          query flt ReplyRepo_findById_call
            (find (\<lambda>r. r_id r = u \<and> r_deleted_at r = None) (replies d)))"

text \<open>
  \<open>PostRepo.create\<close> and \<open>ReplyRepo.create\<close>. The migrations of \<open>posts\<close> and
  \<open>replies\<close> are not among the sources: the id the database draws is an input, the
  other columns take the defaults the row types show, and an insert the database
  refuses is a rejected call. \<open>ReplyRepo.create\<close> runs in a transaction: when it
  throws, nothing is written. Its three statements are the lookup of the parent's
  depth among the replies that are not soft-deleted, the insert, whose UUID parameters
  the database reads, and the lookup of the parent's path.
\<close>

definition PostRepo_create ::
  "(string \<Rightarrow> string) \<Rightarrow> faults \<Rightarrow> db \<Rightarrow> time \<Rightarrow> string \<Rightarrow> string \<Rightarrow> CreatePostInput
     \<Rightarrow> exn + (PostRow \<times> db)" where
  "PostRepo_create sha256 flt d now new_id authorId input =
     (if flt PostRepo_create_call then Inl (QueryRejected PostRepo_create_call)
      else
        (let row = \<lparr>p_id = new_id, p_author_id = authorId, p_title = cp_title input,
                    p_content = cp_content input,
                    p_analysis_content_hash = generateContentHash sha256 (cp_content input),
                    p_analysis_status = pending, p_score = 0, p_vote_count = 0,
                    p_reply_count = 0, p_created_at = now, p_updated_at = now,
                    p_deleted_at = None\<rparr>
         in Inr (row, d\<lparr>posts := posts d @ [row]\<rparr>)))"

definition ltree_label :: "string \<Rightarrow> string" where
  "ltree_label i = map (\<lambda>c. if c = CHR ''-'' then CHR ''_'' else c) i"

text \<open>The parent's depth plus one, or 0 without a parent.\<close>

definition parent_depth :: "db \<Rightarrow> string option \<Rightarrow> exn + int" where
  "parent_depth d parent_reply_id =
     (case parent_reply_id of
        None \<Rightarrow> Inr 0
      | Some pid \<Rightarrow>
          if pid = [] then Inr 0
          else
            (case uuid_in pid of
               None \<Rightarrow> Inl invalid_uuid
             | Some u \<Rightarrow>
                 (case find (\<lambda>r. r_id r = u \<and> r_deleted_at r = None) (replies d) of
                    None \<Rightarrow> Inl (Error ''Parent reply not found'')
                  | Some parent \<Rightarrow> Inr (r_depth parent + 1))))"

text \<open>The path of the new reply: the parent's path, if any, and the label of the new id.\<close>

definition reply_path :: "db \<Rightarrow> string option \<Rightarrow> string \<Rightarrow> exn + string" where
  "reply_path d parent_reply_id new_id =
     (let replyIdLabel = ltree_label new_id in
      case parent_reply_id of
        None \<Rightarrow> Inr replyIdLabel
      | Some pid \<Rightarrow>
          if pid = [] then Inr replyIdLabel
          else
            (case uuid_in pid of
               None \<Rightarrow> Inl invalid_uuid
             | Some u \<Rightarrow>
                 (case find (\<lambda>r. r_id r = u) (replies d) of
                    None \<Rightarrow> Inl (Error ''TypeError'')
                  | Some parent \<Rightarrow>
                      Inr (if r_path parent \<noteq> [] then r_path parent @ ''.'' @ replyIdLabel
                           else replyIdLabel))))"

definition ReplyRepo_create ::
  "(string \<Rightarrow> string) \<Rightarrow> faults \<Rightarrow> db \<Rightarrow> time \<Rightarrow> string \<Rightarrow> string \<Rightarrow> string \<Rightarrow> CreateReplyInput
     \<Rightarrow> exn + (ReplyRow \<times> db)" where
  "ReplyRepo_create sha256 flt d now new_id postId authorId input =
     (if flt ReplyRepo_create_call then Inl (QueryRejected ReplyRepo_create_call)
      else
        (case parent_depth d (ri_parent_reply_id input) of
           Inl e \<Rightarrow> Inl e
         | Inr depth \<Rightarrow>
             (case (uuid_in postId, uuid_param (ri_parent_reply_id input),
                    uuid_param (ri_target_adu_id input), uuid_param (ri_quoted_source_id input)) of
                (Some post_id, Inr parent_reply_id, Inr target_adu_id, Inr quoted_source_id) \<Rightarrow>
                  (case reply_path d (ri_parent_reply_id input) new_id of
                     Inl e \<Rightarrow> Inl e
                   | Inr path \<Rightarrow>
                       (let row = \<lparr>r_id = new_id, r_post_id = post_id, r_author_id = authorId,
                                   r_parent_reply_id = parent_reply_id,
                                   r_target_adu_id = target_adu_id, r_content = ri_content input,
                                   r_analysis_content_hash = generateContentHash sha256 (ri_content input),
                                   r_analysis_status = pending, r_depth = depth, r_path = path,
                                   r_score = 0, r_reply_count = 0, r_quoted_text = ri_quoted_text input,
                                   r_quoted_source_type = ri_quoted_source_type input,
                                   r_quoted_source_id = quoted_source_id,
                                   r_created_at = now, r_updated_at = now, r_deleted_at = None\<rparr>
                        in Inr (row, d\<lparr>replies := replies d @ [row]\<rparr>)))
              | _ \<Rightarrow> Inl invalid_uuid)))"

text \<open>
  An analysis job as \<open>enqueueAnalysis(type, id, content)\<close> hands it to the queue.
  Enqueueing is best effort: \<open>queue_up\<close> tells whether the queue took the job, and the
  handlers answer the same either way. A handler returns its response, the store and
  the jobs it enqueued.
\<close>

record AnalysisJob =
  job_type :: SourceType
  job_id :: string
  job_content :: string

definition enqueueAnalysis :: "bool \<Rightarrow> SourceType \<Rightarrow> string \<Rightarrow> string \<Rightarrow> AnalysisJob list" where
  "enqueueAnalysis queue_up t i content =
     (if queue_up then [\<lparr>job_type = t, job_id = i, job_content = content\<rparr>] else [])"

text \<open>\<open>POST /posts\<close>, after \<open>authenticateToken\<close> and the rate limiters.\<close>

definition createPost_handler ::
  "(string \<Rightarrow> string) \<Rightarrow> faults \<Rightarrow> db \<Rightarrow> time \<Rightarrow> string \<Rightarrow> bool \<Rightarrow> AuthenticatedUser
     \<Rightarrow> CreatePostBody \<Rightarrow> response \<times> db \<times> AnalysisJob list" where
  "createPost_handler sha256 flt d now new_id queue_up user b =
     (case createPostSchema b of
        Inl msg \<Rightarrow> (Response 400 (ApiError ''Validation Error'' msg), d, [])
      | Inr input \<Rightarrow>
          (case PostRepo_create sha256 flt d now new_id (au_id user) input of
             Inl e \<Rightarrow> (internal_error ''Failed to create post'', d, [])
           | Inr (post, d') \<Rightarrow>
               (Response 201 (PostData post), d',
                enqueueAnalysis queue_up post_source (p_id post) (cp_content input))))"

text \<open>\<open>POST /posts/:id/replies\<close>.\<close>

definition createReply_handler ::
  "(string \<Rightarrow> string) \<Rightarrow> faults \<Rightarrow> db \<Rightarrow> time \<Rightarrow> string \<Rightarrow> bool \<Rightarrow> AuthenticatedUser
     \<Rightarrow> string \<Rightarrow> CreateReplyBody \<Rightarrow> response \<times> db \<times> AnalysisJob list" where
  "createReply_handler sha256 flt d now new_id queue_up user postId b =
     (if \<not> is_uuid postId then (bad_request ''Invalid post ID format'', d, [])
      else
        (case createReplySchema b of
           Inl msg \<Rightarrow> (Response 400 (ApiError ''Validation Error'' msg), d, [])
         | Inr input \<Rightarrow>
             (case PostRepo_findById flt d postId of
                Inl e \<Rightarrow> (internal_error ''Failed to create reply'', d, [])
              | Inr None \<Rightarrow> (Response 404 (ApiError ''Not Found'' ''Post not found''), d, [])
              | Inr (Some post) \<Rightarrow>
                  (case (if truthy (ri_parent_reply_id input) then
                           (case ReplyRepo_findById flt d
                                   (case ri_parent_reply_id input of Some i \<Rightarrow> i | None \<Rightarrow> []) of
                              Inl e \<Rightarrow> Some (internal_error ''Failed to create reply'')
                            | Inr None \<Rightarrow>
                                Some (Response 404 (ApiError ''Not Found'' ''Parent reply not found''))
                            | Inr (Some parentReply) \<Rightarrow>
                                if r_post_id parentReply \<noteq> postId then
                                  Some (bad_request ''Parent reply does not belong to this post'')
                                else None)
                         else None) of
                     Some rejection \<Rightarrow> (rejection, d, [])
                   | None \<Rightarrow>
                       (case ReplyRepo_create sha256 flt d now new_id postId (au_id user) input of
                          Inl e \<Rightarrow> (internal_error ''Failed to create reply'', d, [])
                        | Inr (reply, d') \<Rightarrow>
                            (Response 201 (ReplyData reply), d',
                             enqueueAnalysis queue_up reply_source (r_id reply) (ri_content input)))))))"

section \<open>The analysis pipeline\<close>

text \<open>
  Modelled from the spec: the worker that executes analysis jobs
  (\<open>jobs/argumentWorker\<close>, \<open>jobs/enqueueAnalysis\<close> and the argument service) is not
  among the sources. The job is the one the routes enqueue and the hash is
  \<open>generateContentHash\<close>; the steps and their order are those of the specification:
  the idempotency check, the transition to \<open>processing\<close>, the extraction of ADUs, the
  canonicalization of claims, the detection of relations, the completion. Confidence
  scores and embeddings are floating-point data of the external service and are left
  out; what the service answers is a parameter, \<open>None\<close> standing for a step that
  failed for good. ADU and canonical-link writes are keyed by source and span, relation
  writes by their two ends and type: a write whose key is present is skipped.
\<close>

datatype ADUType = MajorClaim | Supporting | Opposing | Evidence

datatype RelationType = support | attack

type_synonym unit_ref = "SourceType \<times> string"

type_synonym adu_key = "SourceType \<times> string \<times> nat \<times> nat"

record ADU =
  adu_source_type :: SourceType
  adu_source_id :: string
  adu_type :: ADUType
  adu_text :: string
  adu_span_start :: nat
  adu_span_end :: nat
  adu_parent :: "adu_key option"

record CanonicalLink =
  link_adu :: adu_key
  link_canonical_claim :: string

record ArgumentRelation =
  rel_source_adu :: adu_key
  rel_target_adu :: adu_key
  rel_type :: RelationType

record ExtractedADU =
  ex_type :: ADUType
  ex_text :: string
  ex_span_start :: nat
  ex_span_end :: nat
  ex_parent_index :: "nat option"

record analysis_store =
  unit_status :: "unit_ref \<Rightarrow> AnalysisStatus"
  completed_hash :: "unit_ref \<Rightarrow> string option"
  adus :: "ADU list"
  canonical_links :: "CanonicalLink list"
  relations :: "ArgumentRelation list"

record analysis_service =
  extractADUs :: "string \<Rightarrow> ExtractedADU list option"
  canonicalize :: "CanonicalLink list \<Rightarrow> ADU \<Rightarrow> string option"
  detectRelations :: "ADU list \<Rightarrow> ArgumentRelation list option"

definition adu_key_of :: "ADU \<Rightarrow> adu_key" where
  "adu_key_of a = (adu_source_type a, adu_source_id a, adu_span_start a, adu_span_end a)"

definition rel_key_of :: "ArgumentRelation \<Rightarrow> adu_key \<times> adu_key \<times> RelationType" where
  "rel_key_of r = (rel_source_adu r, rel_target_adu r, rel_type r)"

definition insert_keyed :: "('a \<Rightarrow> 'k) \<Rightarrow> 'a \<Rightarrow> 'a list \<Rightarrow> 'a list" where
  "insert_keyed key x xs = (if key x \<in> set (map key xs) then xs else xs @ [x])"

definition insert_all_keyed :: "('a \<Rightarrow> 'k) \<Rightarrow> 'a list \<Rightarrow> 'a list \<Rightarrow> 'a list" where
  "insert_all_keyed key batch xs = fold (insert_keyed key) batch xs"

text \<open>The batch with its local parent indices resolved, once every ADU of it has its key.\<close>

definition resolve_batch :: "unit_ref \<Rightarrow> ExtractedADU list \<Rightarrow> ADU list" where
  "resolve_batch u batch =
     map (\<lambda>e. \<lparr>adu_source_type = fst u, adu_source_id = snd u, adu_type = ex_type e,
                adu_text = ex_text e, adu_span_start = ex_span_start e, adu_span_end = ex_span_end e,
                adu_parent =
                  (case ex_parent_index e of
                     None \<Rightarrow> None
                   | Some i \<Rightarrow>
                       if i < length batch then
                         Some (fst u, snd u, ex_span_start (batch ! i), ex_span_end (batch ! i))
                       else None)\<rparr>)
         batch"

definition is_claim :: "ADU \<Rightarrow> bool" where
  "is_claim a = (adu_type a \<noteq> Evidence)"

text \<open>Step 4 over the claims of the batch; it fails when the service fails on one of them.\<close>

fun canonicalize_all ::
  "analysis_service \<Rightarrow> ADU list \<Rightarrow> CanonicalLink list \<Rightarrow> CanonicalLink list option" where
  "canonicalize_all svc [] links = Some links"
| "canonicalize_all svc (a # as) links =
     (if is_claim a then
        (case canonicalize svc links a of
           None \<Rightarrow> None
         | Some c \<Rightarrow>
             canonicalize_all svc as
               (insert_keyed link_adu \<lparr>link_adu = adu_key_of a, link_canonical_claim = c\<rparr> links))
      else canonicalize_all svc as links)"

definition mark :: "unit_ref \<Rightarrow> AnalysisStatus \<Rightarrow> analysis_store \<Rightarrow> analysis_store" where
  "mark u s st = st\<lparr>unit_status := (unit_status st)(u := s)\<rparr>"

definition run_job ::
  "(string \<Rightarrow> string) \<Rightarrow> analysis_service \<Rightarrow> analysis_store \<Rightarrow> AnalysisJob \<Rightarrow> analysis_store" where
  "run_job sha256 svc st job =
     (let u = (job_type job, job_id job);
          h = generateContentHash sha256 (job_content job)
      in if completed_hash st u = Some h \<and> unit_status st u = completed then st
         else
           (let st1 = mark u processing st in
            case extractADUs svc (job_content job) of
              None \<Rightarrow> mark u failed st1
            | Some batch \<Rightarrow>
                (let new_adus = resolve_batch u batch;
                     st2 = st1\<lparr>adus := insert_all_keyed adu_key_of new_adus (adus st1)\<rparr>
                 in case canonicalize_all svc new_adus (canonical_links st2) of
                      None \<Rightarrow> mark u failed st2
                    | Some links \<Rightarrow>
                        (let st3 = st2\<lparr>canonical_links := links\<rparr> in
                         case detectRelations svc (filter (\<lambda>a. (adu_source_type a, adu_source_id a) = u)
                                                     (adus st3)) of
                           None \<Rightarrow> mark u failed st3
                         | Some rels \<Rightarrow>
                             (let st4 = st3\<lparr>relations :=
                                              insert_all_keyed rel_key_of rels (relations st3)\<rparr>;
                                  st5 = st4\<lparr>completed_hash := (completed_hash st4)(u := Some h)\<rparr>
                              in mark u completed st5)))))"

definition no_duplicates :: "analysis_store \<Rightarrow> bool" where
  "no_duplicates st =
     (distinct (map adu_key_of (adus st)) \<and> distinct (map link_adu (canonical_links st))
      \<and> distinct (map rel_key_of (relations st)))"

section \<open>Concrete stores\<close>

text \<open>
  Modelled from the spec: \<open>UserRepo\<close> is not among the sources. This instance keeps
  the \<open>users\<close> table as it is read and written by the routes: lookup by id among the
  rows that are not soft-deleted, creation that fails on an id already present.
\<close>

definition users_table :: UserRepo where
  "users_table =
     \<lparr>UserRepo_findById = (\<lambda>us i. Inr (find (\<lambda>u. u_id u = i \<and> u_deleted_at u = None) us)),
      UserRepo_create = (\<lambda>us now i email t dn.
         if list_ex (\<lambda>u. u_id u = i) us then Inr (False, us)
         else Inr (True, us @ [\<lparr>u_id = i, u_email = email, u_user_type = t,
                                 u_display_name = dn, u_deleted_at = None\<rparr>])),
      UserRepo_softDelete = (\<lambda>us now i.
         Inr (list_ex (\<lambda>u. u_id u = i \<and> u_deleted_at u = None) us,
              map (\<lambda>u. if u_id u = i \<and> u_deleted_at u = None then u\<lparr>u_deleted_at := Some now\<rparr> else u) us))\<rparr>"

definition alice :: AuthenticatedUser where
  "alice = \<lparr>au_id = ''alice'', au_email = ''alice@example.com'', au_user_type = human\<rparr>"

definition alice_row :: UserRow where
  "alice_row = \<lparr>u_id = ''alice'', u_email = ''alice@example.com'', u_user_type = human,
                u_display_name = None, u_deleted_at = None\<rparr>"

definition agent_row :: "string \<Rightarrow> string \<Rightarrow> AgentIdentityRow" where
  "agent_row i owner = \<lparr>ai_id = i, ai_owner_id = owner, ai_name = i, ai_description = None,
                        ai_model_info = None, ai_created_at = 0, ai_updated_at = 0,
                        ai_deleted_at = None\<rparr>"

definition token_row :: "string \<Rightarrow> string \<Rightarrow> string \<Rightarrow> time \<Rightarrow> time option \<Rightarrow> time \<Rightarrow> AgentTokenRow" where
  "token_row rid a j e rv c = \<lparr>tk_id = rid, tk_agent_id = a, tk_jti = j, tk_expires_at = e,
                               tk_revoked_at = rv, tk_created_at = c\<rparr>"

definition empty_db :: db where
  "empty_db = \<lparr>users = [], agent_identities = [], agent_tokens = [], posts = [], replies = [],
               votes = []\<rparr>"

definition store0 :: db where
  "store0 = empty_db\<lparr>users := [alice_row], agent_identities := [agent_row ''bot'' ''alice'']\<rparr>"

definition token0 :: credential where
  "token0 = generateAuthToken ''s3cret'' 1000 ''Bot'' ''Bot@agent.chitin.social'' agent (Some ''jti-1'') 3600"

definition store1 :: db where
  "store1 = store0\<lparr>agent_tokens := [token_row ''row-1'' ''bot'' ''jti-1'' 3601000 None 1000]\<rparr>"

definition store2 :: db where
  "store2 = store0\<lparr>agent_tokens := [token_row ''row-1'' ''bot'' ''jti-1'' 3601000 (Some 2000) 1000]\<rparr>"

definition post_row :: "string \<Rightarrow> string \<Rightarrow> int \<Rightarrow> int \<Rightarrow> time \<Rightarrow> PostRow" where
  "post_row i author score vc created =
     \<lparr>p_id = i, p_author_id = author, p_title = ''t'', p_content = ''c'',
      p_analysis_content_hash = ''h'', p_analysis_status = pending, p_score = score,
      p_vote_count = vc, p_reply_count = 0, p_created_at = created, p_updated_at = created,
      p_deleted_at = None\<rparr>"

text \<open>
  An owner with two agents; within the hour before 3600000 the first agent posted 60
  times and the second 41 times.
\<close>

definition busy_store :: db where
  "busy_store = empty_db
     \<lparr>users := [alice_row],
      agent_identities := [agent_row ''bot-a'' ''alice'', agent_row ''bot-b'' ''alice''],
      posts := map (\<lambda>i. post_row (''a'' @ show_nat i) ''bot-a'' 0 0 (3000000 + int i)) [0 ..< 60]
             @ map (\<lambda>i. post_row (''b'' @ show_nat i) ''bot-b'' 0 0 (3000000 + int i)) [0 ..< 41]\<rparr>"

definition bot_a :: AuthenticatedUser where
  "bot_a = \<lparr>au_id = ''bot-a'', au_email = ''bot-a@agent.chitin.social'', au_user_type = agent\<rparr>"

definition bot_b :: AuthenticatedUser where
  "bot_b = \<lparr>au_id = ''bot-b'', au_email = ''bot-b@agent.chitin.social'', au_user_type = agent\<rparr>"

definition counting_down :: faults where
  "counting_down = (\<lambda>c. c = AgentRepo_getOwnerActivityCounts_call)"

text \<open>
  An instance of the platform for evaluating examples: dates are written as the decimal
  number of milliseconds, and the three ranks are cut to whole numbers.
\<close>

definition decimal_Date :: "string \<Rightarrow> time option" where
  "decimal_Date s =
     (case parseInt s of None \<Rightarrow> None | Some i \<Rightarrow> if show_int i = s then Some i else None)"

definition plain_externals :: "int externals" where
  "plain_externals =
     \<lparr>hot_rank = (\<lambda>score age. score), rising_rank = (\<lambda>vc age. vc),
      controversial_rank = (\<lambda>vc score. vc div (\<bar>score\<bar> + 1)),
      toISOString = show_int, new_Date = decimal_Date\<rparr>"

text \<open>Five posts with the scores 5, 4, 3, 2, 1.\<close>

definition five_posts :: db where
  "five_posts = empty_db
     \<lparr>users := [alice_row],
      posts := [post_row ''p3'' ''alice'' 3 3 3000, post_row ''p5'' ''alice'' 5 5 1000,
                post_row ''p1'' ''alice'' 1 1 5000, post_row ''p4'' ''alice'' 4 4 2000,
                post_row ''p2'' ''alice'' 2 2 4000]\<rparr>"

text \<open>What a page shows: the id and score of each item, the cursor, the flag.\<close>

definition page_summary ::
  "exn + PostWithAuthorRow PaginatedResponse \<Rightarrow> ((string \<times> int) list \<times> string option \<times> bool) option" where
  "page_summary res =
     (case res of
        Inl e \<Rightarrow> None
      | Inr page \<Rightarrow> Some (map (\<lambda>p. (p_id p, p_score p)) (items page), cursor page, hasMore page))"

text \<open>
  At time 200000000 (about 55 hours): an old post with many votes, a fresh one with few,
  a perfectly balanced one with four votes and a balanced one with ten.
\<close>

definition mixed_posts :: db where
  "mixed_posts = empty_db
     \<lparr>users := [alice_row],
      posts := [post_row ''old'' ''alice'' 900 1000 0, post_row ''fresh'' ''alice'' 1 3 199000000,
                post_row ''balanced'' ''alice'' 0 4 198000000,
                post_row ''debated'' ''alice'' 0 10 197000000]\<rparr>"

text \<open>An owner with five agents.\<close>

definition full_store :: db where
  "full_store = empty_db
     \<lparr>users := [alice_row],
      agent_identities := [agent_row ''bot-1'' ''alice'', agent_row ''bot-2'' ''alice'',
                           agent_row ''bot-3'' ''alice'', agent_row ''bot-4'' ''alice'',
                           agent_row ''bot-5'' ''alice'']\<rparr>"

definition register_body :: "string \<Rightarrow> RegisterBody" where
  "register_body i = \<lparr>rb_id = Some i, rb_name = Some ''Agent'', rb_description = None,
                      rb_model_info = None\<rparr>"

definition after_delete :: db where
  "after_delete = full_store
     \<lparr>agent_identities := [(agent_row ''bot-1'' ''alice'')\<lparr>ai_deleted_at := Some 2000\<rparr>,
                           agent_row ''bot-2'' ''alice'', agent_row ''bot-3'' ''alice'',
                           agent_row ''bot-4'' ''alice'', agent_row ''bot-5'' ''alice'']\<rparr>"

definition bot6_row :: AgentIdentityRow where
  "bot6_row = \<lparr>ai_id = ''bot-6'', ai_owner_id = ''alice'', ai_name = ''Agent'',
               ai_description = None, ai_model_info = None, ai_created_at = 3000,
               ai_updated_at = 3000, ai_deleted_at = None\<rparr>"

definition bot6_user :: UserRow where
  "bot6_user = \<lparr>u_id = ''bot-6'', u_email = ''bot-6@agent.chitin.social'', u_user_type = agent,
                u_display_name = Some ''Agent'', u_deleted_at = None\<rparr>"

definition insert_down :: faults where
  "insert_down = (\<lambda>c. c = AgentRepo_createToken_call)"

text \<open>Two posts; a reply under the first, and a soft-deleted reply under the first.\<close>

definition reply_row :: "string \<Rightarrow> string \<Rightarrow> time option \<Rightarrow> ReplyRow" where
  "reply_row i postId deleted =
     \<lparr>r_id = i, r_post_id = postId, r_author_id = ''alice'', r_parent_reply_id = None,
      r_target_adu_id = None, r_content = ''first'', r_analysis_content_hash = ''h'',
      r_analysis_status = pending, r_depth = 0, r_path = ltree_label i, r_score = 0,
      r_reply_count = 0, r_quoted_text = None, r_quoted_source_type = None,
      r_quoted_source_id = None, r_created_at = 500, r_updated_at = 500, r_deleted_at = deleted\<rparr>"

definition post_A :: string where "post_A = ''aaaaaaaa-0000-0000-0000-000000000001''"
definition post_B :: string where "post_B = ''bbbbbbbb-0000-0000-0000-000000000002''"
definition reply_1 :: string where "reply_1 = ''cccccccc-0000-0000-0000-000000000003''"
definition reply_2 :: string where "reply_2 = ''dddddddd-0000-0000-0000-000000000004''"
definition reply_3 :: string where "reply_3 = ''eeeeeeee-0000-0000-0000-000000000005''"

text \<open>The same ids as a client may spell them, in upper case.\<close>

definition post_A_upper :: string where "post_A_upper = ''AAAAAAAA-0000-0000-0000-000000000001''"
definition reply_1_upper :: string where "reply_1_upper = ''CCCCCCCC-0000-0000-0000-000000000003''"

definition thread_store :: db where
  "thread_store = empty_db
     \<lparr>users := [alice_row],
      posts := [post_row post_A ''alice'' 0 0 100, post_row post_B ''alice'' 0 0 200],
      replies := [reply_row reply_1 post_A None, reply_row reply_2 post_A (Some 600)]\<rparr>"

definition reply_body :: "string option \<Rightarrow> CreateReplyBody" where
  "reply_body parent = \<lparr>cb_content = Some ''second'', cb_parent_reply_id = parent,
                        cb_target_adu_id = None, cb_quoted_text = None,
                        cb_quoted_source_type = None, cb_quoted_source_id = None\<rparr>"

definition sha_stub :: "string \<Rightarrow> string" where
  "sha_stub s = ''#'' @ s"

text \<open>A service that finds one claim with one supporting premise, and a store without analyses.\<close>

definition demo_service :: analysis_service where
  "demo_service =
     \<lparr>extractADUs = (\<lambda>body.
         Some [\<lparr>ex_type = MajorClaim, ex_text = take 5 body, ex_span_start = 0, ex_span_end = 5,
                 ex_parent_index = None\<rparr>,
               \<lparr>ex_type = Supporting, ex_text = drop 6 body, ex_span_start = 6,
                 ex_span_end = length body, ex_parent_index = Some 0\<rparr>]),
      canonicalize = (\<lambda>links a. Some (adu_text a)),
      detectRelations = (\<lambda>as.
         Some [\<lparr>rel_source_adu = (post_source, ''p1'', 6, 11),
                 rel_target_adu = (post_source, ''p1'', 0, 5), rel_type = support\<rparr>])\<rparr>"

definition fresh_analysis :: analysis_store where
  "fresh_analysis =
     \<lparr>unit_status = (\<lambda>u. pending), completed_hash = (\<lambda>u. None), adus = [],
      canonical_links = [], relations = []\<rparr>"

definition demo_job :: AnalysisJob where
  "demo_job = \<lparr>job_type = post_source, job_id = ''p1'', job_content = ''claim proof''\<rparr>"

section \<open>Token issuance and revocation\<close>

lemma issueToken_created:
  assumes "issueToken_handler flt secret d now jti rid user agentId = (Response 201 b, d')"
  shows "b = TokenData (generateAuthToken secret now agentId (agentId @ ''@agent.chitin.social'')
                          agent (Some jti) 3600) (now + 3600000) jti
       \<and> agent_tokens d' = agent_tokens d @ [token_row rid (toLowerCase agentId) jti (now + 3600000) None now]
       \<and> \<not> list_ex (\<lambda>r. tk_jti r = jti) (agent_tokens d)"
  using assms
  by (auto simp: issueToken_handler_def AgentRepo_createToken_def internal_error_def
        agent_not_found_def token_row_def Let_def
      split: sum.splits option.splits if_splits)

lemma revokeTokens_ok:
  assumes "revokeTokens_handler flt d now user agentId = (Response 200 b, d')"
  shows "agent_tokens d' =
           map (\<lambda>r. if tk_agent_id r = toLowerCase agentId \<and> tk_revoked_at r = None
                     then r\<lparr>tk_revoked_at := Some now\<rparr> else r) (agent_tokens d)"
  using assms
  by (auto simp: revokeTokens_handler_def AgentRepo_revokeAllTokens_def internal_error_def
        agent_not_found_def Let_def
      split: sum.splits option.splits if_splits)

lemma revoked_not_valid:
  assumes "issueToken_handler flt1 secret d0 t0 jti rid owner agentId = (Response 201 b1, d1)"
    and "revokeTokens_handler flt2 d1 t1 caller agentId' = (Response 200 b2, d2)"
    and "toLowerCase agentId' = toLowerCase agentId"
  shows "\<not> list_ex (\<lambda>r. tk_jti r = jti \<and> tk_revoked_at r = None \<and> t2 < tk_expires_at r)
            (agent_tokens d2)"
  using issueToken_created[OF assms(1)] revokeTokens_ok[OF assms(2)] assms(3)
  by (auto simp: list_ex_iff token_row_def)

lemma authenticate_checks_store:
  assumes "authenticateToken ur flt env secret d now (Some [scheme, Signed k p e]) = (Proceed u, d')"
    and "pl_jti p = Some j" and "j \<noteq> []"
  shows "\<exists>r \<in> set (agent_tokens d). tk_jti r = j \<and> tk_revoked_at r = None \<and> now < tk_expires_at r"
  using assms
  by (auto simp: authenticateToken_def AgentRepo_isTokenValid_def query_def list_ex_iff Let_def
        forbidden_token_def
      split: sum.splits option.splits if_splits jwt_error.splits)

text \<open>
  What \<open>authenticateToken\<close> does with a revoked token. A token is issued for an agent
  by \<open>POST /agents/:agentId/token\<close> and all tokens of that agent are then revoked by
  \<open>POST /agents/:agentId/revoke-tokens\<close> (the handle may be spelled in another case).
  Any later request that presents the token to \<open>authenticateToken\<close>, at any time
  \<open>t2\<close>, is answered and never passed on; when the validity query is answered, the
  answer is 401 \<open>Unauthorized\<close>, and 403 when the query is rejected. \<open>isTokenValid\<close>
  is true exactly when a row with this jti exists that is not revoked and expires after
  \<open>now\<close>, and every request that \<open>authenticateToken\<close> admits with a jti in its
  credential has passed this query on the store as it is at the time of the request.
\<close>

lemma authenticateToken_rejects_revoked:
  assumes "issueToken_handler flt1 secret d0 t0 jti rid owner agentId
             = (Response 201 (TokenData tok expiresAt jti'), d1)"
    and "revokeTokens_handler flt2 d1 t1 caller agentId' = (Response 200 b2, d2)"
    and "toLowerCase agentId' = toLowerCase agentId"
    and "jti \<noteq> []" and "agentId \<noteq> []"
  shows "(\<not> flt3 AgentRepo_isTokenValid_call \<longrightarrow>
           (\<exists>msg. authenticateToken ur flt3 env secret d2 t2 (Some [scheme, tok])
                  = (Responded (Response 401 (ApiError ''Unauthorized'' msg)), d2)))
       \<and> (\<exists>r. authenticateToken ur flt3 env secret d2 t2 (Some [scheme, tok]) = (Responded r, d2))
       \<and> (\<forall>d now j. AgentRepo_isTokenValid no_faults d now j
             = Inr (\<exists>r \<in> set (agent_tokens d).
                      tk_jti r = j \<and> tk_revoked_at r = None \<and> now < tk_expires_at r))
       \<and> (\<forall>flt d now k p e u d' j.
             authenticateToken ur flt env secret d now (Some [scheme, Signed k p e]) = (Proceed u, d')
               \<longrightarrow> pl_jti p = Some j \<longrightarrow> j \<noteq> []
               \<longrightarrow> (\<exists>r \<in> set (agent_tokens d).
                      tk_jti r = j \<and> tk_revoked_at r = None \<and> now < tk_expires_at r))"
proof -
  have b: "tok = generateAuthToken secret t0 agentId (agentId @ ''@agent.chitin.social'')
                   agent (Some jti) 3600"
    using issueToken_created[OF assms(1)] by simp
  have nv: "\<not> list_ex (\<lambda>r. tk_jti r = jti \<and> tk_revoked_at r = None \<and> t2 < tk_expires_at r)
              (agent_tokens d2)"
    by (rule revoked_not_valid[OF assms(1,2,3)])
  have resp: "(\<not> flt3 AgentRepo_isTokenValid_call \<longrightarrow>
           (\<exists>msg. authenticateToken ur flt3 env secret d2 t2 (Some [scheme, tok])
                  = (Responded (Response 401 (ApiError ''Unauthorized'' msg)), d2)))
       \<and> (\<exists>r. authenticateToken ur flt3 env secret d2 t2 (Some [scheme, tok]) = (Responded r, d2))"
    using nv assms(4,5)
    by (auto simp: b authenticateToken_def generateAuthToken_def AgentRepo_isTokenValid_def
          query_def forbidden_token_def Let_def)
  have valid: "\<forall>d now j. AgentRepo_isTokenValid no_faults d now j
             = Inr (\<exists>r \<in> set (agent_tokens d).
                      tk_jti r = j \<and> tk_revoked_at r = None \<and> now < tk_expires_at r)"
    by (simp add: AgentRepo_isTokenValid_def query_def no_faults_def list_ex_iff)
  show ?thesis
    using resp valid authenticate_checks_store by blast
qed

text \<open>
  What \<open>optionalAuth\<close> does with the same token: while the token is signed under the
  secret and has not expired, it sets \<open>req.user\<close> from the payload, whatever the token
  table holds, and leaves the store as it is.
\<close>

lemma optionalAuth_admits:
  assumes "e > now div 1000" and "i \<noteq> []" and "email \<noteq> []"
  shows "optionalAuth ur env secret d now
           (Some [scheme, Signed secret \<lparr>pl_id = Some i, pl_email = Some email,
                                          pl_user_type = Some t, pl_jti = j\<rparr> e])
         = (Continue (Some \<lparr>au_id = i, au_email = email, au_user_type = t\<rparr>), d)"
  using assms by (simp add: optionalAuth_def)

lemma issue_at_store0:
  "issueToken_handler no_faults ''s3cret'' store0 1000 ''jti-1'' ''row-1'' alice ''Bot''
     = (Response 201 (TokenData token0 3601000 ''jti-1''), store1)"
  by (simp add: issueToken_handler_def AgentRepo_findById_def AgentRepo_createToken_def query_def
        no_faults_def store0_def store1_def empty_db_def agent_row_def token_row_def alice_def
        token0_def toLowerCase_def lower_char_def Let_def)

lemma revoke_at_store1:
  "revokeTokens_handler no_faults store1 2000 alice ''bot'' = (Response 200 (RevokedCount 1), store2)"
  by (simp add: revokeTokens_handler_def AgentRepo_findById_def AgentRepo_revokeAllTokens_def
        query_def no_faults_def store0_def store1_def store2_def empty_db_def agent_row_def
        token_row_def alice_def toLowerCase_def lower_char_def Let_def)

lemma authenticate_at_store2:
  "authenticateToken users_table no_faults ''production'' ''s3cret'' store2 3000
        (Some [Opaque ''Bearer'', token0])
      = (Responded (Response 401 (ApiError ''Unauthorized'' ''Token has been revoked'')), store2)"
proof -
  have lc: "toLowerCase ''bot'' = toLowerCase ''Bot''"
    by (simp add: toLowerCase_def lower_char_def)
  have "\<exists>msg. authenticateToken users_table no_faults ''production'' ''s3cret'' store2 3000
                 (Some [Opaque ''Bearer'', token0])
               = (Responded (Response 401 (ApiError ''Unauthorized'' msg)), store2)"
    using authenticateToken_rejects_revoked[OF issue_at_store0 revoke_at_store1 lc, of no_faults
            users_table "''production''" 3000 "Opaque ''Bearer''"]
    by (simp add: no_faults_def)
  then obtain msg where m: "authenticateToken users_table no_faults ''production'' ''s3cret'' store2 3000
                 (Some [Opaque ''Bearer'', token0])
               = (Responded (Response 401 (ApiError ''Unauthorized'' msg)), store2)" ..
  have "authenticateToken users_table no_faults ''production'' ''s3cret'' store2 3000
                 (Some [Opaque ''Bearer'', token0])
               = (Responded (Response 401 (ApiError ''Unauthorized'' ''Token has been revoked'')), store2)"
    by (simp add: authenticateToken_def token0_def generateAuthToken_def AgentRepo_isTokenValid_def
          query_def no_faults_def store2_def store0_def empty_db_def token_row_def Let_def)
  then show ?thesis .
qed

text \<open>
  Claim C1. The validity query is as the claim says, and \<open>authenticateToken\<close> runs it
  on every request whose credential carries a jti. \<open>optionalAuth\<close> does not: a token
  is issued for the agent \<open>Bot\<close> and all tokens of the agent are revoked; the validity
  query then answers false and \<open>authenticateToken\<close> answers 401, while
  \<open>optionalAuth\<close> passes the request on with \<open>req.user\<close> set to the agent, and does
  so whatever rows the token table holds. The design notes of the repository say that
  every authenticated request with a jti verifies that the token is not revoked.
\<close>

theorem optionalAuth_admits_revoked_token:
  "issueToken_handler no_faults ''s3cret'' store0 1000 ''jti-1'' ''row-1'' alice ''Bot''
     = (Response 201 (TokenData token0 3601000 ''jti-1''), store1)
   \<and> revokeTokens_handler no_faults store1 2000 alice ''bot'' = (Response 200 (RevokedCount 1), store2)
   \<and> credential_jti token0 = Some ''jti-1''
   \<and> AgentRepo_isTokenValid no_faults store2 3000 ''jti-1'' = Inr False
   \<and> authenticateToken users_table no_faults ''production'' ''s3cret'' store2 3000
        (Some [Opaque ''Bearer'', token0])
      = (Responded (Response 401 (ApiError ''Unauthorized'' ''Token has been revoked'')), store2)
   \<and> optionalAuth users_table ''production'' ''s3cret'' store2 3000 (Some [Opaque ''Bearer'', token0])
      = (Continue (Some \<lparr>au_id = ''Bot'', au_email = ''Bot@agent.chitin.social'',
                          au_user_type = agent\<rparr>), store2)
   \<and> (\<forall>rows. fst (optionalAuth users_table ''production'' ''s3cret''
                      (store2\<lparr>agent_tokens := rows\<rparr>) 3000 (Some [Opaque ''Bearer'', token0]))
        = Continue (Some \<lparr>au_id = ''Bot'', au_email = ''Bot@agent.chitin.social'',
                           au_user_type = agent\<rparr>))"
proof -
  have j: "credential_jti token0 = Some ''jti-1''"
    by (simp add: token0_def generateAuthToken_def)
  have v: "AgentRepo_isTokenValid no_faults store2 3000 ''jti-1'' = Inr False"
    by (simp add: AgentRepo_isTokenValid_def query_def no_faults_def store2_def store0_def
          empty_db_def token_row_def)
  have o: "optionalAuth users_table ''production'' ''s3cret'' d 3000 (Some [Opaque ''Bearer'', token0])
      = (Continue (Some \<lparr>au_id = ''Bot'', au_email = ''Bot@agent.chitin.social'',
                          au_user_type = agent\<rparr>), d)" for d
    unfolding token0_def generateAuthToken_def
    by (rule optionalAuth_admits) simp_all
  have a: "\<forall>rows. fst (optionalAuth users_table ''production'' ''s3cret''
                      (store2\<lparr>agent_tokens := rows\<rparr>) 3000 (Some [Opaque ''Bearer'', token0]))
        = Continue (Some \<lparr>au_id = ''Bot'', au_email = ''Bot@agent.chitin.social'',
                           au_user_type = agent\<rparr>)"
    by (simp add: o)
  show ?thesis
    by (rule conjI[OF issue_at_store0 conjI[OF revoke_at_store1 conjI[OF j conjI[OF v
          conjI[OF authenticate_at_store2 conjI[OF o a]]]]]])
qed
section \<open>The per-owner aggregate limit\<close>

lemma count_in_set_sum:
  "distinct ids \<Longrightarrow>
   length (filter (\<lambda>x. f x \<in> set ids \<and> P x) xs)
     = sum_list (map (\<lambda>a. length (filter (\<lambda>x. f x = a \<and> P x) xs)) ids)"
proof (induction ids)
  case Nil
  then show ?case by simp
next
  case (Cons a ids)
  have "length (filter (\<lambda>x. f x \<in> set (a # ids) \<and> P x) xs)
        = length (filter (\<lambda>x. f x = a \<and> P x) xs)
          + length (filter (\<lambda>x. f x \<in> set ids \<and> P x) xs)"
    using Cons.prems by (induction xs) auto
  with Cons show ?case by simp
qed

lemma distinct_owner_agents:
  "distinct (map ai_id (agent_identities d)) \<Longrightarrow> distinct (owner_agents d owner)"
  by (simp add: owner_agents_def distinct_map_filter)

lemma counts_eq_owner_activity:
  assumes "distinct (map ai_id (agent_identities d))"
    and "toLowerCase owner = owner"
    and "AgentRepo_getOwnerActivityCounts flt d owner ws = Inr c"
  shows "counts_of c act = owner_activity d act ws owner"
proof -
  have c: "c = \<lparr>c_posts = length (filter (\<lambda>p. p_author_id p \<in> set (owner_agents d owner)
                                          \<and> ws < p_created_at p) (posts d)),
                c_replies = length (filter (\<lambda>r. r_author_id r \<in> set (owner_agents d owner)
                                          \<and> ws < r_created_at r) (replies d)),
                c_votes = length (filter (\<lambda>v. v_user_id v \<in> set (owner_agents d owner)
                                          \<and> ws < v_created_at v) (votes d))\<rparr>"
    using assms(2,3)
    by (auto simp: AgentRepo_getOwnerActivityCounts_def query_def owner_agents_def Let_def
        split: if_splits)
  have dis: "distinct (owner_agents d owner)"
    by (rule distinct_owner_agents[OF assms(1)])
  show ?thesis
    by (cases act) (simp_all add: c owner_activity_def count_in_set_sum[OF dis] cong: map_cong)
qed

lemma busy_store_agent:
  "AgentRepo_findById flt busy_store (au_id bot_a)
     = (if flt AgentRepo_findById_call then Inl (QueryRejected AgentRepo_findById_call)
        else Inr (Some (agent_row ''bot-a'' ''alice'')))"
  by (simp add: AgentRepo_findById_def query_def busy_store_def empty_db_def agent_row_def
        bot_a_def toLowerCase_def lower_char_def)

lemma busy_store_activity: "owner_activity busy_store act_posts (3600000 - WINDOW_MS) ''alice'' = 101"
  by (simp add: owner_activity_def owner_agents_def busy_store_def empty_db_def agent_row_def
        post_row_def WINDOW_MS_def filter_map comp_def)

text \<open>
  Claim C2. A write request of an agent principal whose identity is found and whose
  activity count is answered is rejected with 429 \<open>Too Many Requests\<close> exactly when
  the owner's aggregate for the action, the sum over all the owner's agents that are
  not soft-deleted of what each did after \<open>now - 1h\<close>, has reached the ceiling of the
  action (100, 500, 1500); only the sum matters, not its distribution. A human
  principal always passes. Agent ids are the table's primary key, and the stored owner
  id is in lower case, as \<open>AgentRepo.create\<close> writes it.
\<close>

theorem owner_aggregate_limit:
  assumes "distinct (map ai_id (agent_identities d))"
    and "au_user_type u = agent"
    and "AgentRepo_findById flt d (au_id u) = Inr (Some ag)"
    and "toLowerCase (ai_owner_id ag) = ai_owner_id ag"
    and "\<not> flt AgentRepo_getOwnerActivityCounts_call"
  shows "createOwnerAggregateLimiter act flt d now (Some u)
           = (if AGGREGATE_LIMITS act \<le> owner_activity d act (now - WINDOW_MS) (ai_owner_id ag)
              then Sent (too_many_requests act) else Next)
       \<and> status (too_many_requests act) = 429
       \<and> AGGREGATE_LIMITS act_posts = 100 \<and> AGGREGATE_LIMITS act_replies = 500
       \<and> AGGREGATE_LIMITS act_votes = 1500
       \<and> (\<forall>act' flt' d' now' h. au_user_type h = human
             \<longrightarrow> createOwnerAggregateLimiter act' flt' d' now' (Some h) = Next)"
proof -
  obtain c where c: "AgentRepo_getOwnerActivityCounts flt d (ai_owner_id ag) (now - WINDOW_MS) = Inr c"
    using assms(5) by (simp add: AgentRepo_getOwnerActivityCounts_def query_def)
  have "counts_of c act = owner_activity d act (now - WINDOW_MS) (ai_owner_id ag)"
    by (rule counts_eq_owner_activity[OF assms(1) assms(4) c])
  then show ?thesis
    using assms(2,3) c
    by (simp add: createOwnerAggregateLimiter_def too_many_requests_def Let_def)
qed

text \<open>
  The scenario of the specification: with 60 posts of one agent and 41 of the other
  inside the window, the next post of either agent, the 102nd, is rejected; the owner
  herself is not limited.
\<close>

theorem owner_aggregate_limit_witness:
  "owner_activity busy_store act_posts (3600000 - WINDOW_MS) ''alice'' = 101
   \<and> agent_activity busy_store act_posts (3600000 - WINDOW_MS) ''bot-a'' = 60
   \<and> agent_activity busy_store act_posts (3600000 - WINDOW_MS) ''bot-b'' = 41
   \<and> createOwnerAggregateLimiter act_posts no_faults busy_store 3600000 (Some bot_a)
       = Sent (too_many_requests act_posts)
   \<and> status (too_many_requests act_posts) = 429
   \<and> createOwnerAggregateLimiter act_posts no_faults busy_store 3600000 (Some alice) = Next"
proof -
  have d: "distinct (map ai_id (agent_identities busy_store))"
    by (simp add: busy_store_def empty_db_def agent_row_def)
  have a: "au_user_type bot_a = agent"
    by (simp add: bot_a_def)
  have f: "AgentRepo_findById no_faults busy_store (au_id bot_a) = Inr (Some (agent_row ''bot-a'' ''alice''))"
    by (simp add: busy_store_agent no_faults_def)
  have l: "toLowerCase (ai_owner_id (agent_row ''bot-a'' ''alice'')) = ai_owner_id (agent_row ''bot-a'' ''alice'')"
    by (simp add: agent_row_def toLowerCase_def lower_char_def)
  have n: "\<not> no_faults AgentRepo_getOwnerActivityCounts_call"
    by (simp add: no_faults_def)
  have o: "ai_owner_id (agent_row ''bot-a'' ''alice'') = ''alice''"
    by (simp add: agent_row_def)
  have h: "au_user_type alice = human"
    by (simp add: alice_def)
  have pa: "agent_activity busy_store act_posts (3600000 - WINDOW_MS) ''bot-a'' = 60"
    by (simp add: busy_store_def empty_db_def post_row_def WINDOW_MS_def filter_map comp_def)
  have pb: "agent_activity busy_store act_posts (3600000 - WINDOW_MS) ''bot-b'' = 41"
    by (simp add: busy_store_def empty_db_def post_row_def WINDOW_MS_def filter_map comp_def)
  show ?thesis
    using owner_aggregate_limit[OF d a f l n, of act_posts 3600000] busy_store_activity h pa pb
    by (simp add: o)
qed

section \<open>The aggregate limit fails open\<close>

text \<open>
  Claim C7. When the activity-count query of the per-owner check is rejected, the
  middleware calls \<open>next()\<close>: the request proceeds whatever the owner's agents did.
  (The count query is issued once the agent's identity has been found.)
\<close>

theorem aggregate_limit_fails_open:
  assumes "au_user_type u = agent"
    and "AgentRepo_findById flt d (au_id u) = Inr (Some ag)"
    and "flt AgentRepo_getOwnerActivityCounts_call"
  shows "createOwnerAggregateLimiter act flt d now (Some u) = Next"
  using assms
  by (simp add: createOwnerAggregateLimiter_def AgentRepo_getOwnerActivityCounts_def query_def)

theorem aggregate_limit_fails_open_witness:
  "AGGREGATE_LIMITS act_posts \<le> owner_activity busy_store act_posts (3600000 - WINDOW_MS) ''alice''
   \<and> createOwnerAggregateLimiter act_posts counting_down busy_store 3600000 (Some bot_a) = Next"
proof -
  have a: "au_user_type bot_a = agent"
    by (simp add: bot_a_def)
  have f: "AgentRepo_findById counting_down busy_store (au_id bot_a) = Inr (Some (agent_row ''bot-a'' ''alice''))"
    by (simp add: busy_store_agent counting_down_def)
  have c: "counting_down AgentRepo_getOwnerActivityCounts_call"
    by (simp add: counting_down_def)
  show ?thesis
    using aggregate_limit_fails_open[OF a f c, of act_posts 3600000] busy_store_activity
    by simp
qed

section \<open>Decimal text and the composite cursor\<close>

lemma digit_char_props:
  assumes "n < 10"
  shows "is_digit (digit_char n) \<and> digit_val (digit_char n) = n \<and> digit_char n \<noteq> CHR ''_''
       \<and> \<not> is_space (digit_char n) \<and> digit_char n \<noteq> CHR ''-'' \<and> digit_char n \<noteq> CHR ''+''"
proof -
  from assms consider "n = 0" | "n = 1" | "n = 2" | "n = 3" | "n = 4" | "n = 5" | "n = 6"
    | "n = 7" | "n = 8" | "n = 9" by atomize_elim arith
  then show ?thesis
    by cases (simp_all add: digit_char_def is_digit_def digit_val_def is_space_def)
qed

lemma show_nat_digits: "list_all is_digit (show_nat n) \<and> show_nat n \<noteq> []"
proof (induction n rule: show_nat.induct)
  case (1 n)
  show ?case
  proof (cases "n < 10")
    case True
    then show ?thesis using digit_char_props[of n] by (simp add: show_nat.simps[of n])
  next
    case False
    then show ?thesis using 1 digit_char_props[of "n mod 10"] by (simp add: show_nat.simps[of n])
  qed
qed

lemma digits_val_snoc: "digits_val (s @ [c]) = 10 * digits_val s + digit_val c"
  by (simp add: digits_val_def)

lemma digits_val_show_nat: "digits_val (show_nat n) = n"
proof (induction n rule: show_nat.induct)
  case (1 n)
  show ?case
  proof (cases "n < 10")
    case True
    then show ?thesis using digit_char_props[of n] by (simp add: show_nat.simps[of n] digits_val_def)
  next
    case False
    then show ?thesis using 1 digit_char_props[of "n mod 10"]
      by (simp add: show_nat.simps[of n] digits_val_snoc)
  qed
qed

lemma takeWhile_all: "list_all P xs \<Longrightarrow> takeWhile P xs = xs"
  by (induction xs) auto

lemma show_nat_hd: "\<not> is_space (hd (show_nat n)) \<and> hd (show_nat n) \<noteq> CHR ''-'' \<and> hd (show_nat n) \<noteq> CHR ''+''"
proof -
  have "show_nat n \<noteq> []" "list_all is_digit (show_nat n)" using show_nat_digits by auto
  then have "is_digit (hd (show_nat n))" by (cases "show_nat n") auto
  then show ?thesis by (auto simp: is_digit_def is_space_def)
qed

lemma parseInt_show_int: "parseInt (show_int i) = Some i"
proof -
  have ne: "show_nat n \<noteq> []" for n using show_nat_digits by simp
  have tw: "takeWhile is_digit (show_nat n) = show_nat n" for n
    using show_nat_digits takeWhile_all by blast
  have dw: "dropWhile is_space (show_nat n) = show_nat n" for n
    using show_nat_hd[of n] ne[of n] by (cases "show_nat n") auto
  show ?thesis
  proof (cases "i < 0")
    case True
    then show ?thesis
      by (simp add: parseInt_def show_int_def is_space_def tw ne digits_val_show_nat Let_def)
  next
    case False
    then show ?thesis
      using show_nat_hd[of "nat i"]
      by (simp add: parseInt_def show_int_def dw tw ne digits_val_show_nat Let_def)
  qed
qed

lemma split_on_none: "c \<notin> set s \<Longrightarrow> split_on c s = [s]"
  by (induction s) auto

lemma split_on_first: "c \<notin> set s \<Longrightarrow> split_on c (s @ c # t) = s # split_on c t"
  by (induction s) auto

lemma show_int_no_underscore: "CHR ''_'' \<notin> set (show_int i)"
proof -
  have "\<forall>c \<in> set (show_nat n). is_digit c" for n
    using show_nat_digits[of n] by (simp add: list_all_iff)
  then have "CHR ''_'' \<notin> set (show_nat n)" for n
    by (auto simp: is_digit_def)
  then show ?thesis by (simp add: show_int_def)
qed

lemma top_cursor_roundtrip:
  assumes "new_Date ext (toISOString ext t) = Some t" and "CHR ''_'' \<notin> set (toISOString ext t)"
  shows "feed_params ext sort_top (Some (show_int s @ ''_'' @ toISOString ext t))
           = (if int4 s then Inr (ScoreDateCursor s t)
              else Inl (Error ''value out of range for type integer''))"
  using assms show_int_no_underscore[of s]
  by (simp add: feed_params_def split_on_first split_on_none parseInt_show_int Let_def)
section \<open>The feed\<close>

lemma set_order_desc: "set (order_desc k xs) = set xs"
  by (simp add: order_desc_def)

lemma set_orderClause: "set (orderClause ext now srt xs) = set xs"
  by (cases srt) (simp_all add: set_order_desc)

lemma sorted_order_desc: "sorted_wrt (\<lambda>a b. k b \<le> k a) (order_desc k xs)"
proof -
  have "sorted (map k (sort_key k xs))" by simp
  then have "sorted_wrt (\<lambda>a b. k a \<le> k b) (sort_key k xs)"
    by (simp add: sorted_map)
  then show ?thesis
    by (simp add: order_desc_def sorted_wrt_rev)
qed

lemma getFeed_items:
  assumes "fst (getFeed ext cfg d now srt limit cur) = Inr page"
  shows "\<exists>cp. feed_params ext srt cur = Inr cp
            \<and> items page = take limit (feed_view ext cfg d now srt cp)"
  using assms
  by (auto simp: getFeed_def Let_def min_def split: sum.splits)

lemma getFeed_readable:
  assumes "feed_params ext srt cur = Inr cp"
  shows "\<exists>page. getFeed ext cfg d now srt limit cur = (Inr page, d)
           \<and> length (items page) \<le> limit
           \<and> items page = take limit (take (limit + 1) (feed_view ext cfg d now srt cp))
           \<and> items page = take limit (feed_view ext cfg d now srt cp)
           \<and> hasMore page = (limit < length (take (limit + 1) (feed_view ext cfg d now srt cp)))
           \<and> hasMore page = (length (items page) < length (feed_view ext cfg d now srt cp))"
  using assms by (auto simp: getFeed_def Let_def min_def)

lemma decimal_Date_show_int: "decimal_Date (show_int t) = Some t"
  by (simp add: decimal_Date_def parseInt_show_int)



text \<open>
  Claim C8. Every item of a \<open>rising\<close> page was created after \<open>now\<close> minus the
  configured window, and every item of a \<open>controversial\<close> page has at least the
  configured number of votes, whatever the other fields of the row, the limit and the
  cursor are. The defaults are 24 hours and 5 votes.
\<close>

theorem feed_filters:
  assumes "fst (getFeed ext cfg d now srt limit cur) = Inr page"
  shows "(srt = sort_rising \<longrightarrow>
            list_all (\<lambda>r. now - windowHours cfg * 3600000 < p_created_at r) (items page))
       \<and> (srt = sort_controversial \<longrightarrow>
            list_all (\<lambda>r. minVotes cfg \<le> p_vote_count r) (items page))
       \<and> windowHours default_feed_config = 24 \<and> minVotes default_feed_config = 5"
proof -
  obtain cp where cp: "feed_params ext srt cur = Inr cp"
    and it: "items page = take limit (feed_view ext cfg d now srt cp)"
    using getFeed_items[OF assms] by blast
  have "cursorCondition cfg now srt cp r" if "r \<in> set (items page)" for r
  proof -
    from that have "r \<in> set (feed_view ext cfg d now srt cp)"
      unfolding it by (rule in_set_takeD)
    then show ?thesis
      by (simp add: feed_view_def set_orderClause)
  qed
  then show ?thesis
    by (auto simp: list_all_iff default_feed_config_def)
qed

theorem feed_filters_witness:
  "page_summary (fst (getFeed plain_externals default_feed_config mixed_posts 200000000 sort_rising 10 None))
     = Some ([(''debated'', 0), (''balanced'', 0), (''fresh'', 1)], None, False)
   \<and> page_summary (fst (getFeed plain_externals default_feed_config mixed_posts 200000000 sort_controversial 10 None))
     = Some ([(''debated'', 0), (''old'', 900)], None, False)
   \<and> list_all (\<lambda>r. 200000000 - 24 * 3600000 < p_created_at r)
        (items (projr (fst (getFeed plain_externals default_feed_config mixed_posts 200000000 sort_rising 10 None))))
   \<and> list_all (\<lambda>r. 5 \<le> p_vote_count r)
        (items (projr (fst (getFeed plain_externals default_feed_config mixed_posts 200000000 sort_controversial 10 None))))"
proof -
  have r: "page_summary (fst (getFeed plain_externals default_feed_config mixed_posts 200000000 sort_rising 10 None))
     = Some ([(''debated'', 0), (''balanced'', 0), (''fresh'', 1)], None, False)"
    by (simp add: page_summary_def getFeed_def feed_params_def feed_view_def posts_join_users_def
          mixed_posts_def empty_db_def alice_row_def post_row_def order_desc_def plain_externals_def
          default_feed_config_def PostRow.extend_def PostWithAuthorRow.fields_def Let_def)
  have c: "page_summary (fst (getFeed plain_externals default_feed_config mixed_posts 200000000 sort_controversial 10 None))
     = Some ([(''debated'', 0), (''old'', 900)], None, False)"
    by (simp add: page_summary_def getFeed_def feed_params_def feed_view_def posts_join_users_def
          mixed_posts_def empty_db_def alice_row_def post_row_def order_desc_def plain_externals_def
          default_feed_config_def PostRow.extend_def PostWithAuthorRow.fields_def Let_def)
  obtain pr where pr: "fst (getFeed plain_externals default_feed_config mixed_posts 200000000 sort_rising 10 None) = Inr pr"
    using r by (auto simp: page_summary_def split: sum.splits)
  obtain pc where pc: "fst (getFeed plain_externals default_feed_config mixed_posts 200000000 sort_controversial 10 None) = Inr pc"
    using c by (auto simp: page_summary_def split: sum.splits)
  have w: "windowHours default_feed_config = 24" "minVotes default_feed_config = 5"
    by (simp_all add: default_feed_config_def)
  have fr: "list_all (\<lambda>r. 200000000 - 24 * 3600000 < p_created_at r) (items pr)"
    using feed_filters[OF pr] by (simp add: w)
  have fc: "list_all (\<lambda>r. 5 \<le> p_vote_count r) (items pc)"
    using feed_filters[OF pc] by (simp add: w)
  show ?thesis
    using r c fr fc by (simp add: pr pc)
qed

section \<open>The top feed\<close>

lemma feed_params_None: "feed_params ext srt None = Inr NoCursor"
  by (simp add: feed_params_def)

lemma top_sorted:
  assumes "fst (getFeed ext cfg d now sort_top limit cur) = Inr page"
  shows "sorted_wrt (\<lambda>a b. p_score b < p_score a
                          \<or> (p_score b = p_score a \<and> p_created_at b \<le> p_created_at a))
           (items page)"
proof -
  obtain cp where it: "items page = take limit (feed_view ext cfg d now sort_top cp)"
    using getFeed_items[OF assms] by blast
  have "sorted_wrt (\<lambda>a b. (p_score b, p_created_at b) \<le> (p_score a, p_created_at a))
          (feed_view ext cfg d now sort_top cp)"
    unfolding feed_view_def orderClause.simps by (rule sorted_order_desc)
  then have "sorted_wrt (\<lambda>a b. p_score b < p_score a
                               \<or> (p_score b = p_score a \<and> p_created_at b \<le> p_created_at a))
          (feed_view ext cfg d now sort_top cp)"
    by (rule sorted_wrt_mono_rel[rotated]) (auto simp: less_eq_prod_def)
  then show ?thesis
    by (simp add: it sorted_wrt_take)
qed

lemma top_cursor:
  assumes "fst (getFeed ext cfg d now sort_top limit cur) = Inr page" and "hasMore page" and "items page \<noteq> []"
  shows "cursor page = Some (show_int (p_score (last (items page))) @ ''_''
                               @ toISOString ext (p_created_at (last (items page))))"
  using assms
  by (auto simp: getFeed_def Let_def split: sum.splits)

lemma filter_order_desc: "filter P (order_desc k xs) = order_desc k (filter P xs)"
  by (simp add: order_desc_def rev_filter[symmetric] filter_sort)

lemma strict_desc_filter_drop:
  fixes k :: "'a \<Rightarrow> 'k::linorder"
  assumes "sorted_wrt (\<lambda>a b. k b < k a) xs" and "i < length xs"
  shows "filter (\<lambda>p. k p < k (xs ! i)) xs = drop (Suc i) xs"
  using assms
proof (induction xs arbitrary: i)
  case Nil
  then show ?case by simp
next
  case (Cons x xs)
  show ?case
  proof (cases i)
    case 0
    have "\<forall>p \<in> set xs. k p < k x" using Cons.prems(1) by simp
    then have "filter (\<lambda>p. k p < k x) xs = xs" by (simp add: filter_id_conv)
    then show ?thesis using 0 by simp
  next
    case (Suc j)
    then have j: "j < length xs" using Cons.prems(2) by simp
    then have "k (xs ! j) < k x" using Cons.prems(1) by simp
    then have "\<not> k x < k (xs ! j)" by simp
    moreover have "filter (\<lambda>p. k p < k (xs ! j)) xs = drop (Suc j) xs"
      using Cons.IH[OF _ j] Cons.prems(1) by simp
    ultimately show ?thesis using Suc by simp
  qed
qed

lemma desc_distinct_strict:
  fixes k :: "'a \<Rightarrow> 'k::linorder"
  assumes "sorted_wrt (\<lambda>a b. k b \<le> k a) xs" and "distinct (map k xs)"
  shows "sorted_wrt (\<lambda>a b. k b < k a) xs"
  using assms
  by (induction xs) (force simp: less_le image_iff)+

lemma top_view_NoCursor:
  "feed_view ext cfg d now sort_top NoCursor
     = order_desc top_key (filter (\<lambda>p. p_deleted_at p = None) (posts_join_users d))"
  by (simp add: feed_view_def top_key_def[abs_def])

lemma top_view_cursor:
  "feed_view ext cfg d now sort_top (ScoreDateCursor s t)
     = filter (\<lambda>p. top_key p < (s, t)) (feed_view ext cfg d now sort_top NoCursor)"
proof -
  have c: "(p_deleted_at p = None \<and> (p_score p < s \<or> p_score p = s \<and> p_created_at p < t))
             = (p_deleted_at p = None \<and> top_key p < (s, t))" for p :: PostWithAuthorRow
    by (auto simp: top_key_def)
  have "feed_view ext cfg d now sort_top (ScoreDateCursor s t)
          = order_desc top_key (filter (\<lambda>p. p_deleted_at p = None \<and> top_key p < (s, t))
                                  (posts_join_users d))"
    by (simp add: feed_view_def top_key_def[abs_def] c[unfolded top_key_def])
  also have "\<dots> = filter (\<lambda>p. top_key p < (s, t))
                      (order_desc top_key (filter (\<lambda>p. p_deleted_at p = None) (posts_join_users d)))"
    by (simp only: filter_order_desc filter_filter)
  finally show ?thesis
    by (simp only: top_view_NoCursor)
qed

lemma top_view_DateCursor:
  "feed_view ext cfg d now sort_top (DateCursor t) = feed_view ext cfg d now sort_top NoCursor"
  by (simp add: feed_view_def)

lemma top_view_strict:
  assumes "distinct (map top_key (feed_view ext cfg d now sort_top NoCursor))"
  shows "sorted_wrt (\<lambda>a b. top_key b < top_key a) (feed_view ext cfg d now sort_top cp)"
proof -
  have "sorted_wrt (\<lambda>a b. top_key b \<le> top_key a) (feed_view ext cfg d now sort_top NoCursor)"
    unfolding top_view_NoCursor by (rule sorted_order_desc)
  then have s0: "sorted_wrt (\<lambda>a b. top_key b < top_key a) (feed_view ext cfg d now sort_top NoCursor)"
    by (rule desc_distinct_strict[OF _ assms])
  show ?thesis
  proof (cases cp)
    case NoCursor
    then show ?thesis using s0 by simp
  next
    case (DateCursor t)
    then show ?thesis using s0 by (simp only: top_view_DateCursor)
  next
    case (ScoreDateCursor s t)
    show ?thesis
      unfolding ScoreDateCursor top_view_cursor by (rule sorted_wrt_filter[OF s0])
  qed
qed

lemma top_next_view:
  assumes dist: "distinct (map top_key (feed_view ext cfg d now sort_top NoCursor))"
    and i: "i < length (feed_view ext cfg d now sort_top cp)"
    and x: "x = feed_view ext cfg d now sort_top cp ! i"
  shows "feed_view ext cfg d now sort_top (ScoreDateCursor (p_score x) (p_created_at x))
         = drop (Suc i) (feed_view ext cfg d now sort_top cp)"
proof -
  have strict: "sorted_wrt (\<lambda>a b. top_key b < top_key a) (feed_view ext cfg d now sort_top cp)"
    by (rule top_view_strict[OF dist])
  have kx: "(p_score x, p_created_at x) = top_key x"
    by (simp add: top_key_def)
  have sub: "filter (\<lambda>p. top_key p < top_key x) (feed_view ext cfg d now sort_top NoCursor)
             = filter (\<lambda>p. top_key p < top_key x) (feed_view ext cfg d now sort_top cp)"
  proof (cases cp)
    case NoCursor
    then show ?thesis by simp
  next
    case (DateCursor t)
    then show ?thesis by (simp only: top_view_DateCursor)
  next
    case (ScoreDateCursor s t)
    have "x \<in> set (feed_view ext cfg d now sort_top cp)" using i x by simp
    then have "top_key x < (s, t)"
      unfolding ScoreDateCursor top_view_cursor by simp
    then have "(top_key p < (s, t) \<and> top_key p < top_key x) = (top_key p < top_key x)" for p
      by (meson less_trans)
    then show ?thesis
      unfolding ScoreDateCursor top_view_cursor by (simp only: filter_filter)
  qed
  have "feed_view ext cfg d now sort_top (ScoreDateCursor (p_score x) (p_created_at x))
          = filter (\<lambda>p. top_key p < top_key x) (feed_view ext cfg d now sort_top NoCursor)"
    unfolding kx[symmetric] by (rule top_view_cursor)
  also have "\<dots> = filter (\<lambda>p. top_key p < top_key x) (feed_view ext cfg d now sort_top cp)"
    by (rule sub)
  also have "\<dots> = drop (Suc i) (feed_view ext cfg d now sort_top cp)"
    unfolding x by (rule strict_desc_filter_drop[OF strict i])
  finally show ?thesis .
qed

lemma top_next_page:
  assumes rt: "\<And>t. new_Date ext (toISOString ext t) = Some t"
    and nu: "\<And>t. CHR ''_'' \<notin> set (toISOString ext t)"
    and dist: "distinct (map top_key (feed_view ext cfg d now sort_top NoCursor))"
    and p: "fst (getFeed ext cfg d now sort_top limit cur) = Inr page"
    and hm: "hasMore page" and l: "0 < limit"
    and i4: "int4 (p_score (last (items page)))"
  shows "\<exists>cp page'. feed_params ext sort_top cur = Inr cp
           \<and> fst (getFeed ext cfg d now sort_top limit (cursor page)) = Inr page'
           \<and> items page @ items page' = take (2 * limit) (feed_view ext cfg d now sort_top cp)
           \<and> hasMore page' = (2 * limit < length (feed_view ext cfg d now sort_top cp))"
proof -
  obtain cp where cp: "feed_params ext sort_top cur = Inr cp"
    and it: "items page = take limit (feed_view ext cfg d now sort_top cp)"
    using getFeed_items[OF p] by blast
  let ?V = "feed_view ext cfg d now sort_top cp"
  have more: "limit < length ?V"
    using p cp hm by (auto simp: getFeed_def Let_def)
  have ne: "items page \<noteq> []"
    using it more l by auto
  have len: "length (take limit ?V) = limit"
    using more by simp
  have "last (take limit ?V) = take limit ?V ! (length (take limit ?V) - 1)"
    using ne it by (simp add: last_conv_nth)
  also have "\<dots> = ?V ! (limit - 1)"
    unfolding len using l by (simp add: nth_take)
  finally have la: "last (items page) = ?V ! (limit - 1)"
    by (simp only: it)
  let ?x = "last (items page)"
  have cur': "cursor page = Some (show_int (p_score ?x) @ ''_'' @ toISOString ext (p_created_at ?x))"
    by (rule top_cursor[OF p hm ne])
  have fp: "feed_params ext sort_top (cursor page) = Inr (ScoreDateCursor (p_score ?x) (p_created_at ?x))"
    unfolding cur' using top_cursor_roundtrip[OF rt nu, of "p_score ?x"] i4 by simp
  have i: "limit - 1 < length ?V" using more by simp
  have nv: "feed_view ext cfg d now sort_top (ScoreDateCursor (p_score ?x) (p_created_at ?x))
              = drop limit ?V"
    using top_next_view[OF dist i la] l by simp
  obtain page' where p': "fst (getFeed ext cfg d now sort_top limit (cursor page)) = Inr page'"
    and it': "items page' = take limit (drop limit ?V)"
    and hm': "hasMore page' = (length (items page') < length (drop limit ?V))"
    using getFeed_readable[OF fp, of cfg d now limit] unfolding nv by auto
  have cat: "items page @ items page' = take (2 * limit) ?V"
    unfolding it it' by (simp add: take_add[symmetric] mult_2)
  have "hasMore page' = (2 * limit < length ?V)"
    unfolding hm' it' using more by (auto simp: min_def)
  then show ?thesis
    using cp p' cat by blast
qed

text \<open>
  Claim C3, as the code has it. A \<open>top\<close> page is ordered by score, highest first, and
  among equal scores by creation time, latest first; the cursor of a page that has more
  is the score and the date text of its last item, joined by an underscore, and reading
  it back gives that score and that time. Over five posts with the scores 5, 4, 3, 2, 1
  and \<open>limit = 2\<close> the feed takes three pages: [5, 4], [3, 2] and [1], in this order and
  without a repeat, with \<open>hasMore\<close> true on the first two pages and false on the third.
  In general, when no two visible posts share score and creation time, a page that has
  more and the page fetched with its cursor are together the first \<open>2 * limit\<close> rows of
  the view the first page was cut from: nothing is skipped and nothing comes twice.
  The date text is any rendering that \<open>new Date\<close> reads back and that holds no underscore;
  a cursor is read back when its score is one that the \<open>INTEGER\<close> column holds, and
  rejected by the database otherwise.
\<close>

theorem top_feed_pagination:
  assumes rt: "\<And>t. new_Date ext (toISOString ext t) = Some t"
    and nu: "\<And>t. CHR ''_'' \<notin> set (toISOString ext t)"
  shows "page_summary (fst (getFeed ext cfg five_posts now sort_top 2 None))
           = Some ([(''p5'', 5), (''p4'', 4)], Some (show_int 4 @ ''_'' @ toISOString ext 2000), True)
       \<and> page_summary (fst (getFeed ext cfg five_posts now sort_top 2
                         (Some (show_int 4 @ ''_'' @ toISOString ext 2000))))
           = Some ([(''p3'', 3), (''p2'', 2)], Some (show_int 2 @ ''_'' @ toISOString ext 4000), True)
       \<and> page_summary (fst (getFeed ext cfg five_posts now sort_top 2
                         (Some (show_int 2 @ ''_'' @ toISOString ext 4000))))
           = Some ([(''p1'', 1)], None, False)
       \<and> (\<forall>d limit cur page. fst (getFeed ext cfg d now sort_top limit cur) = Inr page \<longrightarrow>
             sorted_wrt (\<lambda>a b. p_score b < p_score a
                               \<or> (p_score b = p_score a \<and> p_created_at b \<le> p_created_at a))
               (items page)
             \<and> (hasMore page \<and> items page \<noteq> [] \<longrightarrow>
                  cursor page = Some (show_int (p_score (last (items page))) @ ''_''
                                       @ toISOString ext (p_created_at (last (items page))))
                  \<and> feed_params ext sort_top (cursor page)
                      = (if int4 (p_score (last (items page)))
                         then Inr (ScoreDateCursor (p_score (last (items page)))
                                                   (p_created_at (last (items page))))
                         else Inl (Error ''value out of range for type integer'')))
             \<and> (hasMore page \<and> 0 < limit \<and> int4 (p_score (last (items page)))
                  \<and> distinct (map top_key (feed_view ext cfg d now sort_top NoCursor)) \<longrightarrow>
                  (\<exists>cp page'. feed_params ext sort_top cur = Inr cp
                     \<and> fst (getFeed ext cfg d now sort_top limit (cursor page)) = Inr page'
                     \<and> items page @ items page'
                         = take (2 * limit) (feed_view ext cfg d now sort_top cp)
                     \<and> hasMore page'
                         = (2 * limit < length (feed_view ext cfg d now sort_top cp)))))"
proof -
  have rtg: "feed_params ext sort_top (Some (show_int s @ ''_'' @ toISOString ext t))
               = (if int4 s then Inr (ScoreDateCursor s t)
                  else Inl (Error ''value out of range for type integer''))" for s t
    by (rule top_cursor_roundtrip[OF rt nu])
  have rtc: "feed_params ext sort_top (Some (show_int s @ ''_'' @ toISOString ext t))
               = Inr (ScoreDateCursor s t)" if "int4 s" for s t
    using rtg[of s t] that by simp
  have "int4 4" and "int4 2"
    by (simp_all add: int4_def)
  note rtc' = rtc[OF \<open>int4 4\<close>, simplified] rtc[OF \<open>int4 2\<close>, simplified]
  have p1: "page_summary (fst (getFeed ext cfg five_posts now sort_top 2 None))
           = Some ([(''p5'', 5), (''p4'', 4)], Some (show_int 4 @ ''_'' @ toISOString ext 2000), True)"
    by (simp add: page_summary_def getFeed_def feed_params_None feed_view_def posts_join_users_def
          five_posts_def empty_db_def alice_row_def post_row_def order_desc_def
          PostRow.extend_def PostWithAuthorRow.fields_def Let_def)
  have p2: "page_summary (fst (getFeed ext cfg five_posts now sort_top 2
                         (Some (show_int 4 @ ''_'' @ toISOString ext 2000))))
           = Some ([(''p3'', 3), (''p2'', 2)], Some (show_int 2 @ ''_'' @ toISOString ext 4000), True)"
    by (simp add: page_summary_def getFeed_def rtc' feed_view_def posts_join_users_def
          five_posts_def empty_db_def alice_row_def post_row_def order_desc_def
          PostRow.extend_def PostWithAuthorRow.fields_def Let_def)
  have p3: "page_summary (fst (getFeed ext cfg five_posts now sort_top 2
                         (Some (show_int 2 @ ''_'' @ toISOString ext 4000))))
           = Some ([(''p1'', 1)], None, False)"
    by (simp add: page_summary_def getFeed_def rtc' feed_view_def posts_join_users_def
          five_posts_def empty_db_def alice_row_def post_row_def order_desc_def
          PostRow.extend_def PostWithAuthorRow.fields_def Let_def)
  have g: "sorted_wrt (\<lambda>a b. p_score b < p_score a
                               \<or> (p_score b = p_score a \<and> p_created_at b \<le> p_created_at a))
               (items page)
             \<and> (hasMore page \<and> items page \<noteq> [] \<longrightarrow>
                  cursor page = Some (show_int (p_score (last (items page))) @ ''_''
                                       @ toISOString ext (p_created_at (last (items page))))
                  \<and> feed_params ext sort_top (cursor page)
                      = (if int4 (p_score (last (items page)))
                         then Inr (ScoreDateCursor (p_score (last (items page)))
                                                   (p_created_at (last (items page))))
                         else Inl (Error ''value out of range for type integer'')))"
    if "fst (getFeed ext cfg d now sort_top limit cur) = Inr page" for d limit cur page
    using top_sorted[OF that] top_cursor[OF that] rtg by simp
  have n: "\<exists>cp page'. feed_params ext sort_top cur = Inr cp
                     \<and> fst (getFeed ext cfg d now sort_top limit (cursor page)) = Inr page'
                     \<and> items page @ items page'
                         = take (2 * limit) (feed_view ext cfg d now sort_top cp)
                     \<and> hasMore page'
                         = (2 * limit < length (feed_view ext cfg d now sort_top cp))"
    if "fst (getFeed ext cfg d now sort_top limit cur) = Inr page" and "hasMore page" and "0 < limit"
      and "int4 (p_score (last (items page)))"
      and "distinct (map top_key (feed_view ext cfg d now sort_top NoCursor))"
    for d limit cur page
    by (rule top_next_page[OF rt nu that(5,1,2,3,4)])
  have gn: "\<forall>d limit cur page. fst (getFeed ext cfg d now sort_top limit cur) = Inr page \<longrightarrow>
             sorted_wrt (\<lambda>a b. p_score b < p_score a
                               \<or> (p_score b = p_score a \<and> p_created_at b \<le> p_created_at a))
               (items page)
             \<and> (hasMore page \<and> items page \<noteq> [] \<longrightarrow>
                  cursor page = Some (show_int (p_score (last (items page))) @ ''_''
                                       @ toISOString ext (p_created_at (last (items page))))
                  \<and> feed_params ext sort_top (cursor page)
                      = (if int4 (p_score (last (items page)))
                         then Inr (ScoreDateCursor (p_score (last (items page)))
                                                   (p_created_at (last (items page))))
                         else Inl (Error ''value out of range for type integer'')))
             \<and> (hasMore page \<and> 0 < limit \<and> int4 (p_score (last (items page)))
                  \<and> distinct (map top_key (feed_view ext cfg d now sort_top NoCursor)) \<longrightarrow>
                  (\<exists>cp page'. feed_params ext sort_top cur = Inr cp
                     \<and> fst (getFeed ext cfg d now sort_top limit (cursor page)) = Inr page'
                     \<and> items page @ items page'
                         = take (2 * limit) (feed_view ext cfg d now sort_top cp)
                     \<and> hasMore page'
                         = (2 * limit < length (feed_view ext cfg d now sort_top cp))))"
    using g n by blast
  show ?thesis
    by (rule conjI[OF p1 conjI[OF p2 conjI[OF p3 gn]]])
qed

theorem top_feed_pagination_witness:
  "page_summary (fst (getFeed plain_externals default_feed_config five_posts 10000 sort_top 2 None))
     = Some ([(''p5'', 5), (''p4'', 4)], Some ''4_2000'', True)
   \<and> page_summary (fst (getFeed plain_externals default_feed_config five_posts 10000 sort_top 2 (Some ''4_2000'')))
     = Some ([(''p3'', 3), (''p2'', 2)], Some ''2_4000'', True)
   \<and> page_summary (fst (getFeed plain_externals default_feed_config five_posts 10000 sort_top 2 (Some ''2_4000'')))
     = Some ([(''p1'', 1)], None, False)"
proof -
  have rt: "\<And>t. new_Date plain_externals (toISOString plain_externals t) = Some t"
    by (simp add: plain_externals_def decimal_Date_show_int)
  have nu: "\<And>t. CHR ''_'' \<notin> set (toISOString plain_externals t)"
    by (simp add: plain_externals_def show_int_no_underscore)
  have s4: "show_int 4 @ ''_'' @ toISOString plain_externals 2000 = ''4_2000''"
    by (simp add: plain_externals_def show_int_def show_nat.simps digit_char_def)
  have s2: "show_int 2 @ ''_'' @ toISOString plain_externals 4000 = ''2_4000''"
    by (simp add: plain_externals_def show_int_def show_nat.simps digit_char_def)
  note th = top_feed_pagination[OF rt nu, of default_feed_config 10000]
  have p1: "page_summary (fst (getFeed plain_externals default_feed_config five_posts 10000 sort_top 2 None))
     = Some ([(''p5'', 5), (''p4'', 4)], Some ''4_2000'', True)"
    using conjunct1[OF th] unfolding s4 .
  have p2: "page_summary (fst (getFeed plain_externals default_feed_config five_posts 10000 sort_top 2 (Some ''4_2000'')))
     = Some ([(''p3'', 3), (''p2'', 2)], Some ''2_4000'', True)"
    using conjunct1[OF conjunct2[OF th]] unfolding s4 s2 .
  have p3: "page_summary (fst (getFeed plain_externals default_feed_config five_posts 10000 sort_top 2 (Some ''2_4000'')))
     = Some ([(''p1'', 1)], None, False)"
    using conjunct1[OF conjunct2[OF conjunct2[OF th]]] unfolding s2 .
  show ?thesis
    by (rule conjI[OF p1 conjI[OF p2 p3]])
qed

text \<open>
  The claim speaks of two pages with \<open>hasMore = false\<close> on the last one: the second page
  of two items still reports more, the post with score 1 being left.
\<close>

theorem top_two_pages_counterexample:
  "page_summary (fst (getFeed plain_externals default_feed_config five_posts 10000 sort_top 2 None))
     = Some ([(''p5'', 5), (''p4'', 4)], Some ''4_2000'', True)
   \<and> page_summary (fst (getFeed plain_externals default_feed_config five_posts 10000 sort_top 2 (Some ''4_2000'')))
     = Some ([(''p3'', 3), (''p2'', 2)], Some ''2_4000'', True)"
  by (simp add: page_summary_def getFeed_def feed_params_def feed_view_def posts_join_users_def
        five_posts_def empty_db_def alice_row_def post_row_def order_desc_def plain_externals_def
        PostRow.extend_def PostWithAuthorRow.fields_def show_int_def show_nat.simps
        digit_char_def Let_def parseInt_def decimal_Date_def is_space_def is_digit_def
        digits_val_def digit_val_def int4_def)

section \<open>Registration of agents\<close>

lemma register_rejects_limit:
  assumes "au_user_type user = human" and "registerAgentSchema b = Inr input"
    and "AgentRepo_countByOwner flt d (au_id user) = Inr n" and "5 \<le> n"
  shows "register_handler ur flt d now user b
           = (bad_request ''You can register a maximum of 5 agents'', d)"
  using assms
  by (simp add: register_handler_def MAX_AGENTS_PER_USER_def show_nat.simps digit_char_def)

lemma register_rejects_taken:
  assumes "au_user_type user = human" and "registerAgentSchema b = Inr input"
    and "AgentRepo_countByOwner flt d (au_id user) = Inr n" and "n < 5"
    and "AgentRepo_findById flt d (in_id input) = Inr (Some existing)"
  shows "register_handler ur flt d now user b = (bad_request ''Agent ID already taken'', d)"
  using assms
  by (simp add: register_handler_def MAX_AGENTS_PER_USER_def)

lemma registerAgentSchema_ok:
  assumes "registerAgentSchema b = Inr input"
  shows "in_id input \<noteq> [] \<and> length (in_id input) \<le> 50 \<and> list_all is_handle_char (in_id input)
       \<and> length (in_name input) \<le> 100
       \<and> (case in_model_info input of None \<Rightarrow> True | Some m \<Rightarrow> length m \<le> 255)"
  using assms
  by (auto simp: registerAgentSchema_def split: option.splits if_splits)

lemma register_accepts:
  assumes "au_user_type user = human" and "registerAgentSchema b = Inr input"
    and "AgentRepo_countByOwner flt d (au_id user) = Inr n" and "n < 5"
    and "\<not> flt AgentRepo_findById_call" and "\<not> flt AgentRepo_create_call"
    and "\<not> list_ex (\<lambda>r. ai_id r = toLowerCase (in_id input)) (agent_identities d)"
    and "list_ex (\<lambda>u. u_id u = toLowerCase (au_id user)) (users d)"
    and "length (au_id user) \<le> 64"
    and "UserRepo_create ur (users d) now (in_id input) (in_id input @ ''@agent.chitin.social'')
           agent (Some (in_name input)) = Inr (True, us)"
  shows "register_handler ur flt d now user b
           = (Response 201 (AgentData
                \<lparr>ai_id = toLowerCase (in_id input), ai_owner_id = toLowerCase (au_id user),
                 ai_name = in_name input, ai_description = in_description input,
                 ai_model_info = in_model_info input, ai_created_at = now, ai_updated_at = now,
                 ai_deleted_at = None\<rparr>),
              d\<lparr>agent_identities := agent_identities d @
                   [\<lparr>ai_id = toLowerCase (in_id input), ai_owner_id = toLowerCase (au_id user),
                     ai_name = in_name input, ai_description = in_description input,
                     ai_model_info = in_model_info input, ai_created_at = now, ai_updated_at = now,
                     ai_deleted_at = None\<rparr>],
                 users := us\<rparr>)"
proof -
  have nf: "AgentRepo_findById flt d (in_id input) = Inr None"
    using assms(5,7)
    by (auto simp: AgentRepo_findById_def query_def list_ex_iff find_None_iff)
  show ?thesis
    using assms registerAgentSchema_ok[OF assms(2)] nf
    by (auto simp: register_handler_def MAX_AGENTS_PER_USER_def AgentRepo_create_def Let_def
          split: option.splits)
qed

lemma filter_key_singleton:
  "distinct (map f xs) \<Longrightarrow> x \<in> set xs \<Longrightarrow> filter (\<lambda>y. f y = f x) xs = [x]"
proof (induction xs)
  case Nil
  then show ?case by simp
next
  case (Cons y ys)
  show ?case
  proof (cases "y = x")
    case True
    have "f z \<noteq> f x" if "z \<in> set ys" for z
      using Cons.prems(1) True that by (force simp: image_iff)
    then have "filter (\<lambda>y. f y = f x) ys = []"
      by (simp add: filter_empty_conv)
    then show ?thesis using True by simp
  next
    case False
    then have "x \<in> set ys" using Cons.prems(2) by simp
    moreover from this have "f y \<noteq> f x" using Cons.prems(1) by (force simp: image_iff)
    ultimately show ?thesis using Cons by simp
  qed
qed

lemma softDelete_count:
  assumes "distinct (map ai_id xs)" and "r0 \<in> set xs" and "ai_id r0 = a"
    and "ai_deleted_at r0 = None" and "ai_owner_id r0 = ow"
  shows "Suc (length (filter (\<lambda>r. ai_owner_id r = ow \<and> ai_deleted_at r = None)
                 (map (\<lambda>r. if ai_id r = a \<and> ai_deleted_at r = None
                            then r\<lparr>ai_deleted_at := Some now\<rparr> else r) xs)))
         = length (filter (\<lambda>r. ai_owner_id r = ow \<and> ai_deleted_at r = None) xs)"
proof -
  let ?P = "\<lambda>r. ai_owner_id r = ow \<and> ai_deleted_at r = None"
  let ?f = "\<lambda>r. if ai_id r = a \<and> ai_deleted_at r = None then r\<lparr>ai_deleted_at := Some now\<rparr> else r"
  have pf: "(?P \<circ> ?f) = (\<lambda>r. ?P r \<and> ai_id r \<noteq> a)"
    by (auto simp: fun_eq_iff)
  have one: "filter (\<lambda>r. ai_id r = a) xs = [r0]"
    using filter_key_singleton[OF assms(1,2)] assms(3) by simp
  have "filter (\<lambda>r. ?P r \<and> ai_id r = a) xs = filter ?P (filter (\<lambda>r. ai_id r = a) xs)"
    by (simp add: conj_commute)
  also have "\<dots> = [r0]"
    using assms(4,5) by (simp add: one)
  finally have hit: "length (filter (\<lambda>r. ?P r \<and> ai_id r = a) xs) = 1"
    by simp
  have "length (filter ?P xs)
          = length (filter (\<lambda>r. ?P r \<and> ai_id r = a) xs) + length (filter (\<lambda>r. ?P r \<and> ai_id r \<noteq> a) xs)"
    by (induction xs) auto
  then have "Suc (length (filter (\<lambda>r. ?P r \<and> ai_id r \<noteq> a) xs)) = length (filter ?P xs)"
    using hit by simp
  moreover have "length (filter ?P (map ?f xs)) = length (filter (?P \<circ> ?f) xs)"
    by (simp add: filter_map)
  ultimately show ?thesis
    by (simp only: pf)
qed

lemma softDelete_result:
  assumes "AgentRepo_softDelete flt d now i = Inr (b, d1)"
  shows "agent_identities d1 =
           map (\<lambda>r. if ai_id r = toLowerCase i \<and> ai_deleted_at r = None
                     then r\<lparr>ai_deleted_at := Some now\<rparr> else r) (agent_identities d)
       \<and> users d1 = users d"
  using assms by (auto simp: AgentRepo_softDelete_def Let_def split: if_splits)

lemma revokeAll_result:
  assumes "AgentRepo_revokeAllTokens flt d now a = Inr (n, d2)"
  shows "agent_identities d2 = agent_identities d \<and> users d2 = users d"
  using assms by (auto simp: AgentRepo_revokeAllTokens_def Let_def split: if_splits)

lemma delete_handler_ok:
  assumes "delete_handler ur flt d now user agentId = (Response 200 m, d')"
  shows "\<exists>ag. AgentRepo_findById flt d agentId = Inr (Some ag) \<and> ai_owner_id ag = au_id user
            \<and> agent_identities d' =
                map (\<lambda>r. if ai_id r = toLowerCase agentId \<and> ai_deleted_at r = None
                          then r\<lparr>ai_deleted_at := Some now\<rparr> else r) (agent_identities d)"
proof (cases "AgentRepo_findById flt d agentId")
  case (Inl e)
  then show ?thesis using assms by (simp add: delete_handler_def internal_error_def)
next
  case (Inr found)
  show ?thesis
  proof (cases found)
    case None
    then show ?thesis using assms Inr by (simp add: delete_handler_def agent_not_found_def)
  next
    case (Some ag)
    show ?thesis
    proof (cases "ai_owner_id ag = au_id user")
      case False
      then show ?thesis using assms Inr Some by (simp add: delete_handler_def)
    next
      case True
      show ?thesis
      proof (cases "AgentRepo_softDelete flt d now agentId")
        case (Inl e)
        then show ?thesis using assms Inr Some True by (simp add: delete_handler_def internal_error_def)
      next
        case sd: (Inr res)
        obtain deleted d1 where res: "res = (deleted, d1)" by (cases res)
        note s1 = softDelete_result[OF sd[unfolded res]]
        show ?thesis
        proof (cases "UserRepo_softDelete ur (users d1) now agentId")
          case (Inl e)
          then show ?thesis using assms Inr Some True sd res
            by (simp add: delete_handler_def internal_error_def)
        next
          case us: (Inr ures)
          obtain gone us' where ures: "ures = (gone, us')" by (cases ures)
          show ?thesis
          proof (cases "AgentRepo_revokeAllTokens flt (d1\<lparr>users := us'\<rparr>) now agentId")
            case (Inl e)
            then show ?thesis using assms Inr Some True sd res us ures
              by (simp add: delete_handler_def internal_error_def)
          next
            case rv: (Inr rres)
            obtain n d2 where rres: "rres = (n, d2)" by (cases rres)
            have "d' = d2"
              using assms Inr Some True sd res us ures rv rres by (simp add: delete_handler_def)
            moreover have "agent_identities d2 = agent_identities d1"
              using revokeAll_result[OF rv[unfolded rres]] by simp
            ultimately show ?thesis using Inr Some True s1 by simp
          qed
        qed
      qed
    qed
  qed
qed

lemma delete_frees_slot:
  assumes "delete_handler ur flt d now user agentId = (Response 200 m, d')"
    and "distinct (map ai_id (agent_identities d))"
    and "toLowerCase (au_id user) = au_id user"
    and "AgentRepo_countByOwner flt d (au_id user) = Inr n"
  shows "AgentRepo_countByOwner flt d' (au_id user) = Inr (n - 1) \<and> 0 < n"
proof -
  obtain ag where ag: "AgentRepo_findById flt d agentId = Inr (Some ag)"
    and own: "ai_owner_id ag = au_id user"
    and ids: "agent_identities d' =
                map (\<lambda>r. if ai_id r = toLowerCase agentId \<and> ai_deleted_at r = None
                          then r\<lparr>ai_deleted_at := Some now\<rparr> else r) (agent_identities d)"
    using delete_handler_ok[OF assms(1)] by blast
  have nf: "\<not> flt AgentRepo_findById_call"
    using ag by (auto simp: AgentRepo_findById_def query_def split: if_splits)
  have nc: "\<not> flt AgentRepo_countByOwner_call"
    using assms(4) by (auto simp: AgentRepo_countByOwner_def query_def split: if_splits)
  have f: "find (\<lambda>r. ai_id r = toLowerCase agentId \<and> ai_deleted_at r = None) (agent_identities d) = Some ag"
    using ag nf by (simp add: AgentRepo_findById_def query_def)
  then have mem: "ag \<in> set (agent_identities d)" and aid: "ai_id ag = toLowerCase agentId"
    and live: "ai_deleted_at ag = None"
    by (auto simp: find_Some_iff)
  have n: "n = length (filter (\<lambda>r. ai_owner_id r = au_id user \<and> ai_deleted_at r = None) (agent_identities d))"
    using assms(3,4) nc by (simp add: AgentRepo_countByOwner_def query_def)
  have "Suc (length (filter (\<lambda>r. ai_owner_id r = au_id user \<and> ai_deleted_at r = None)
                      (agent_identities d'))) = n"
    unfolding ids n by (rule softDelete_count[OF assms(2) mem aid live own])
  then have "length (filter (\<lambda>r. ai_owner_id r = au_id user \<and> ai_deleted_at r = None)
                      (agent_identities d')) = n - 1 \<and> 0 < n"
    by arith
  then show ?thesis
    using nc assms(3) by (simp add: AgentRepo_countByOwner_def query_def)
qed

lemma findById_case_insensitive:
  "toLowerCase i = toLowerCase j \<Longrightarrow> AgentRepo_findById flt d i = AgentRepo_findById flt d j"
  by (simp add: AgentRepo_findById_def)

lemma full_store_delete:
  "delete_handler users_table no_faults full_store 2000 alice ''Bot-1''
     = (Response 200 (Message ''Agent deleted''), after_delete)"
  by (simp add: delete_handler_def AgentRepo_findById_def AgentRepo_softDelete_def
        AgentRepo_revokeAllTokens_def query_def no_faults_def users_table_def full_store_def
        after_delete_def empty_db_def agent_row_def alice_def alice_row_def toLowerCase_def
        lower_char_def Let_def)

text \<open>
  Claim C5, as the code has it. For a human owner who has five active agents, a valid
  registration is answered 400 \<open>Bad Request\<close> and the store is unchanged; so is, below
  the limit, a registration under a handle that an active agent carries, in whatever
  case the handle is spelled (the code has no response of its own for a conflict).
  After one of the five agents has been deleted by \<open>DELETE /agents/:agentId\<close>, a
  registration of that owner under a handle that no row of the table carries, active
  or soft-deleted, is answered 201 and adds the identity, when the paired user account
  is created. Agent ids are the table's primary key; the owner's id is in lower case,
  at most 64 characters long and a key of \<open>users\<close>.
\<close>

theorem register_agent_limit:
  assumes "au_user_type user = human"
    and "toLowerCase (au_id user) = au_id user" and "length (au_id user) \<le> 64"
    and "distinct (map ai_id (agent_identities d))"
    and "registerAgentSchema b = Inr input"
    and "AgentRepo_countByOwner flt d (au_id user) = Inr 5"
    and "delete_handler ur flt d t1 user agentId = (Response 200 m, d')"
    and "\<not> flt AgentRepo_create_call"
    and "\<not> list_ex (\<lambda>r. ai_id r = toLowerCase (in_id input)) (agent_identities d')"
    and "list_ex (\<lambda>u. u_id u = au_id user) (users d')"
    and "UserRepo_create ur (users d') t2 (in_id input) (in_id input @ ''@agent.chitin.social'')
           agent (Some (in_name input)) = Inr (True, us)"
  shows "register_handler ur flt d t0 user b
           = (Response 400 (ApiError ''Bad Request'' ''You can register a maximum of 5 agents''), d)
       \<and> (\<exists>row. register_handler ur flt d' t2 user b
                   = (Response 201 (AgentData row),
                      d'\<lparr>agent_identities := agent_identities d' @ [row], users := us\<rparr>)
                 \<and> ai_id row = toLowerCase (in_id input) \<and> ai_owner_id row = au_id user
                 \<and> ai_deleted_at row = None)
       \<and> (\<forall>d2 t n existing.
             AgentRepo_countByOwner flt d2 (au_id user) = Inr n \<longrightarrow> n < 5
             \<longrightarrow> AgentRepo_findById flt d2 (in_id input) = Inr (Some existing)
             \<longrightarrow> register_handler ur flt d2 t user b
                   = (Response 400 (ApiError ''Bad Request'' ''Agent ID already taken''), d2))
       \<and> (\<forall>d2 i j. toLowerCase i = toLowerCase j
             \<longrightarrow> AgentRepo_findById flt d2 i = AgentRepo_findById flt d2 j)"
proof -
  have four: "AgentRepo_countByOwner flt d' (au_id user) = Inr 4"
    using delete_frees_slot[OF assms(7,4,2,6)] by simp
  have nf: "\<not> flt AgentRepo_findById_call"
    using delete_handler_ok[OF assms(7)]
    by (auto simp: AgentRepo_findById_def query_def split: if_splits)
  have own: "list_ex (\<lambda>u. u_id u = toLowerCase (au_id user)) (users d')"
    using assms(10) by (simp add: assms(2))
  have acc: "register_handler ur flt d' t2 user b
           = (Response 201 (AgentData
                \<lparr>ai_id = toLowerCase (in_id input), ai_owner_id = toLowerCase (au_id user),
                 ai_name = in_name input, ai_description = in_description input,
                 ai_model_info = in_model_info input, ai_created_at = t2, ai_updated_at = t2,
                 ai_deleted_at = None\<rparr>),
              d'\<lparr>agent_identities := agent_identities d' @
                   [\<lparr>ai_id = toLowerCase (in_id input), ai_owner_id = toLowerCase (au_id user),
                     ai_name = in_name input, ai_description = in_description input,
                     ai_model_info = in_model_info input, ai_created_at = t2, ai_updated_at = t2,
                     ai_deleted_at = None\<rparr>],
                 users := us\<rparr>)"
    by (rule register_accepts[OF assms(1,5) four _ nf assms(8,9) own assms(3,11)]) simp
  have rej: "register_handler ur flt d t0 user b
           = (Response 400 (ApiError ''Bad Request'' ''You can register a maximum of 5 agents''), d)"
    using register_rejects_limit[OF assms(1,5,6)] by (simp add: bad_request_def)
  have taken: "register_handler ur flt d2 t user b
                 = (Response 400 (ApiError ''Bad Request'' ''Agent ID already taken''), d2)"
    if "AgentRepo_countByOwner flt d2 (au_id user) = Inr n" and "n < 5"
      and "AgentRepo_findById flt d2 (in_id input) = Inr (Some existing)" for d2 t n existing
    using register_rejects_taken[OF assms(1,5) that] by (simp add: bad_request_def)
  have c2: "\<exists>row. register_handler ur flt d' t2 user b
                   = (Response 201 (AgentData row),
                      d'\<lparr>agent_identities := agent_identities d' @ [row], users := us\<rparr>)
                 \<and> ai_id row = toLowerCase (in_id input) \<and> ai_owner_id row = au_id user
                 \<and> ai_deleted_at row = None"
    unfolding acc by (rule exI[of _ "\<lparr>ai_id = toLowerCase (in_id input),
                 ai_owner_id = toLowerCase (au_id user),
                 ai_name = in_name input, ai_description = in_description input,
                 ai_model_info = in_model_info input, ai_created_at = t2, ai_updated_at = t2,
                 ai_deleted_at = None\<rparr>"]) (simp add: assms(2))
  have c3: "\<forall>d2 t n existing.
             AgentRepo_countByOwner flt d2 (au_id user) = Inr n \<longrightarrow> n < 5
             \<longrightarrow> AgentRepo_findById flt d2 (in_id input) = Inr (Some existing)
             \<longrightarrow> register_handler ur flt d2 t user b
                   = (Response 400 (ApiError ''Bad Request'' ''Agent ID already taken''), d2)"
    using taken by blast
  have c4: "\<forall>d2 i j. toLowerCase i = toLowerCase j
             \<longrightarrow> AgentRepo_findById flt d2 i = AgentRepo_findById flt d2 j"
    using findById_case_insensitive by blast
  show ?thesis
    by (rule conjI[OF rej conjI[OF c2 conjI[OF c3 c4]]])
qed

theorem register_agent_limit_witness:
  "register_handler users_table no_faults full_store 1000 alice (register_body ''bot-6'')
     = (Response 400 (ApiError ''Bad Request'' ''You can register a maximum of 5 agents''), full_store)
   \<and> delete_handler users_table no_faults full_store 2000 alice ''Bot-1''
     = (Response 200 (Message ''Agent deleted''), after_delete)
   \<and> register_handler users_table no_faults after_delete 3000 alice (register_body ''bot-6'')
     = (Response 201 (AgentData bot6_row),
        after_delete\<lparr>agent_identities := agent_identities after_delete @ [bot6_row],
                     users := [alice_row, bot6_user]\<rparr>)
   \<and> register_handler users_table no_faults after_delete 3000 alice (register_body ''BOT-2'')
     = (Response 400 (ApiError ''Bad Request'' ''Agent ID already taken''), after_delete)"
proof -
  let ?input = "\<lparr>in_id = ''bot-6'', in_name = ''Agent'', in_description = None, in_model_info = None\<rparr>"
  have h1: "au_user_type alice = human" and h2: "toLowerCase (au_id alice) = au_id alice"
    and h3: "length (au_id alice) \<le> 64"
    by (simp_all add: alice_def toLowerCase_def lower_char_def)
  have h4: "distinct (map ai_id (agent_identities full_store))"
    by (simp add: full_store_def empty_db_def agent_row_def)
  have h5: "registerAgentSchema (register_body ''bot-6'') = Inr ?input"
    by (simp add: registerAgentSchema_def register_body_def is_handle_char_def)
  have h6: "AgentRepo_countByOwner no_faults full_store (au_id alice) = Inr 5"
    by (simp add: AgentRepo_countByOwner_def query_def no_faults_def full_store_def empty_db_def
          agent_row_def alice_def toLowerCase_def lower_char_def)
  have h8: "\<not> no_faults AgentRepo_create_call"
    by (simp add: no_faults_def)
  have h9: "\<not> list_ex (\<lambda>r. ai_id r = toLowerCase (in_id ?input)) (agent_identities after_delete)"
    by (simp add: after_delete_def full_store_def empty_db_def agent_row_def toLowerCase_def
          lower_char_def)
  have h10: "list_ex (\<lambda>u. u_id u = au_id alice) (users after_delete)"
    by (simp add: after_delete_def full_store_def empty_db_def alice_row_def alice_def)
  have h11: "UserRepo_create users_table (users after_delete) 3000 (in_id ?input)
               (in_id ?input @ ''@agent.chitin.social'') agent (Some (in_name ?input))
             = Inr (True, [alice_row, bot6_user])"
    by (simp add: users_table_def after_delete_def full_store_def empty_db_def alice_row_def
          bot6_user_def)
  have taken: "register_handler users_table no_faults after_delete 3000 alice (register_body ''BOT-2'')
     = (Response 400 (ApiError ''Bad Request'' ''Agent ID already taken''), after_delete)"
    by (simp add: register_handler_def registerAgentSchema_def register_body_def
          is_handle_char_def AgentRepo_countByOwner_def AgentRepo_findById_def query_def
          no_faults_def MAX_AGENTS_PER_USER_def bad_request_def after_delete_def full_store_def
          empty_db_def agent_row_def alice_def toLowerCase_def lower_char_def)
  have acc: "register_handler users_table no_faults after_delete 3000 alice (register_body ''bot-6'')
     = (Response 201 (AgentData bot6_row),
        after_delete\<lparr>agent_identities := agent_identities after_delete @ [bot6_row],
                     users := [alice_row, bot6_user]\<rparr>)"
    by (simp add: register_handler_def registerAgentSchema_def register_body_def
          is_handle_char_def AgentRepo_countByOwner_def AgentRepo_findById_def AgentRepo_create_def
          query_def no_faults_def MAX_AGENTS_PER_USER_def users_table_def after_delete_def
          full_store_def empty_db_def agent_row_def alice_def alice_row_def bot6_row_def
          bot6_user_def toLowerCase_def lower_char_def Let_def)
  have rej: "register_handler users_table no_faults full_store 1000 alice (register_body ''bot-6'')
     = (Response 400 (ApiError ''Bad Request'' ''You can register a maximum of 5 agents''), full_store)"
    by (rule conjunct1[OF register_agent_limit[OF h1 h2 h3 h4 h5 h6 full_store_delete h8 h9 h10 h11]])
  show ?thesis
    by (rule conjI[OF rej conjI[OF full_store_delete conjI[OF acc taken]]])
qed

text \<open>
  The claim promises a Conflict and a registration that succeeds once an agent has been
  soft-deleted. The sixth registration is answered 400 \<open>Bad Request\<close>; and with
  \<open>bot-1\<close> deleted, registering \<open>bot-1\<close> again passes the check for an active holder of
  the handle, meets the primary key of the soft-deleted row and is answered 500.
\<close>

theorem register_agent_limit_counterexample:
  "register_handler users_table no_faults full_store 1000 alice (register_body ''bot-6'')
     = (Response 400 (ApiError ''Bad Request'' ''You can register a maximum of 5 agents''), full_store)
   \<and> delete_handler users_table no_faults full_store 2000 alice ''Bot-1''
     = (Response 200 (Message ''Agent deleted''), after_delete)
   \<and> register_handler users_table no_faults after_delete 3000 alice (register_body ''bot-1'')
     = (Response 500 (ApiError ''Internal Server Error'' ''Failed to register agent''), after_delete)"
proof -
  have a: "register_handler users_table no_faults full_store 1000 alice (register_body ''bot-6'')
     = (Response 400 (ApiError ''Bad Request'' ''You can register a maximum of 5 agents''), full_store)"
    by (simp add: register_handler_def registerAgentSchema_def register_body_def
          is_handle_char_def AgentRepo_countByOwner_def query_def no_faults_def
          MAX_AGENTS_PER_USER_def bad_request_def full_store_def empty_db_def agent_row_def
          alice_def toLowerCase_def lower_char_def show_nat.simps digit_char_def)
  have c: "register_handler users_table no_faults after_delete 3000 alice (register_body ''bot-1'')
     = (Response 500 (ApiError ''Internal Server Error'' ''Failed to register agent''), after_delete)"
    by (simp add: register_handler_def registerAgentSchema_def register_body_def
          is_handle_char_def AgentRepo_countByOwner_def AgentRepo_findById_def AgentRepo_create_def
          query_def no_faults_def MAX_AGENTS_PER_USER_def internal_error_def after_delete_def
          full_store_def empty_db_def agent_row_def alice_def toLowerCase_def lower_char_def)
  show ?thesis
    using a full_store_delete c by simp
qed

section \<open>Record, then return\<close>


lemma issueToken_no_credential:
  assumes "issueToken_handler flt secret d now jti rid user agentId = (Response n b, d')"
    and "n \<noteq> 201"
  shows "d' = d \<and> (\<exists>e m. b = ApiError e m)"
  using assms
  by (auto simp: issueToken_handler_def internal_error_def agent_not_found_def Let_def
      split: sum.splits option.splits if_splits)

text \<open>
  Claim C6. Whatever \<open>POST /agents/:agentId/token\<close> answers, a credential is in the
  answer only on the path on which \<open>createToken\<close> has returned: the store handed back
  with the credential is the store \<open>createToken\<close> produced, it holds a row with the
  jti, the expiry of one hour and no revocation, the jti was not in the table before,
  the jti claim of the credential is this jti, and validating the jti against that
  store already succeeds. Every other answer is an error without a credential and
  leaves the store as it was.
\<close>

theorem issueToken_records_before_return:
  assumes "issueToken_handler flt secret d now jti rid user agentId = (Response n b, d')"
  shows "(case b of
            TokenData tok expiresAt j \<Rightarrow>
              n = 201 \<and> j = jti \<and> expiresAt = now + 60 * 60 * 1000
              \<and> AgentRepo_createToken flt d now rid agentId jti expiresAt
                   = Inr (token_row rid (toLowerCase agentId) jti expiresAt None now, d')
              \<and> list_ex (\<lambda>r. tk_jti r = jti \<and> tk_expires_at r = expiresAt \<and> tk_revoked_at r = None)
                   (agent_tokens d')
              \<and> \<not> list_ex (\<lambda>r. tk_jti r = jti) (agent_tokens d)
              \<and> credential_jti tok = (if jti = [] then None else Some jti)
              \<and> AgentRepo_isTokenValid no_faults d' now jti = Inr True
          | ApiError e m \<Rightarrow> n \<noteq> 201 \<and> d' = d
          | _ \<Rightarrow> False)"
proof (cases "n = 201")
  case True
  then have r: "issueToken_handler flt secret d now jti rid user agentId = (Response 201 b, d')"
    using assms by simp
  note c = issueToken_created[OF r]
  have ins: "AgentRepo_createToken flt d now rid agentId jti (now + 3600000)
               = Inr (token_row rid (toLowerCase agentId) jti (now + 3600000) None now, d')"
    using r
    by (auto simp: issueToken_handler_def AgentRepo_createToken_def internal_error_def
          agent_not_found_def token_row_def Let_def
        split: sum.splits option.splits if_splits)
  show ?thesis
    using c True ins
    by (simp add: generateAuthToken_def AgentRepo_isTokenValid_def query_def no_faults_def
          token_row_def)
next
  case False
  then show ?thesis
    using issueToken_no_credential[OF assms False] by auto
qed

theorem issueToken_records_before_return_witness:
  "issueToken_handler no_faults ''s3cret'' store0 1000 ''jti-1'' ''row-1'' alice ''Bot''
     = (Response 201 (TokenData token0 3601000 ''jti-1''), store1)
   \<and> AgentRepo_createToken no_faults store0 1000 ''row-1'' ''Bot'' ''jti-1'' 3601000
       = Inr (token_row ''row-1'' ''bot'' ''jti-1'' 3601000 None 1000, store1)
   \<and> AgentRepo_isTokenValid no_faults store1 1000 ''jti-1'' = Inr True
   \<and> credential_jti token0 = Some ''jti-1''
   \<and> issueToken_handler insert_down ''s3cret'' store0 1000 ''jti-1'' ''row-1'' alice ''Bot''
       = (Response 500 (ApiError ''Internal Server Error'' ''Failed to generate token''), store0)"
proof -
  have lc: "toLowerCase ''Bot'' = ''bot''"
    by (simp add: toLowerCase_def lower_char_def)
  have down: "issueToken_handler insert_down ''s3cret'' store0 1000 ''jti-1'' ''row-1'' alice ''Bot''
       = (Response 500 (ApiError ''Internal Server Error'' ''Failed to generate token''), store0)"
    by (simp add: issueToken_handler_def AgentRepo_findById_def AgentRepo_createToken_def query_def
          insert_down_def internal_error_def store0_def empty_db_def agent_row_def alice_def
          toLowerCase_def lower_char_def Let_def)
  from issueToken_records_before_return[OF issue_at_store0]
  show ?thesis
    using issue_at_store0 down by (simp add: lc)
qed

section \<open>Replies and their parents\<close>

text \<open>
  Text of the routes' id pattern is read by the database, and the value it spells is
  the text in lower case.
\<close>

lemma read_bytes_numeral:
  "read_bytes (numeral k) src =
     (case src of
        a # b # rest \<Rightarrow>
          if is_hex a \<and> is_hex b then
            (let i = 15 - pred_numeral k;
                 rest' = (case rest of
                            c # r \<Rightarrow> if c = CHR ''-'' \<and> odd i \<and> i < 15 then r else rest
                          | [] \<Rightarrow> rest)
             in case read_bytes (pred_numeral k) rest' of
                  None \<Rightarrow> None
                | Some (ds, r) \<Rightarrow> Some (a # b # ds, r))
          else None
      | _ \<Rightarrow> None)"
  by (simp add: numeral_eq_Suc)

lemma read_bytes_1:
  "read_bytes (Suc 0) src =
     (case src of
        a # b # rest \<Rightarrow> if is_hex a \<and> is_hex b then Some ([a, b], rest) else None
      | _ \<Rightarrow> None)"
  by (simp split: list.splits)

lemma split_on_nonempty: "split_on c s \<noteq> []"
  by (induction s) (auto split: list.splits)

lemma split_on_single: "split_on c s = [p] \<Longrightarrow> s = p"
  by (induction s arbitrary: p) (auto simp: split_on_nonempty split: if_splits list.splits)

lemma split_on_cons:
  "split_on c s = p # q # qs \<Longrightarrow> \<exists>t. s = p @ c # t \<and> split_on c t = q # qs"
  by (induction s arbitrary: p) (auto split: if_splits list.splits)

lemma is_hex_not_hyphen: "is_hex c \<Longrightarrow> c \<noteq> CHR ''-''"
  by (auto simp: is_hex_def)

lemma len4: "length xs = 4 \<Longrightarrow> \<exists>a b c d. xs = [a, b, c, d]"
  by (auto simp: numeral_eq_Suc length_Suc_conv)

lemma len8: "length xs = 8 \<Longrightarrow> \<exists>a b c d e f g h. xs = [a, b, c, d, e, f, g, h]"
  by (auto simp: numeral_eq_Suc length_Suc_conv)

lemma len12: "length xs = 12 \<Longrightarrow> \<exists>a b c d e f g h i j k l. xs = [a, b, c, d, e, f, g, h, i, j, k, l]"
  by (auto simp: numeral_eq_Suc length_Suc_conv)

lemma is_uuid_shape:
  assumes "is_uuid s"
  shows "\<exists>p1 p2 p3 p4 p5. s = p1 @ CHR ''-'' # p2 @ CHR ''-'' # p3 @ CHR ''-'' # p4 @ CHR ''-'' # p5
           \<and> length p1 = 8 \<and> length p2 = 4 \<and> length p3 = 4 \<and> length p4 = 4 \<and> length p5 = 12
           \<and> list_all is_hex (p1 @ p2 @ p3 @ p4 @ p5)"
proof -
  from assms have l: "map length (split_on CHR ''-'' s) = [8, 4, 4, 4, 12]"
    and h: "list_all is_hex (concat (split_on CHR ''-'' s))"
    by (simp_all add: is_uuid_def)
  from l obtain p1 p2 p3 p4 p5 where sp: "split_on CHR ''-'' s = [p1, p2, p3, p4, p5]"
    and ln: "length p1 = 8" "length p2 = 4" "length p3 = 4" "length p4 = 4" "length p5 = 12"
    by (auto simp: map_eq_Cons_conv)
  from split_on_cons[OF sp] obtain t1 where t1: "s = p1 @ CHR ''-'' # t1"
    and s1: "split_on CHR ''-'' t1 = [p2, p3, p4, p5]" by blast
  from split_on_cons[OF s1] obtain t2 where t2: "t1 = p2 @ CHR ''-'' # t2"
    and s2: "split_on CHR ''-'' t2 = [p3, p4, p5]" by blast
  from split_on_cons[OF s2] obtain t3 where t3: "t2 = p3 @ CHR ''-'' # t3"
    and s3: "split_on CHR ''-'' t3 = [p4, p5]" by blast
  from split_on_cons[OF s3] obtain t4 where t4: "t3 = p4 @ CHR ''-'' # t4"
    and s4: "split_on CHR ''-'' t4 = [p5]" by blast
  have t5: "t4 = p5" by (rule split_on_single[OF s4])
  have "list_all is_hex (p1 @ p2 @ p3 @ p4 @ p5)"
    using h by (simp add: sp)
  then show ?thesis
    using t1 t2 t3 t4 t5 ln by blast
qed

lemma is_uuid_uuid_in:
  assumes "is_uuid s"
  shows "uuid_in s = Some (toLowerCase s)"
proof -
  from is_uuid_shape[OF assms] obtain p1 p2 p3 p4 p5 where
    s: "s = p1 @ CHR ''-'' # p2 @ CHR ''-'' # p3 @ CHR ''-'' # p4 @ CHR ''-'' # p5"
    and l1: "length p1 = 8" and l2: "length p2 = 4" and l3: "length p3 = 4" and l4: "length p4 = 4"
    and l5: "length p5 = 12" and h: "list_all is_hex (p1 @ p2 @ p3 @ p4 @ p5)"
    by blast
  from len8[OF l1] obtain a1 a2 a3 a4 a5 a6 a7 a8 where p1: "p1 = [a1, a2, a3, a4, a5, a6, a7, a8]"
    by blast
  from len4[OF l2] obtain b1 b2 b3 b4 where p2: "p2 = [b1, b2, b3, b4]" by blast
  from len4[OF l3] obtain c1 c2 c3 c4 where p3: "p3 = [c1, c2, c3, c4]" by blast
  from len4[OF l4] obtain d1 d2 d3 d4 where p4: "p4 = [d1, d2, d3, d4]" by blast
  from len12[OF l5] obtain e1 e2 e3 e4 e5 e6 e7 e8 e9 e10 e11 e12 where
    p5: "p5 = [e1, e2, e3, e4, e5, e6, e7, e8, e9, e10, e11, e12]" by blast
  have hx: "is_hex a1" "is_hex a2" "is_hex a3" "is_hex a4" "is_hex a5" "is_hex a6" "is_hex a7"
    "is_hex a8" "is_hex b1" "is_hex b2" "is_hex b3" "is_hex b4" "is_hex c1" "is_hex c2"
    "is_hex c3" "is_hex c4" "is_hex d1" "is_hex d2" "is_hex d3" "is_hex d4" "is_hex e1"
    "is_hex e2" "is_hex e3" "is_hex e4" "is_hex e5" "is_hex e6" "is_hex e7" "is_hex e8"
    "is_hex e9" "is_hex e10" "is_hex e11" "is_hex e12"
    using h by (simp_all add: p1 p2 p3 p4 p5)
  have nh: "a5 \<noteq> CHR ''-''" "b1 \<noteq> CHR ''-''" "c1 \<noteq> CHR ''-''" "d1 \<noteq> CHR ''-''"
    "e1 \<noteq> CHR ''-''" "e5 \<noteq> CHR ''-''" "e9 \<noteq> CHR ''-''"
    using hx by (simp_all add: is_hex_not_hyphen)
  have nb: "a1 \<noteq> CHR ''{''"
    using hx(1) by (auto simp: is_hex_def)
  have rb: "read_bytes 16 (a1 # a2 # a3 # a4 # a5 # a6 # a7 # a8 # CHR ''-'' # b1 # b2 # b3 # b4
              # CHR ''-'' # c1 # c2 # c3 # c4 # CHR ''-'' # d1 # d2 # d3 # d4 # CHR ''-''
              # [e1, e2, e3, e4, e5, e6, e7, e8, e9, e10, e11, e12])
            = Some ([a1, a2, a3, a4, a5, a6, a7, a8, b1, b2, b3, b4, c1, c2, c3, c4, d1, d2, d3, d4,
                     e1, e2, e3, e4, e5, e6, e7, e8, e9, e10, e11, e12], [])"
    by (simp add: read_bytes_numeral read_bytes_1 hx nh Let_def del: read_bytes.simps split del: if_split)
  have lh: "lower_char CHR ''-'' = CHR ''-''"
    by (simp add: lower_char_def)
  show ?thesis
    using nb
    by (simp add: lh s p1 p2 p3 p4 p5 uuid_in_def uuid_out_def rb toLowerCase_def Let_def
          del: read_bytes.simps split del: if_split)
qed

lemmas uuid_eval = uuid_in_def uuid_out_def is_hex_def toLowerCase_def lower_char_def
  read_bytes_numeral read_bytes_1 Let_def

lemma uuid_in_ids:
  "uuid_in post_A = Some post_A" "uuid_in post_B = Some post_B"
  "uuid_in reply_1 = Some reply_1" "uuid_in reply_2 = Some reply_2"
  "uuid_in reply_1_upper = Some reply_1" "uuid_in post_A_upper = Some post_A"
  by (simp_all add: uuid_eval post_A_def post_B_def reply_1_def reply_2_def reply_1_upper_def
        post_A_upper_def del: read_bytes.simps)

lemmas uuid_in_texts =
  uuid_in_ids[unfolded post_A_def post_B_def reply_1_def reply_2_def reply_1_upper_def post_A_upper_def]

lemmas reply_eval = createReply_handler_def createReplySchema_def bad_uuid_def is_uuid_def
  is_hex_def PostRepo_findById_def ReplyRepo_findById_def query_def no_faults_def
  bad_request_def thread_store_def empty_db_def post_row_def reply_row_def reply_body_def
  post_A_def post_B_def reply_1_def reply_2_def reply_1_upper_def post_A_upper_def
  uuid_in_texts Let_def


lemma uuid_param_Some:
  "uuid_param (Some s) = Inr x \<Longrightarrow> x = uuid_in s \<and> uuid_in s \<noteq> None"
  by (cases "uuid_in s") (auto simp: uuid_param_def)

lemma uuid_param_None: "uuid_param None = Inr None"
  by (simp add: uuid_param_def)

lemma ReplyRepo_create_adds:
  assumes "ReplyRepo_create sha256 flt d now new_id postId authorId input = Inr (reply, d')"
  shows "d' = d\<lparr>replies := replies d @ [reply]\<rparr> \<and> r_id reply = new_id
       \<and> Some (r_post_id reply) = uuid_in postId
       \<and> uuid_param (ri_parent_reply_id input) = Inr (r_parent_reply_id reply)
       \<and> r_deleted_at reply = None"
proof -
  from assms obtain depth where "parent_depth d (ri_parent_reply_id input) = Inr depth"
    by (cases "parent_depth d (ri_parent_reply_id input)")
       (auto simp: ReplyRepo_create_def split: if_splits)
  moreover from assms obtain path where "reply_path d (ri_parent_reply_id input) new_id = Inr path"
    by (cases "reply_path d (ri_parent_reply_id input) new_id")
       (auto simp: ReplyRepo_create_def split: if_splits sum.splits option.splits)
  ultimately show ?thesis
    using assms
    by (auto simp: ReplyRepo_create_def Let_def split: if_splits option.splits sum.splits)
qed

lemma PostRepo_findById_Some:
  assumes "PostRepo_findById flt d i = Inr (Some post)"
  shows "post \<in> set (posts d) \<and> p_deleted_at post = None \<and> Some (p_id post) = uuid_in i"
  using assms
  by (auto simp: PostRepo_findById_def query_def find_Some_iff split: option.splits if_splits)

lemma ReplyRepo_findById_Some:
  assumes "ReplyRepo_findById flt d i = Inr (Some parent)"
  shows "parent \<in> set (replies d) \<and> r_deleted_at parent = None \<and> Some (r_id parent) = uuid_in i"
  using assms
  by (auto simp: ReplyRepo_findById_def query_def find_Some_iff split: option.splits if_splits)

lemma createReply_created:
  assumes "createReply_handler sha256 flt d now new_id q user postId b = (Response 201 bd, d', jobs)"
  shows "\<exists>input reply post. is_uuid postId \<and> createReplySchema b = Inr input
           \<and> PostRepo_findById flt d postId = Inr (Some post)
           \<and> ReplyRepo_create sha256 flt d now new_id postId (au_id user) input = Inr (reply, d')
           \<and> bd = ReplyData reply
           \<and> (\<forall>pid. ri_parent_reply_id input = Some pid \<longrightarrow> pid \<noteq> [] \<longrightarrow>
                 (\<exists>parent. ReplyRepo_findById flt d pid = Inr (Some parent)
                    \<and> r_post_id parent = postId))"
proof -
  have u: "is_uuid postId"
    using assms by (auto simp: createReply_handler_def bad_request_def split: if_splits)
  obtain input where input: "createReplySchema b = Inr input"
    using assms u by (cases "createReplySchema b") (auto simp: createReply_handler_def)
  obtain post where post: "PostRepo_findById flt d postId = Inr (Some post)"
    using assms u input
    by (cases "PostRepo_findById flt d postId")
       (auto simp: createReply_handler_def internal_error_def split: option.splits)
  let ?check = "(if truthy (ri_parent_reply_id input) then
                           (case ReplyRepo_findById flt d
                                   (case ri_parent_reply_id input of Some i \<Rightarrow> i | None \<Rightarrow> []) of
                              Inl e \<Rightarrow> Some (internal_error ''Failed to create reply'')
                            | Inr None \<Rightarrow>
                                Some (Response 404 (ApiError ''Not Found'' ''Parent reply not found''))
                            | Inr (Some parentReply) \<Rightarrow>
                                if r_post_id parentReply \<noteq> postId then
                                  Some (bad_request ''Parent reply does not belong to this post'')
                                else None)
                         else None)"
  have step: "createReply_handler sha256 flt d now new_id q user postId b
        = (case ?check of
             Some rejection \<Rightarrow> (rejection, d, [])
           | None \<Rightarrow>
               (case ReplyRepo_create sha256 flt d now new_id postId (au_id user) input of
                  Inl e \<Rightarrow> (internal_error ''Failed to create reply'', d, [])
                | Inr (reply, d') \<Rightarrow>
                    (Response 201 (ReplyData reply), d',
                     enqueueAnalysis q reply_source (r_id reply) (ri_content input))))"
    using u input post by (simp add: createReply_handler_def)
  have chk: "?check = None"
  proof (cases ?check)
    case None then show ?thesis .
  next
    case (Some r)
    have "r \<noteq> Response 201 bd"
      using Some
      by (auto simp: internal_error_def bad_request_def split: if_splits sum.splits option.splits)
    then show ?thesis using assms Some unfolding step by simp
  qed
  obtain reply where cr: "ReplyRepo_create sha256 flt d now new_id postId (au_id user) input = Inr (reply, d')"
    and bd: "bd = ReplyData reply"
    using assms unfolding step chk
    by (cases "ReplyRepo_create sha256 flt d now new_id postId (au_id user) input")
       (auto simp: internal_error_def)
  have par: "\<exists>parent. ReplyRepo_findById flt d pid = Inr (Some parent) \<and> r_post_id parent = postId"
    if "ri_parent_reply_id input = Some pid" and "pid \<noteq> []" for pid
    using chk that by (auto split: sum.splits option.splits if_splits)
  show ?thesis
    using u input post cr bd par by blast
qed

lemma createReply_rejected:
  assumes "createReply_handler sha256 flt d now new_id q user postId b = (Response n bd, d', jobs)"
    and "n \<noteq> 201"
  shows "d' = d \<and> jobs = []"
  using assms
  by (auto simp: createReply_handler_def internal_error_def bad_request_def
      split: if_splits sum.splits option.splits)

lemma is_uuid_nonempty: "is_uuid s \<Longrightarrow> s \<noteq> []"
  by (auto simp: is_uuid_def)

lemma createReplySchema_parent:
  assumes "createReplySchema b = Inr input" and "ri_parent_reply_id input = Some pid"
  shows "is_uuid pid"
  using assms
  by (auto simp: createReplySchema_def bad_uuid_def Let_def split: option.splits if_splits)

lemma createReply_parent:
  assumes h: "createReply_handler sha256 flt d now new_id q user postId b = (Response 201 bd, d', jobs)"
    and canon: "\<forall>r \<in> set (replies d). toLowerCase (r_post_id r) = r_post_id r"
  shows "\<exists>input reply post. createReplySchema b = Inr input \<and> bd = ReplyData reply
               \<and> d' = d\<lparr>replies := replies d @ [reply]\<rparr>
               \<and> post \<in> set (posts d) \<and> p_deleted_at post = None
               \<and> p_id post = toLowerCase postId \<and> r_post_id reply = p_id post
               \<and> (ri_parent_reply_id input = None \<longrightarrow> r_parent_reply_id reply = None)
               \<and> (\<forall>pid. ri_parent_reply_id input = Some pid \<longrightarrow>
                     (\<exists>parent \<in> set (replies d). r_id parent = toLowerCase pid
                        \<and> r_deleted_at parent = None \<and> r_post_id parent = r_post_id reply
                        \<and> r_parent_reply_id reply = Some (r_id parent)))"
proof -
  from createReply_created[OF h] obtain input reply post where
    u: "is_uuid postId"
    and input: "createReplySchema b = Inr input"
    and post: "PostRepo_findById flt d postId = Inr (Some post)"
    and cr: "ReplyRepo_create sha256 flt d now new_id postId (au_id user) input = Inr (reply, d')"
    and bd: "bd = ReplyData reply"
    and par: "\<forall>pid. ri_parent_reply_id input = Some pid \<longrightarrow> pid \<noteq> [] \<longrightarrow>
                 (\<exists>parent. ReplyRepo_findById flt d pid = Inr (Some parent)
                    \<and> r_post_id parent = postId)"
    by blast
  note ad = ReplyRepo_create_adds[OF cr]
  note pf = PostRepo_findById_Some[OF post]
  note up = is_uuid_uuid_in[OF u]
  have pi: "p_id post = toLowerCase postId"
    using pf up by simp
  have rp: "r_post_id reply = p_id post"
    using ad pf by (metis option.inject)
  have np: "ri_parent_reply_id input = None \<longrightarrow> r_parent_reply_id reply = None"
    using ad by (auto simp: uuid_param_None)
  have sp: "\<exists>parent \<in> set (replies d). r_id parent = toLowerCase pid
                        \<and> r_deleted_at parent = None \<and> r_post_id parent = r_post_id reply
                        \<and> r_parent_reply_id reply = Some (r_id parent)"
    if pid: "ri_parent_reply_id input = Some pid" for pid
  proof -
    have upid: "is_uuid pid" by (rule createReplySchema_parent[OF input pid])
    then have "pid \<noteq> []" by (rule is_uuid_nonempty)
    with par pid obtain parent where f: "ReplyRepo_findById flt d pid = Inr (Some parent)"
      and pp: "r_post_id parent = postId" by blast
    note rf = ReplyRepo_findById_Some[OF f]
    have ri: "r_id parent = toLowerCase pid"
      using rf is_uuid_uuid_in[OF upid] by simp
    have "toLowerCase postId = postId"
      using canon rf pp by auto
    then have same: "r_post_id parent = r_post_id reply"
      using rp pi pp by simp
    have "r_parent_reply_id reply = uuid_in pid"
      using ad pid uuid_param_Some[of pid "r_parent_reply_id reply"] by simp
    then have "r_parent_reply_id reply = Some (r_id parent)"
      using rf by simp
    then show ?thesis
      using rf ri same by blast
  qed
  then have sp': "\<forall>pid. ri_parent_reply_id input = Some pid \<longrightarrow>
                     (\<exists>parent \<in> set (replies d). r_id parent = toLowerCase pid
                        \<and> r_deleted_at parent = None \<and> r_post_id parent = r_post_id reply
                        \<and> r_parent_reply_id reply = Some (r_id parent))"
    by blast
  have d': "d' = d\<lparr>replies := replies d @ [reply]\<rparr>"
    using ad by simp
  note pf1 = conjunct1[OF pf] and pf2 = conjunct1[OF conjunct2[OF pf]]
  have all: "createReplySchema b = Inr input \<and> bd = ReplyData reply
               \<and> d' = d\<lparr>replies := replies d @ [reply]\<rparr>
               \<and> post \<in> set (posts d) \<and> p_deleted_at post = None
               \<and> p_id post = toLowerCase postId \<and> r_post_id reply = p_id post
               \<and> (ri_parent_reply_id input = None \<longrightarrow> r_parent_reply_id reply = None)
               \<and> (\<forall>pid. ri_parent_reply_id input = Some pid \<longrightarrow>
                     (\<exists>parent \<in> set (replies d). r_id parent = toLowerCase pid
                        \<and> r_deleted_at parent = None \<and> r_post_id parent = r_post_id reply
                        \<and> r_parent_reply_id reply = Some (r_id parent)))"
    by (rule conjI[OF input conjI[OF bd conjI[OF d' conjI[OF pf1 conjI[OF pf2 conjI[OF pi
          conjI[OF rp conjI[OF np sp']]]]]]]])
  show ?thesis
    by (rule exI[of _ input], rule exI[of _ reply], rule exI[of _ post]) (rule all)
qed

text \<open>
  Claim C10. The ids of posts and replies are compared as the database compares them,
  by value; the text of a value is in lower case, and the rows of the store hold such
  text. Whatever \<open>POST /posts/:id/replies\<close> answers: when it answers 201, the store
  has gained exactly the new reply, under the post that the route names, which is in
  the store and not soft-deleted, and a parent named in the body is a reply in the store
  that is not soft-deleted and belongs to that same post, and the new reply records it
  as its parent; when it answers anything else, the store is unchanged and no job was
  enqueued. So a body whose parent id only names replies of other posts is never
  answered 201. The pattern of the route and of the schema admits the id in any case of
  its letters, and the database reads such text as the value that its lower case spells.
\<close>

theorem reply_parent_check:
  assumes "createReply_handler sha256 flt d now new_id q user postId b = (Response n bd, d', jobs)"
    and "\<forall>r \<in> set (replies d). toLowerCase (r_post_id r) = r_post_id r"
  shows "(n = 201 \<longrightarrow>
            (\<exists>input reply post. createReplySchema b = Inr input \<and> bd = ReplyData reply
               \<and> d' = d\<lparr>replies := replies d @ [reply]\<rparr>
               \<and> post \<in> set (posts d) \<and> p_deleted_at post = None
               \<and> p_id post = toLowerCase postId \<and> r_post_id reply = p_id post
               \<and> (ri_parent_reply_id input = None \<longrightarrow> r_parent_reply_id reply = None)
               \<and> (\<forall>pid. ri_parent_reply_id input = Some pid \<longrightarrow>
                     (\<exists>parent \<in> set (replies d). r_id parent = toLowerCase pid
                        \<and> r_deleted_at parent = None \<and> r_post_id parent = r_post_id reply
                        \<and> r_parent_reply_id reply = Some (r_id parent)))))
       \<and> (n \<noteq> 201 \<longrightarrow> d' = d \<and> jobs = [])
       \<and> (\<forall>input pid. createReplySchema b = Inr input \<longrightarrow> ri_parent_reply_id input = Some pid
             \<longrightarrow> (\<forall>p \<in> set (replies d). r_id p = toLowerCase pid
                      \<longrightarrow> r_post_id p \<noteq> toLowerCase postId)
             \<longrightarrow> n \<noteq> 201 \<and> d' = d \<and> jobs = [])
       \<and> (\<forall>s. is_uuid s \<longrightarrow> uuid_in s = Some (toLowerCase s))"
proof -
  have created: "\<exists>input reply post. createReplySchema b = Inr input \<and> bd = ReplyData reply
               \<and> d' = d\<lparr>replies := replies d @ [reply]\<rparr>
               \<and> post \<in> set (posts d) \<and> p_deleted_at post = None
               \<and> p_id post = toLowerCase postId \<and> r_post_id reply = p_id post
               \<and> (ri_parent_reply_id input = None \<longrightarrow> r_parent_reply_id reply = None)
               \<and> (\<forall>pid. ri_parent_reply_id input = Some pid \<longrightarrow>
                     (\<exists>parent \<in> set (replies d). r_id parent = toLowerCase pid
                        \<and> r_deleted_at parent = None \<and> r_post_id parent = r_post_id reply
                        \<and> r_parent_reply_id reply = Some (r_id parent)))"
    if n: "n = 201"
    using createReply_parent[OF assms(1)[unfolded n] assms(2)] .
  have rejected: "d' = d \<and> jobs = []" if "n \<noteq> 201"
    by (rule createReply_rejected[OF assms(1) that])
  have other: "n \<noteq> 201 \<and> d' = d \<and> jobs = []"
    if "createReplySchema b = Inr input" and "ri_parent_reply_id input = Some pid"
      and "\<forall>p \<in> set (replies d). r_id p = toLowerCase pid \<longrightarrow> r_post_id p \<noteq> toLowerCase postId"
    for input pid
  proof -
    have "n \<noteq> 201"
    proof
      assume "n = 201"
      from created[OF this] show False
      proof (elim exE conjE)
        fix input' reply post
        assume i': "createReplySchema b = Inr input'"
          and rp: "p_id post = toLowerCase postId" "r_post_id reply = p_id post"
          and pr: "\<forall>pid. ri_parent_reply_id input' = Some pid \<longrightarrow>
                     (\<exists>parent \<in> set (replies d). r_id parent = toLowerCase pid
                        \<and> r_deleted_at parent = None \<and> r_post_id parent = r_post_id reply
                        \<and> r_parent_reply_id reply = Some (r_id parent))"
        have "input' = input" using i' that(1) by simp
        with pr that(2) obtain parent where "parent \<in> set (replies d)"
          and "r_id parent = toLowerCase pid" and "r_post_id parent = r_post_id reply"
          by blast
        with that(3) rp show False by auto
      qed
    qed
    then show ?thesis using rejected by simp
  qed
  have reads: "\<forall>s. is_uuid s \<longrightarrow> uuid_in s = Some (toLowerCase s)"
    using is_uuid_uuid_in by blast
  show ?thesis
    using created rejected other reads by blast
qed

theorem reply_parent_check_witness:
  "createReply_handler sha_stub no_faults thread_store 1000 reply_3 True alice post_B
       (reply_body (Some reply_1))
     = (Response 400 (ApiError ''Bad Request'' ''Parent reply does not belong to this post''),
        thread_store, [])
   \<and> createReply_handler sha_stub no_faults thread_store 1000 reply_3 True alice post_A
       (reply_body (Some reply_2))
     = (Response 404 (ApiError ''Not Found'' ''Parent reply not found''), thread_store, [])
   \<and> createReply_handler sha_stub no_faults thread_store 1000 reply_3 True alice post_A_upper
       (reply_body (Some reply_1))
     = (Response 400 (ApiError ''Bad Request'' ''Parent reply does not belong to this post''),
        thread_store, [])
   \<and> status (fst (createReply_handler sha_stub no_faults thread_store 1000 reply_3 True alice post_A
                    (reply_body (Some reply_1_upper)))) = 201
   \<and> map (\<lambda>r. (r_id r, r_post_id r, r_parent_reply_id r))
        (replies (fst (snd (createReply_handler sha_stub no_faults thread_store 1000 reply_3 True
                              alice post_A (reply_body (Some reply_1_upper))))))
     = [(reply_1, post_A, None), (reply_2, post_A, None), (reply_3, post_A, Some reply_1)]
   \<and> list_ex (\<lambda>parent. r_id parent = reply_1 \<and> r_deleted_at parent = None \<and> r_post_id parent = post_A)
        (replies thread_store)"
proof -
  have other: "createReply_handler sha_stub no_faults thread_store 1000 reply_3 True alice post_B
       (reply_body (Some reply_1))
     = (Response 400 (ApiError ''Bad Request'' ''Parent reply does not belong to this post''),
        thread_store, [])"
    by (simp add: reply_eval)
  have gone: "createReply_handler sha_stub no_faults thread_store 1000 reply_3 True alice post_A
       (reply_body (Some reply_2))
     = (Response 404 (ApiError ''Not Found'' ''Parent reply not found''), thread_store, [])"
    by (simp add: reply_eval)
  have raw: "createReply_handler sha_stub no_faults thread_store 1000 reply_3 True alice post_A_upper
       (reply_body (Some reply_1))
     = (Response 400 (ApiError ''Bad Request'' ''Parent reply does not belong to this post''),
        thread_store, [])"
    by (simp add: reply_eval)
  have rows: "map (\<lambda>r. (r_id r, r_post_id r, r_parent_reply_id r))
        (replies (fst (snd (createReply_handler sha_stub no_faults thread_store 1000 reply_3 True
                              alice post_A (reply_body (Some reply_1_upper))))))
     = [(reply_1, post_A, None), (reply_2, post_A, None), (reply_3, post_A, Some reply_1)]"
    by (simp add: reply_eval ReplyRepo_create_def parent_depth_def reply_path_def uuid_param_def)
  obtain bd d' jobs where ok: "createReply_handler sha_stub no_faults thread_store 1000 reply_3 True
        alice post_A (reply_body (Some reply_1_upper)) = (Response 201 bd, d', jobs)"
    by (simp add: reply_eval ReplyRepo_create_def parent_depth_def reply_path_def uuid_param_def)
  have canon: "\<forall>r \<in> set (replies thread_store). toLowerCase (r_post_id r) = r_post_id r"
    by (simp add: thread_store_def empty_db_def reply_row_def post_A_def toLowerCase_def
          lower_char_def)
  have lcA: "toLowerCase post_A = post_A"
    by (simp add: post_A_def toLowerCase_def lower_char_def)
  have lc: "toLowerCase reply_1_upper = reply_1"
    by (simp add: reply_1_upper_def reply_1_def toLowerCase_def lower_char_def)
  have input: "createReplySchema (reply_body (Some reply_1_upper))
                 = Inr \<lparr>ri_content = ''second'', ri_parent_reply_id = Some reply_1_upper,
                        ri_target_adu_id = None, ri_quoted_text = None,
                        ri_quoted_source_type = None, ri_quoted_source_id = None\<rparr>"
    by (simp add: createReplySchema_def bad_uuid_def is_uuid_def is_hex_def reply_body_def
          reply_1_upper_def Let_def)
  from reply_parent_check[OF ok canon] input
  have "\<exists>parent \<in> set (replies thread_store).
          r_id parent = reply_1 \<and> r_deleted_at parent = None \<and> r_post_id parent = post_A"
    by (auto simp: lc lcA)
  then have par: "list_ex (\<lambda>parent. r_id parent = reply_1 \<and> r_deleted_at parent = None
                        \<and> r_post_id parent = post_A) (replies thread_store)"
    by (simp add: list_ex_iff)
  have st: "status (fst (createReply_handler sha_stub no_faults thread_store 1000 reply_3 True alice post_A
                    (reply_body (Some reply_1_upper)))) = 201"
    by (simp add: ok)
  show ?thesis
    by (rule conjI[OF other conjI[OF gone conjI[OF raw conjI[OF st conjI[OF rows par]]]]])
qed
section \<open>Idempotence of the analysis pipeline\<close>

lemma distinct_insert_keyed:
  "distinct (map key xs) \<Longrightarrow> distinct (map key (insert_keyed key x xs))"
  by (simp add: insert_keyed_def)

lemma distinct_insert_all_keyed:
  "distinct (map key xs) \<Longrightarrow> distinct (map key (insert_all_keyed key batch xs))"
  unfolding insert_all_keyed_def
  by (induction batch arbitrary: xs) (simp_all add: distinct_insert_keyed)

lemma distinct_canonicalize_all:
  "canonicalize_all svc as links = Some links' \<Longrightarrow> distinct (map link_adu links)
     \<Longrightarrow> distinct (map link_adu links')"
  by (induction svc as links rule: canonicalize_all.induct)
     (auto simp: distinct_insert_keyed split: if_splits option.splits)

lemma run_job_no_duplicates:
  assumes "no_duplicates st"
  shows "no_duplicates (run_job sha256 svc st job)"
  using assms
  by (auto simp: run_job_def no_duplicates_def mark_def Let_def distinct_insert_all_keyed
      dest: distinct_canonicalize_all split: option.splits)

lemma run_job_completed:
  assumes "unit_status (run_job sha256 svc st job) (job_type job, job_id job) = completed"
  shows "completed_hash (run_job sha256 svc st job) (job_type job, job_id job)
           = Some (generateContentHash sha256 (job_content job))"
  using assms
  by (auto simp: run_job_def mark_def Let_def split: option.splits if_splits)

lemma run_job_skips:
  assumes "unit_status st (job_type job, job_id job) = completed"
    and "completed_hash st (job_type job, job_id job) = Some (generateContentHash sha256 (job_content job))"
  shows "run_job sha256 svc st job = st"
  using assms by (simp add: run_job_def)

lemma createPost_job:
  assumes "createPost_handler sha256 flt d now new_id q user b = (Response 201 (PostData post), d', jobs)"
  shows "list_all (\<lambda>job. job_type job = post_source \<and> job_id job = p_id post
                      \<and> generateContentHash sha256 (job_content job) = p_analysis_content_hash post)
           jobs"
  using assms
  by (auto simp: createPost_handler_def PostRepo_create_def enqueueAnalysis_def internal_error_def
        Let_def
      split: sum.splits if_splits)

text \<open>
  Claim C9. A job is run on a content unit and then run again with the same body, the
  service answering as it likes in either run. When the first run completed, the
  second changes nothing: the hash of the body, which \<open>generateContentHash\<close> computes
  from the body alone, equals the hash recorded at the completed analysis, and every
  later step is skipped. In any case a store without duplicate ADUs, canonical-claim
  links and relations is without duplicates after the two runs. The job that
  \<open>POST /posts\<close> enqueues names the new post and carries the body whose hash the row
  records.
\<close>

theorem pipeline_idempotent:
  "(unit_status (run_job sha256 svc1 st job) (job_type job, job_id job) = completed
      \<longrightarrow> run_job sha256 svc2 (run_job sha256 svc1 st job) job = run_job sha256 svc1 st job)
   \<and> (no_duplicates st
      \<longrightarrow> no_duplicates (run_job sha256 svc2 (run_job sha256 svc1 st job) job))
   \<and> (\<forall>flt d now new_id q user b post d' jobs.
         createPost_handler sha256 flt d now new_id q user b = (Response 201 (PostData post), d', jobs)
         \<longrightarrow> list_all (\<lambda>j. job_type j = post_source \<and> job_id j = p_id post
                            \<and> generateContentHash sha256 (job_content j) = p_analysis_content_hash post)
               jobs)"
proof -
  have skip: "run_job sha256 svc2 (run_job sha256 svc1 st job) job = run_job sha256 svc1 st job"
    if c: "unit_status (run_job sha256 svc1 st job) (job_type job, job_id job) = completed"
    by (rule run_job_skips[OF c run_job_completed[OF c]])
  have nd: "no_duplicates (run_job sha256 svc2 (run_job sha256 svc1 st job) job)"
    if "no_duplicates st"
    by (rule run_job_no_duplicates[OF run_job_no_duplicates[OF that]])
  show ?thesis
    using skip nd createPost_job by blast
qed

lemma demo_run:
  "unit_status (run_job sha_stub demo_service fresh_analysis demo_job) (post_source, ''p1'') = completed
   \<and> map adu_key_of (adus (run_job sha_stub demo_service fresh_analysis demo_job))
       = [(post_source, ''p1'', 0, 5), (post_source, ''p1'', 6, 11)]
   \<and> map link_adu (canonical_links (run_job sha_stub demo_service fresh_analysis demo_job))
       = [(post_source, ''p1'', 0, 5), (post_source, ''p1'', 6, 11)]
   \<and> length (relations (run_job sha_stub demo_service fresh_analysis demo_job)) = 1"
  by (simp add: run_job_def mark_def demo_service_def fresh_analysis_def demo_job_def
        resolve_batch_def insert_all_keyed_def insert_keyed_def adu_key_of_def rel_key_of_def
        is_claim_def generateContentHash_def sha_stub_def Let_def)

theorem pipeline_idempotent_witness:
  "unit_status (run_job sha_stub demo_service fresh_analysis demo_job) (post_source, ''p1'') = completed
   \<and> no_duplicates fresh_analysis
   \<and> run_job sha_stub demo_service (run_job sha_stub demo_service fresh_analysis demo_job) demo_job
       = run_job sha_stub demo_service fresh_analysis demo_job
   \<and> no_duplicates (run_job sha_stub demo_service
                      (run_job sha_stub demo_service fresh_analysis demo_job) demo_job)
   \<and> map adu_key_of (adus (run_job sha_stub demo_service
                              (run_job sha_stub demo_service fresh_analysis demo_job) demo_job))
       = [(post_source, ''p1'', 0, 5), (post_source, ''p1'', 6, 11)]"
proof -
  have c: "unit_status (run_job sha_stub demo_service fresh_analysis demo_job)
             (job_type demo_job, job_id demo_job) = completed"
    using demo_run by (simp add: demo_job_def)
  have n: "no_duplicates fresh_analysis"
    by (simp add: no_duplicates_def fresh_analysis_def)
  from pipeline_idempotent[of sha_stub demo_service fresh_analysis demo_job demo_service] c n
  have "run_job sha_stub demo_service (run_job sha_stub demo_service fresh_analysis demo_job) demo_job
          = run_job sha_stub demo_service fresh_analysis demo_job"
    and "no_duplicates (run_job sha_stub demo_service
                      (run_job sha_stub demo_service fresh_analysis demo_job) demo_job)"
    by blast+
  then show ?thesis
    using demo_run n by simp
qed


end
